(* ===== verification/Prelude.thy ===== *)
theory Prelude
  imports Main "HOL-Library.Multiset"
begin

text \<open>
  Shared vocabulary of the development: the named collections the component theories add
  their rewrite rules to, generic facts on lists of table rows, results of fallible calls as
  sums, and the reachability interface of the state machines (one locale for safety, one that
  extends it for termination).
\<close>

named_theorems row_simps \<comment> \<open>how a statement changes a table\<close>
named_theorems exec_simps \<comment> \<open>how a call to an outside service unfolds\<close>
named_theorems guard_simps \<comment> \<open>the guards of the handlers, in terms of the tables\<close>

section \<open>Results\<close>

text \<open>A Go pair \<open>(value, err)\<close> is a sum: \<open>Inl\<close> holds the error.\<close>

definition is_ok :: "'e + 'a \<Rightarrow> bool" where
  "is_ok r = (case r of Inl _ \<Rightarrow> False | Inr _ \<Rightarrow> True)"

lemma is_ok_simps [simp]: "is_ok (Inr a)" "\<not> is_ok (Inl e)"
  by (simp_all add: is_ok_def)

lemma is_ok_conv: "is_ok r \<longleftrightarrow> (\<exists>a. r = Inr a)"
  by (cases r) auto

section \<open>Lists as tables\<close>

lemma distinct_map_filter_rows: "distinct (map f xs) \<Longrightarrow> distinct (map f (filter P xs))"
  by (induction xs) auto

lemma map_if_keep:
  assumes "\<And>x. f (g x) = f x"
  shows "map f (map (\<lambda>x. if P x then g x else x) xs) = map f xs"
  using assms by (induction xs) auto

lemma ex_set_map_if:
  "(\<exists>x\<in>set (map (\<lambda>x. if P x then g x else x) xs). Q x) \<longleftrightarrow>
   (\<exists>x\<in>set xs. if P x then Q (g x) else Q x)"
  by (induction xs) auto

lemma length_filter_le_1_iff:
  "length (filter P xs) \<le> 1 \<longleftrightarrow> filter P xs = [] \<or> (\<exists>x. filter P xs = [x])"
  by (cases "filter P xs") (auto simp: le_Suc_eq length_Suc_conv)

lemma two_distinct_of_length:
  assumes "distinct (map f xs)" and "1 < length (filter P xs)"
  shows "\<exists>y\<in>set xs. P y \<and> f y \<noteq> k"
proof (rule ccontr)
  assume none: "\<not> (\<exists>y\<in>set xs. P y \<and> f y \<noteq> k)"
  let ?ys = "filter P xs"
  have "set (map f ?ys) \<subseteq> {k}"
    using none by auto
  moreover have "distinct (map f ?ys)"
    using assms(1) by (rule distinct_map_filter_rows)
  ultimately have "length (map f ?ys) \<le> 1"
    by (metis card_mono distinct_card finite.emptyI finite.insertI is_singletonI is_singleton_altdef)
  then show False
    using assms(2) by simp
qed

lemma filter_nonempty_conv: "filter P xs \<noteq> [] \<longleftrightarrow> (\<exists>x\<in>set xs. P x)"
  by (simp add: filter_empty_conv)

lemma find_append: "find P (xs @ ys) = (case find P xs of None \<Rightarrow> find P ys | Some x \<Rightarrow> Some x)"
  by (induction xs) auto

section \<open>State machines\<close>

inductive reachable :: "('s \<Rightarrow> bool) \<Rightarrow> ('s \<Rightarrow> 's \<Rightarrow> bool) \<Rightarrow> 's \<Rightarrow> bool"
  for init step where
  reachable_init: "init s \<Longrightarrow> reachable init step s"
| reachable_step: "reachable init step s \<Longrightarrow> step s t \<Longrightarrow> reachable init step t"

lemma reachable_rtranclp:
  "step\<^sup>*\<^sup>* s t \<Longrightarrow> reachable init step s \<Longrightarrow> reachable init step t"
proof (induction rule: rtranclp_induct)
  case base
  then show ?case .
next
  case (step t u)
  then show ?case by (blast intro: reachable_step)
qed

text \<open>The contract of a machine with an invariant.\<close>

locale safe_system =
  fixes init :: "'s \<Rightarrow> bool"
    and step :: "'s \<Rightarrow> 's \<Rightarrow> bool"
    and inv :: "'s \<Rightarrow> bool"
  assumes init_inv: "init s \<Longrightarrow> inv s"
    and step_inv: "inv s \<Longrightarrow> step s t \<Longrightarrow> inv t"
begin

lemma steps_inv: "step\<^sup>*\<^sup>* s t \<Longrightarrow> inv s \<Longrightarrow> inv t"
  by (induction rule: rtranclp_induct) (auto intro: step_inv)

lemma reachable_inv: "reachable init step s \<Longrightarrow> inv s"
  by (induction rule: reachable.induct) (auto intro: init_inv step_inv)

end

text \<open>
  A machine whose invariant states all have a decreasing size: every run from an invariant
  state is finite, and if every state that is not final can move, every maximal run ends in a
  final state.
\<close>

locale terminating_system = safe_system +
  fixes size_of :: "'s \<Rightarrow> nat"
    and final :: "'s \<Rightarrow> bool"
  assumes step_smaller: "inv s \<Longrightarrow> step s t \<Longrightarrow> size_of t < size_of s"
    and progress: "inv s \<Longrightarrow> \<not> final s \<Longrightarrow> \<exists>t. step s t"
begin

lemma run_bounded:
  assumes "(step ^^ n) s t" and "inv s"
  shows "size_of t + n \<le> size_of s"
  using assms
proof (induction n arbitrary: t)
  case 0
  then show ?case by simp
next
  case (Suc n)
  from Suc.prems(1) obtain u where u: "(step ^^ n) s u" and ut: "step u t"
    by (auto elim: relpowp_Suc_E)
  have "inv u"
    using Suc.prems(2) u steps_inv by (metis relpowp_imp_rtranclp)
  with ut have "size_of t < size_of u"
    by (rule step_smaller[rotated])
  with Suc.IH[OF u Suc.prems(2)] show ?case by simp
qed

lemma can_finish: "inv s \<Longrightarrow> \<exists>t. step\<^sup>*\<^sup>* s t \<and> final t"
proof (induction "size_of s" arbitrary: s rule: less_induct)
  case less
  show ?case
  proof (cases "final s")
    case True
    then show ?thesis by blast
  next
    case False
    with less.prems obtain u where u: "step s u"
      using progress by blast
    then have "\<exists>t. step\<^sup>*\<^sup>* u t \<and> final t"
      using less.hyps less.prems step_inv step_smaller by blast
    with u show ?thesis
      by (meson converse_rtranclp_into_rtranclp)
  qed
qed

lemma stuck_is_final: "inv s \<Longrightarrow> step\<^sup>*\<^sup>* s t \<Longrightarrow> \<not> (\<exists>u. step t u) \<Longrightarrow> final t"
  using progress steps_inv by blast

end

end
