(* ===== verification/GoStrings.thy ===== *)
theory GoStrings
  imports Prelude "HOL-Library.List_Lexorder" "HOL-Library.Char_ord" "HOL-Library.Sublist"
    "HOL-Library.Word"
begin

text \<open>
  The parts of Go's \<^verbatim>\<open>strings\<close>, \<^verbatim>\<open>strconv\<close> and \<^verbatim>\<open>encoding/hex\<close> packages the program uses. A Go
  string is a sequence of bytes, here a list of 8-bit characters, so the length is the byte
  length and the order is the byte order \<^verbatim>\<open>sort.Strings\<close> uses. White space is what
  \<^verbatim>\<open>unicode.IsSpace\<close> accepts, as the UTF-8 encodings of its runes: no encoding is a prefix or a
  suffix of another and none starts with a continuation byte, so scanning bytes finds the same
  runes as decoding does, on ill-formed input too.
\<close>

section \<open>White space\<close>

definition bytes :: "nat list \<Rightarrow> string" where
  "bytes ns = map char_of ns"

definition space_runes :: "string list" where
  "space_runes =
     map bytes ([[9], [10], [11], [12], [13], [32], [0xC2, 0x85], [0xC2, 0xA0], [0xE1, 0x9A, 0x80]]
       @ map (\<lambda>n. [0xE2, 0x80, n]) [0x80, 0x81, 0x82, 0x83, 0x84, 0x85, 0x86, 0x87, 0x88, 0x89, 0x8A]
       @ [[0xE2, 0x80, 0xA8], [0xE2, 0x80, 0xA9], [0xE2, 0x80, 0xAF], [0xE2, 0x81, 0x9F],
          [0xE3, 0x80, 0x80]])"

lemma space_runes_nonempty: "w \<in> set space_runes \<Longrightarrow> w \<noteq> []"
  by (auto simp: space_runes_def bytes_def)

text \<open>Removing encodings of a given set from the front, as often as one is there.\<close>

function strip_front :: "string list \<Rightarrow> string \<Rightarrow> string" where
  "strip_front ws s =
     (case find (\<lambda>w. w \<noteq> [] \<and> prefix w s) ws of
        None \<Rightarrow> s
      | Some w \<Rightarrow> strip_front ws (drop (length w) s))"
  by pat_completeness auto
termination
proof (relation "measure (\<lambda>(ws, s). length s)")
  fix ws s w
  assume "find (\<lambda>w. w \<noteq> [] \<and> prefix w s) ws = Some w"
  then have "w \<noteq> []" "prefix w s"
    by (auto simp: find_Some_iff)
  then show "((ws, drop (length w) s), (ws, s)) \<in> measure (\<lambda>(ws, s). length s)"
    by (cases w; cases s) auto
qed simp

declare strip_front.simps [simp del]

definition trim_left :: "string \<Rightarrow> string" where
  "trim_left s = strip_front space_runes s"

definition trim_right :: "string \<Rightarrow> string" where
  "trim_right s = rev (strip_front (map rev space_runes) (rev s))"

text \<open>\<^verbatim>\<open>strings.TrimSpace\<close>\<close>

definition trim_space :: "string \<Rightarrow> string" where
  "trim_space s = trim_right (trim_left s)"

definition starts_with_any :: "string list \<Rightarrow> string \<Rightarrow> bool" where
  "starts_with_any ws s \<longleftrightarrow> (\<exists>w\<in>set ws. w \<noteq> [] \<and> prefix w s)"

lemma find_no_start: "find (\<lambda>w. w \<noteq> [] \<and> prefix w s) ws = None \<longleftrightarrow> \<not> starts_with_any ws s"
  by (auto simp: starts_with_any_def find_None_iff)

lemma strip_front_stop: "\<not> starts_with_any ws s \<Longrightarrow> strip_front ws s = s"
  by (subst strip_front.simps) (simp add: find_no_start[symmetric])

lemma strip_front_done: "\<not> starts_with_any ws (strip_front ws s)"
proof (induction ws s rule: strip_front.induct)
  case (1 ws s)
  show ?case
  proof (cases "find (\<lambda>w. w \<noteq> [] \<and> prefix w s) ws")
    case None
    then have "\<not> starts_with_any ws s"
      by (simp add: find_no_start)
    then show ?thesis
      by (simp add: strip_front_stop)
  next
    case (Some w)
    then show ?thesis
      using 1 by (subst strip_front.simps) simp
  qed
qed

lemma strip_front_suffix: "suffix (strip_front ws s) s"
proof (induction ws s rule: strip_front.induct)
  case (1 ws s)
  show ?case
  proof (cases "find (\<lambda>w. w \<noteq> [] \<and> prefix w s) ws")
    case None
    then show ?thesis
      by (subst strip_front.simps) simp
  next
    case (Some w)
    then have "suffix (strip_front ws (drop (length w) s)) (drop (length w) s)"
      using 1 by simp
    then have "suffix (strip_front ws (drop (length w) s)) s"
      using suffix_drop suffix_order.order_trans by blast
    with Some show ?thesis
      by (subst strip_front.simps) simp
  qed
qed

lemma strip_front_idem [simp]: "strip_front ws (strip_front ws s) = strip_front ws s"
  by (rule strip_front_stop) (rule strip_front_done)

lemma starts_with_any_prefix: "prefix t s \<Longrightarrow> starts_with_any ws t \<Longrightarrow> starts_with_any ws s"
  unfolding starts_with_any_def by (meson prefix_order.order_trans)

lemma trim_right_prefix: "prefix (trim_right s) s"
  using strip_front_suffix[of "map rev space_runes" "rev s"]
  by (simp add: trim_right_def suffix_to_prefix)

lemma trim_right_idem [simp]: "trim_right (trim_right s) = trim_right s"
  by (simp add: trim_right_def)

lemma trim_left_trim_right: "\<not> starts_with_any space_runes s \<Longrightarrow> trim_left (trim_right s) = trim_right s"
  unfolding trim_left_def
  by (rule strip_front_stop) (use trim_right_prefix starts_with_any_prefix in blast)

lemma trim_space_idem [simp]: "trim_space (trim_space s) = trim_space s"
proof -
  have "\<not> starts_with_any space_runes (trim_left s)"
    unfolding trim_left_def by (rule strip_front_done)
  then show ?thesis
    by (simp add: trim_space_def trim_left_trim_right)
qed

lemma starts_with_any_Nil [simp]: "\<not> starts_with_any ws []"
  by (simp add: starts_with_any_def)

lemma trim_space_Nil [simp]: "trim_space [] = []"
  by (simp add: trim_space_def trim_left_def trim_right_def strip_front_stop)

lemma length_trim_space: "length (trim_space s) \<le> length s"
proof -
  have "length (trim_right (trim_left s)) \<le> length (trim_left s)"
    by (rule prefix_length_le) (rule trim_right_prefix)
  also have "\<dots> \<le> length s"
    unfolding trim_left_def by (rule suffix_length_le) (rule strip_front_suffix)
  finally show ?thesis
    by (simp add: trim_space_def)
qed

text \<open>A string that begins and ends with a printable ASCII character is left alone.\<close>

definition printable :: "char \<Rightarrow> bool" where
  "printable c \<longleftrightarrow> (let n = of_char c :: nat in 33 \<le> n \<and> n \<le> 126)"

lemma space_runes_not_printable: "w \<in> set space_runes \<Longrightarrow> \<not> printable (hd w) \<and> \<not> printable (last w)"
  by (auto simp: space_runes_def bytes_def printable_def)

lemma printable_no_start: "s \<noteq> [] \<Longrightarrow> printable (hd s) \<Longrightarrow> \<not> starts_with_any space_runes s"
  unfolding starts_with_any_def using space_runes_not_printable
  by (metis hd_append2 prefixE)

lemma printable_no_end: "s \<noteq> [] \<Longrightarrow> printable (last s) \<Longrightarrow> \<not> starts_with_any (map rev space_runes) (rev s)"
  unfolding starts_with_any_def
proof
  assume s: "s \<noteq> []" "printable (last s)"
  assume "\<exists>w\<in>set (map rev space_runes). w \<noteq> [] \<and> prefix w (rev s)"
  then obtain v where v: "v \<in> set space_runes" "v \<noteq> []" "prefix (rev v) (rev s)"
    by auto
  then have "hd (rev v) = hd (rev s)"
    by (metis hd_append2 prefixE rev_is_Nil_conv)
  then have "last v = last s"
    using s(1) v(2) by (simp add: hd_rev)
  with s(2) v(1) show False
    using space_runes_not_printable by metis
qed

lemma trim_space_printable:
  "s \<noteq> [] \<Longrightarrow> printable (hd s) \<Longrightarrow> printable (last s) \<Longrightarrow> trim_space s = s"
  by (simp add: trim_space_def trim_left_def trim_right_def strip_front_stop printable_no_start
      printable_no_end)

text \<open>\<^verbatim>\<open>strings.Fields\<close>: the maximal runs without white space.\<close>

function fields_from :: "string \<Rightarrow> string \<Rightarrow> string list" where
  "fields_from cur s =
     (case s of
        [] \<Rightarrow> (if cur = [] then [] else [rev cur])
      | c # cs \<Rightarrow>
        (case find (\<lambda>w. w \<noteq> [] \<and> prefix w s) space_runes of
           None \<Rightarrow> fields_from (c # cur) cs
         | Some w \<Rightarrow> (if cur = [] then [] else [rev cur]) @ fields_from [] (drop (length w) s)))"
  by pat_completeness auto
termination
proof (relation "measure (\<lambda>(cur, s). length s)")
  fix cur s c cs w
  assume "s = c # cs" "find (\<lambda>w. w \<noteq> [] \<and> prefix w s) space_runes = Some w"
  then have "w \<noteq> []" "s \<noteq> []"
    by (auto simp: find_Some_iff)
  then show "(([], drop (length w) s), (cur, s)) \<in> measure (\<lambda>(cur, s). length s)"
    by (cases w; cases s) auto
qed auto

declare fields_from.simps [simp del]

definition str_fields :: "string \<Rightarrow> string list" where
  "str_fields s = fields_from [] s"

lemma fields_from_nonempty: "f \<in> set (fields_from cur s) \<Longrightarrow> f \<noteq> []"
proof (induction cur s rule: fields_from.induct)
  case (1 cur s)
  show ?case
  proof (cases s)
    case Nil
    with 1 show ?thesis
      by (subst (asm) fields_from.simps) (auto split: if_splits)
  next
    case (Cons c cs)
    with 1 show ?thesis
      by (subst (asm) fields_from.simps) (auto split: if_splits option.splits)
  qed
qed

lemma fields_printable:
  "list_all printable a \<Longrightarrow> fields_from cur (a @ s) = fields_from (rev a @ cur) s"
proof (induction a arbitrary: cur)
  case (Cons c a)
  then have "find (\<lambda>w. w \<noteq> [] \<and> prefix w (c # a @ s)) space_runes = None"
    unfolding find_no_start by (intro printable_no_start) auto
  with Cons show ?case
    by (subst fields_from.simps) simp
qed simp

lemma fields_blank:
  "fields_from cur (CHR '' '' # s) = (if cur = [] then [] else [rev cur]) @ fields_from [] s"
proof -
  have "find (\<lambda>w. w \<noteq> [] \<and> prefix w (CHR '' '' # s)) space_runes = Some '' ''"
    by (simp add: space_runes_def bytes_def char_of_def bit_0)
  then show ?thesis
    by (subst fields_from.simps) simp
qed

lemma fields_two:
  assumes "list_all printable a" "list_all printable b" "a \<noteq> []" "b \<noteq> []"
  shows "str_fields (a @ CHR '' '' # b) = [a, b]"
proof -
  have "fields_from [] b = fields_from (rev b) []"
    using fields_printable[OF assms(2), of "[]" "[]"] by simp
  then show ?thesis
    using assms by (simp add: str_fields_def fields_printable fields_blank fields_from.simps[of "rev b" "[]"])
qed
section \<open>Prefixes, splitting, folding\<close>

definition has_prefix :: "string \<Rightarrow> string \<Rightarrow> bool" where
  "has_prefix s p = prefix p s"

definition trim_prefix :: "string \<Rightarrow> string \<Rightarrow> string" where
  "trim_prefix s p = (if prefix p s then drop (length p) s else s)"

text \<open>\<^verbatim>\<open>strings.TrimRight(s, "/")\<close>\<close>

definition trim_right_slash :: "string \<Rightarrow> string" where
  "trim_right_slash s = rev (dropWhile (\<lambda>c. c = CHR ''/'') (rev s))"

text \<open>\<^verbatim>\<open>strings.Split\<close> on one character: always at least one part.\<close>

fun split_on :: "char \<Rightarrow> string \<Rightarrow> string list" where
  "split_on d [] = [[]]"
| "split_on d (c # cs) =
     (if c = d then [] # split_on d cs
      else (case split_on d cs of [] \<Rightarrow> [[c]] | p # ps \<Rightarrow> (c # p) # ps))"

fun join_with :: "string \<Rightarrow> string list \<Rightarrow> string" where
  "join_with sep [] = []"
| "join_with sep [s] = s"
| "join_with sep (s # t # ss) = s @ sep @ join_with sep (t # ss)"

lemma split_on_nonempty [simp]: "split_on d s \<noteq> []"
  by (induction s) (auto split: list.splits)

lemma join_with_Cons: "ss \<noteq> [] \<Longrightarrow> join_with sep (s # ss) = s @ sep @ join_with sep ss"
  by (cases ss) auto

lemma join_with_grow: "join_with sep ((c # s) # ss) = c # join_with sep (s # ss)"
  by (cases ss) auto

lemma join_split [simp]: "join_with [d] (split_on d s) = s"
proof (induction s)
  case Nil
  then show ?case by simp
next
  case (Cons c cs)
  then show ?case
    by (cases "split_on d cs") (auto simp: join_with_grow join_with_Cons)
qed

lemma split_on_free: "p \<in> set (split_on d s) \<Longrightarrow> d \<notin> set p"
  by (induction s arbitrary: p) (auto split: if_splits list.splits)

lemma split_on_append:
  "d \<notin> set p \<Longrightarrow> split_on d (p @ d # s) = p # split_on d s"
  by (induction p) auto

lemma split_on_no: "d \<notin> set p \<Longrightarrow> split_on d p = [p]"
  by (induction p) auto

lemma split_join: "as \<noteq> [] \<Longrightarrow> \<forall>a\<in>set as. d \<notin> set a \<Longrightarrow> split_on d (join_with [d] as) = as"
proof (induction as)
  case (Cons a as)
  then show ?case
    by (cases as) (auto simp: split_on_no split_on_append)
qed simp

text \<open>
  \<^verbatim>\<open>strings.EqualFold\<close> against an ASCII constant: besides the ASCII letters, the Kelvin sign folds
  to \<open>k\<close> and the long s to \<open>s\<close>.
\<close>

definition ascii_lower :: "char \<Rightarrow> char" where
  "ascii_lower c = (let n = of_char c :: nat in if 65 \<le> n \<and> n \<le> 90 then char_of (n + 32) else c)"

definition kelvin_sign :: string where
  "kelvin_sign = bytes [0xE2, 0x84, 0xAA]"

definition long_s :: string where
  "long_s = bytes [0xC5, 0xBF]"

fun fold_case :: "string \<Rightarrow> string" where
  "fold_case [] = []"
| "fold_case (c # cs) =
     (if prefix kelvin_sign (c # cs) then CHR ''k'' # fold_case (drop 2 cs)
      else if prefix long_s (c # cs) then CHR ''s'' # fold_case (drop 1 cs)
      else ascii_lower c # fold_case cs)"

definition equal_fold :: "string \<Rightarrow> string \<Rightarrow> bool" where
  "equal_fold s t \<longleftrightarrow> fold_case s = fold_case t"

lemma equal_fold_refl [simp]: "equal_fold s s"
  by (simp add: equal_fold_def)

section \<open>Numbers and bytes as text\<close>

text \<open>The verb \<^verbatim>\<open>%d\<close>.\<close>

definition digit_char :: "nat \<Rightarrow> char" where
  "digit_char d = char_of (48 + d)"

fun decimal_nat :: "nat \<Rightarrow> string" where
  "decimal_nat n = (if n < 10 then [digit_char n] else decimal_nat (n div 10) @ [digit_char (n mod 10)])"

declare decimal_nat.simps [simp del]

definition decimal :: "int \<Rightarrow> string" where
  "decimal i = (if i < 0 then CHR ''-'' # decimal_nat (nat (- i)) else decimal_nat (nat i))"

definition digit_value :: "char \<Rightarrow> nat" where
  "digit_value c = (of_char c :: nat) - 48"

definition read_decimal :: "string \<Rightarrow> nat" where
  "read_decimal s = foldl (\<lambda>a c. 10 * a + digit_value c) 0 s"

lemma digit_value_char: "d < 10 \<Longrightarrow> digit_value (digit_char d) = d"
  by (simp add: digit_value_def digit_char_def of_char_of)

lemma read_decimal_nat: "read_decimal (decimal_nat n) = n"
proof (induction n rule: decimal_nat.induct)
  case (1 n)
  show ?case
  proof (cases "n < 10")
    case True
    then show ?thesis
      by (subst decimal_nat.simps) (simp add: read_decimal_def digit_value_char)
  next
    case False
    then have "read_decimal (decimal_nat (n div 10)) = n div 10"
      by (rule 1)
    with False show ?thesis
      by (subst decimal_nat.simps) (simp add: read_decimal_def digit_value_char)
  qed
qed

lemma decimal_nat_inj [simp]: "decimal_nat m = decimal_nat n \<longleftrightarrow> m = n"
  by (metis read_decimal_nat)

lemma decimal_nat_digits: "c \<in> set (decimal_nat n) \<Longrightarrow> \<exists>d<10. c = digit_char d"
proof (induction n rule: decimal_nat.induct)
  case (1 n)
  show ?case
  proof (cases "n < 10")
    case True
    with 1(2) show ?thesis
      by (subst (asm) decimal_nat.simps) auto
  next
    case False
    with 1(2) have "c \<in> set (decimal_nat (n div 10)) \<or> c = digit_char (n mod 10)"
      by (subst (asm) decimal_nat.simps) auto
    moreover have "n mod 10 < 10"
      by simp
    ultimately show ?thesis
      using 1(1)[OF False] by blast
  qed
qed

lemma digit_char_eq: "d < 10 \<Longrightarrow> of_char (digit_char d) = 48 + d"
  by (simp add: digit_char_def of_char_of)

lemma decimal_nat_nonempty [simp]: "decimal_nat n \<noteq> []"
  by (subst decimal_nat.simps) simp

lemma digit_char_range: "c \<in> set (decimal_nat n) \<Longrightarrow> 48 \<le> (of_char c :: nat) \<and> (of_char c :: nat) \<le> 57"
  using decimal_nat_digits[of c n] digit_char_eq by force

lemma decimal_no_colon: "0 \<le> i \<Longrightarrow> CHR '':'' \<notin> set (decimal i)"
  using digit_char_range[of "CHR '':''" "nat i"] by (auto simp: decimal_def)

lemma decimal_inj: "0 \<le> i \<Longrightarrow> 0 \<le> j \<Longrightarrow> decimal i = decimal j \<longleftrightarrow> i = j"
  by (auto simp: decimal_def)

text \<open>A separator that the first, or the last, part does not hold splits in one way.\<close>

lemma sep_append_inj:
  "d \<notin> set p \<Longrightarrow> d \<notin> set p' \<Longrightarrow> p @ d # r = p' @ d # r' \<longleftrightarrow> p = p' \<and> r = r'"
proof (induction p arbitrary: p')
  case Nil
  then show ?case by (cases p') auto
next
  case (Cons c p)
  then show ?case by (cases p') auto
qed

lemma append_sep_inj:
  assumes "d \<notin> set b" and "d \<notin> set b'"
  shows "a @ d # b = a' @ d # b' \<longleftrightarrow> a = a' \<and> b = b'"
proof -
  have "a @ d # b = a' @ d # b' \<longleftrightarrow> rev b @ d # rev a = rev b' @ d # rev a'"
    by (subst rev_is_rev_conv[symmetric]) simp
  then show ?thesis
    using assms by (auto simp: sep_append_inj)
qed

text \<open>\<^verbatim>\<open>hex.EncodeToString\<close>\<close>

definition hex_digit :: "nat \<Rightarrow> char" where
  "hex_digit d = (if d < 10 then char_of (48 + d) else char_of (87 + d))"

definition hex_encode :: "8 word list \<Rightarrow> string" where
  "hex_encode bs = concat (map (\<lambda>b. [hex_digit (unat b div 16), hex_digit (unat b mod 16)]) bs)"

definition hex_alphabet :: string where
  "hex_alphabet = ''0123456789abcdef''"

lemma hex_digit_table: "map hex_digit [0..<16] = hex_alphabet"
  by code_simp

lemma hex_digit_nth: "d < 16 \<Longrightarrow> hex_digit d = hex_alphabet ! d"
  unfolding hex_digit_table[symmetric] by simp

lemma hex_digit_alphabet: "d < 16 \<Longrightarrow> hex_digit d \<in> set hex_alphabet"
  using nth_mem[of d hex_alphabet] by (simp add: hex_digit_nth hex_alphabet_def del: nth_mem)

lemma distinct_hex_alphabet: "distinct hex_alphabet"
  by code_simp

lemma hex_digit_inj: "d < 16 \<Longrightarrow> e < 16 \<Longrightarrow> hex_digit d = hex_digit e \<Longrightarrow> d = e"
  using distinct_hex_alphabet
  by (simp add: hex_digit_nth nth_eq_iff_index_eq hex_alphabet_def)

lemma length_hex_encode [simp]: "length (hex_encode bs) = 2 * length bs"
  by (induction bs) (auto simp: hex_encode_def)

lemma byte_nibbles: "unat (b :: 8 word) div 16 < 16" "unat (b :: 8 word) mod 16 < 16"
  using unsigned_less[of b, where ?'a = nat] by auto

lemma set_hex_encode: "set (hex_encode bs) \<subseteq> set hex_alphabet"
  by (auto simp: hex_encode_def byte_nibbles hex_digit_alphabet)

lemma hex_encode_inj: "hex_encode as = hex_encode bs \<Longrightarrow> as = bs"
proof (induction as arbitrary: bs)
  case Nil
  then show ?case by (cases bs) (auto simp: hex_encode_def)
next
  case (Cons a as)
  then obtain b bs' where bs: "bs = b # bs'"
    by (cases bs) (auto simp: hex_encode_def)
  with Cons.prems have "hex_digit (unat a div 16) = hex_digit (unat b div 16)"
    "hex_digit (unat a mod 16) = hex_digit (unat b mod 16)" "hex_encode as = hex_encode bs'"
    by (auto simp: hex_encode_def)
  then have "unat a div 16 = unat b div 16" "unat a mod 16 = unat b mod 16" "as = bs'"
    using byte_nibbles hex_digit_inj Cons.IH by blast+
  then have "unat a = unat b"
    by (metis div_mult_mod_eq)
  then have "a = b"
    by (rule unsigned_word_eqI)
  then show ?case
    using bs \<open>as = bs'\<close> by simp
qed

end
