(* ===== verification/Http.thy ===== *)
theory Http
  imports GoStrings
begin

text \<open>
  What the gateway's handlers receive and send: JSON values, the envelopes \<^verbatim>\<open>writeJSON\<close> and
  \<^verbatim>\<open>writeError\<close> of services/api-gateway/internal/gateway/server.go build, the decoding of a
  JSON body into a struct (\<^verbatim>\<open>json.Decoder.Decode\<close>: fields are found by name, case-insensitively
  if there is no exact match, unknown members are skipped, \<^verbatim>\<open>null\<close> leaves a field as it is, a
  value of the wrong type is an error), and header copying. A body is \<open>None\<close> where the bytes
  are not one JSON value.
\<close>

section \<open>JSON values\<close>

text \<open>\<open>JTime\<close> is the string \<^verbatim>\<open>time.Time\<close> marshals to.\<close>

datatype json =
    JNull
  | JBool bool
  | JNum int
  | JStr string
  | JTime int
  | JArr "json list"
  | JObj "(string \<times> json) list"

record response =
  resp_code :: nat
  resp_body :: json

text \<open>\<^verbatim>\<open>encoding/json\<close> writes the members of a map in the order of their keys.\<close>

definition writeJSON :: "nat \<Rightarrow> json \<Rightarrow> response" where
  "writeJSON code payload =
     \<lparr>resp_code = code, resp_body = JObj [(''result'', payload), (''success'', JBool True)]\<rparr>"

definition writeError :: "nat \<Rightarrow> string \<Rightarrow> response" where
  "writeError code message =
     \<lparr>resp_code = code, resp_body = JObj [(''error'', JStr message), (''success'', JBool False)]\<rparr>"

lemma write_codes [simp]:
  "resp_code (writeJSON c p) = c" "resp_code (writeError c m) = c"
  by (simp_all add: writeJSON_def writeError_def)

lemma write_inject [simp]:
  "writeJSON c p = writeJSON c' p' \<longleftrightarrow> c = c' \<and> p = p'"
  "writeError c m = writeError c' m' \<longleftrightarrow> c = c' \<and> m = m'"
  "writeJSON c p \<noteq> writeError c' m'" "writeError c' m' \<noteq> writeJSON c p"
  by (auto simp: writeJSON_def writeError_def)

definition succeeded :: "response \<Rightarrow> bool" where
  "succeeded r \<longleftrightarrow> (\<exists>code payload. r = writeJSON code payload)"

lemma succeeded_simps [simp]: "succeeded (writeJSON c p)" "\<not> succeeded (writeError c m)"
  by (auto simp: succeeded_def)

text \<open>\<^verbatim>\<open>map[string]any{"success": true}\<close>, the result of the handlers that return nothing else.\<close>

definition ok_body :: json where
  "ok_body = JObj [(''success'', JBool True)]"

section \<open>Header maps\<close>

type_synonym header = "string \<Rightarrow> string list"

definition add_header :: "header \<Rightarrow> string \<Rightarrow> string \<Rightarrow> header" where
  "add_header h k v = h(k := h k @ [v])"

text \<open>\<^verbatim>\<open>copyHeader\<close>: \<^verbatim>\<open>ks\<close> lists the keys of the source in the order the map iteration takes.\<close>

definition copyHeader :: "string list \<Rightarrow> header \<Rightarrow> header \<Rightarrow> header" where
  "copyHeader ks dst src = fold (\<lambda>k d. fold (\<lambda>v d. add_header d k v) (src k) d) ks dst"

lemma fold_add_header:
  "fold (\<lambda>v d. add_header d k v) vs d = d(k := d k @ vs)"
  by (induction vs arbitrary: d) (auto simp: add_header_def)

lemma copyHeader_at:
  "distinct ks \<Longrightarrow> copyHeader ks dst src k = (if k \<in> set ks then dst k @ src k else dst k)"
  unfolding copyHeader_def
  by (induction ks arbitrary: dst) (auto simp: fold_add_header)

section \<open>Decoding a JSON body into a struct\<close>

definition decode_string :: "json \<Rightarrow> string \<Rightarrow> string option" where
  "decode_string j old = (case j of JStr s \<Rightarrow> Some s | JNull \<Rightarrow> Some old | _ \<Rightarrow> None)"

definition decode_string_ptr :: "json \<Rightarrow> string option \<Rightarrow> string option option" where
  "decode_string_ptr j old = (case j of JStr s \<Rightarrow> Some (Some s) | JNull \<Rightarrow> Some None | _ \<Rightarrow> None)"

fun decode_elems :: "json list \<Rightarrow> string list \<Rightarrow> string list option" where
  "decode_elems [] old = Some []"
| "decode_elems (j # js) old =
     (case decode_string j (case old of [] \<Rightarrow> [] | o1 # _ \<Rightarrow> o1) of
        None \<Rightarrow> None
      | Some s \<Rightarrow> map_option ((#) s) (decode_elems js (tl old)))"

definition decode_strings :: "json \<Rightarrow> string list \<Rightarrow> string list option" where
  "decode_strings j old = (case j of JArr js \<Rightarrow> decode_elems js old | JNull \<Rightarrow> Some [] | _ \<Rightarrow> None)"

type_synonym 's field_table = "(string \<times> (json \<Rightarrow> 's \<Rightarrow> 's option)) list"

definition field_for :: "'s field_table \<Rightarrow> string \<Rightarrow> (json \<Rightarrow> 's \<Rightarrow> 's option) option" where
  "field_for tbl k =
     (case map_of tbl k of
        Some d \<Rightarrow> Some d
      | None \<Rightarrow> map_option snd (find (\<lambda>(name, d). equal_fold name k) tbl))"

fun decode_members :: "'s field_table \<Rightarrow> (string \<times> json) list \<Rightarrow> 's \<Rightarrow> 's option" where
  "decode_members tbl [] s = Some s"
| "decode_members tbl ((k, j) # ms) s =
     (case field_for tbl k of
        None \<Rightarrow> decode_members tbl ms s
      | Some d \<Rightarrow> (case d j s of None \<Rightarrow> None | Some s' \<Rightarrow> decode_members tbl ms s'))"

definition decode_body :: "'s field_table \<Rightarrow> 's \<Rightarrow> json option \<Rightarrow> 's option" where
  "decode_body tbl zero body =
     (case body of
        None \<Rightarrow> None
      | Some JNull \<Rightarrow> Some zero
      | Some (JObj ms) \<Rightarrow> decode_members tbl ms zero
      | Some _ \<Rightarrow> None)"

text \<open>A pointer field with \<^verbatim>\<open>omitempty\<close> is left out when it is nil.\<close>

definition opt_member :: "string \<Rightarrow> string option \<Rightarrow> (string \<times> json) list" where
  "opt_member k v = (case v of None \<Rightarrow> [] | Some s \<Rightarrow> [(k, JStr s)])"

text \<open>A string field with \<^verbatim>\<open>omitempty\<close>, and a list field.\<close>

definition omit_empty :: "string \<Rightarrow> string \<Rightarrow> (string \<times> json) list" where
  "omit_empty k v = (if v = [] then [] else [(k, JStr v)])"

definition omit_nil :: "string \<Rightarrow> json list \<Rightarrow> (string \<times> json) list" where
  "omit_nil k js = (if js = [] then [] else [(k, JArr js)])"

text \<open>A 64-bit integer field.\<close>

definition decode_int64 :: "json \<Rightarrow> int \<Rightarrow> int option" where
  "decode_int64 j old =
     (case j of
        JNum n \<Rightarrow> (if - (2 ^ 63) \<le> n \<and> n < 2 ^ 63 then Some n else None)
      | JNull \<Rightarrow> Some old
      | _ \<Rightarrow> None)"

text \<open>How a protobuf timestamp of \<open>t\<close> nanoseconds is written: a struct of two numbers.\<close>

definition timestamp_json :: "int \<Rightarrow> json" where
  "timestamp_json t =
     (let omit_zero = (\<lambda>k n :: int. if n = 0 then [] else [(k, JNum n)])
      in JObj (omit_zero ''seconds'' (t div 1000000000) @ omit_zero ''nanos'' (t mod 1000000000)))"

section \<open>Errors of the services\<close>

text \<open>
  A gRPC handler's error: the code and text of \<^verbatim>\<open>status.Error\<close>, or \<open>Unknown\<close> for an error that is
  no status. The generated embedding answers \<open>Unimplemented\<close> for a method the server leaves out.
\<close>

datatype rpc_code = InvalidArgument | Internal | NotFound | Unimplemented | Unknown

type_synonym rpc_error = "rpc_code \<times> string"

end
