(* ===== verification/Database.thy ===== *)
theory Database
  imports Http
begin

text \<open>
  The relational store: the rows of pkg/db/sqlc/models.go, the statements of
  pkg/db/sqlc/chat_service.sql.go and messages.sql.go as functions on tables, with the keys,
  references and checks that infra/migrations declares, and the calls that run a statement.

  A table is the list of its rows in heap order, which breaks the ties of an ORDER BY, so a
  theorem about all tables covers every order the server may choose. \<^verbatim>\<open>NOW()\<close> and
  \<^verbatim>\<open>gen_random_uuid()\<close> are what the server answers at that call. Each call may fail: before it
  reached the server or with the answer lost after it took effect. Between two calls other
  sessions may change the committed tables (\<open>wenv\<close>).
\<close>

section \<open>Rows\<close>

record conversation =
  conv_id :: string
  conv_kind :: string
  conv_created_at :: int

record conversation_member =
  cm_conversation_id :: string
  cm_user_phone :: string
  cm_created_at :: int

record group =
  g_id :: string
  g_name :: string
  g_description :: "string option"
  g_avatar_url :: "string option"
  g_created_by_phone :: string
  g_invite_code :: string
  g_created_at :: int
  g_updated_at :: int

record group_member =
  gm_group_id :: string
  gm_user_phone :: string
  gm_created_at :: int
  gm_role :: string
  gm_added_by :: "string option"

record media_object =
  mo_id :: string
  mo_owner_phone :: string
  mo_bucket :: string
  mo_object_key :: string
  mo_content_type :: string
  mo_size_bytes :: int
  mo_status :: string
  mo_created_at :: int

record message =
  m_id :: string
  m_conversation_id :: string
  m_sender_phone :: string
  m_body :: string
  m_media_url :: "string option"
  m_created_at :: int
  m_recipient_phone :: "string option"
  m_group_id :: "string option"
  m_body_encrypted :: string
  m_body_type :: string
  m_server_ts :: int

record message_receipt =
  mr_message_id :: string
  mr_user_phone :: string
  mr_status :: string
  mr_updated_at :: int

record message_status =
  ms_message_id :: string
  ms_user_phone :: string
  ms_status :: string
  ms_updated_at :: int

record user =
  u_id :: string
  u_email :: string
  u_role :: string
  u_created_at :: int
  u_updated_at :: int
  u_phone :: "string option"

record user_presence =
  up_user_phone :: string
  up_status :: string
  up_last_seen :: "int option"
  up_updated_at :: int

record db =
  conversations :: "conversation list"
  conversation_members :: "conversation_member list"
  groups :: "group list"
  group_members :: "group_member list"
  media_objects :: "media_object list"
  messages :: "message list"
  message_receipts :: "message_receipt list"
  message_statuses :: "message_status list"
  users :: "user list"
  user_presences :: "user_presence list"

section \<open>Statements and calls\<close>

datatype sql_error =
    Unique_violation
  | Reference_violation
  | Check_violation
  | Negative_limit
  | No_rows
  | Tx_aborted
  | Connection_lost

record pg_env =
  pg_now :: int
  pg_uuid :: string

type_synonym 'r stmt = "pg_env \<Rightarrow> db \<Rightarrow> sql_error + 'r \<times> db"

definition reading :: "(db \<Rightarrow> 'r) \<Rightarrow> 'r stmt" where
  "reading f = (\<lambda>e d. Inr (f d, d))"

definition writing :: "(pg_env \<Rightarrow> db \<Rightarrow> db) \<Rightarrow> unit stmt" where
  "writing f = (\<lambda>e d. Inr ((), f e d))"

datatype fault = Served | Request_lost | Reply_lost

record world =
  wdb :: db
  wtick :: nat
  wfault :: "nat \<Rightarrow> fault"
  wenv :: "nat \<Rightarrow> db \<Rightarrow> db"
  wpg :: "nat \<Rightarrow> pg_env"

text \<open>The moment of a call: the call is counted, and what other sessions committed is visible.\<close>

definition advance :: "('x) world_scheme \<Rightarrow> 'x world_scheme" where
  "advance w = w\<lparr>wdb := wenv w (wtick w) (wdb w), wtick := Suc (wtick w)\<rparr>"

text \<open>One statement in its own transaction (\<^verbatim>\<open>DBTX.Exec\<close>, \<^verbatim>\<open>Query\<close>, \<^verbatim>\<open>QueryRow\<close> on a pool).\<close>

definition exec :: "'r stmt \<Rightarrow> 'x world_scheme \<Rightarrow> (sql_error + 'r) \<times> 'x world_scheme" where
  "exec stmt w =
     (let w1 = advance w in
      case wfault w (wtick w) of
        Request_lost \<Rightarrow> (Inl Connection_lost, w1)
      | Served \<Rightarrow>
          (case stmt (wpg w (wtick w)) (wdb w1) of
             Inl e \<Rightarrow> (Inl e, w1)
           | Inr (r, d) \<Rightarrow> (Inr r, w1\<lparr>wdb := d\<rparr>))
      | Reply_lost \<Rightarrow>
          (case stmt (wpg w (wtick w)) (wdb w1) of
             Inl e \<Rightarrow> (Inl Connection_lost, w1)
           | Inr (r, d) \<Rightarrow> (Inl Connection_lost, w1\<lparr>wdb := d\<rparr>)))"

text \<open>\<^verbatim>\<open>QueryRow(...).Scan(...)\<close>: no row is an error of its own.\<close>

definition one_row :: "(sql_error + 'r option) \<times> 'w \<Rightarrow> (sql_error + 'r) \<times> 'w" where
  "one_row rw =
     (case rw of
        (Inl e, w) \<Rightarrow> (Inl e, w)
      | (Inr None, w) \<Rightarrow> (Inl No_rows, w)
      | (Inr (Some r), w) \<Rightarrow> (Inr r, w))"

text \<open>
  What a loop over the rows of a served \<^verbatim>\<open>Query\<close> gets to see: all of them, the first ones and then a
  broken connection (which ends the loop and shows in \<^verbatim>\<open>Err\<close> only), or a row that \<^verbatim>\<open>Scan\<close> refuses. The
  result is the scan's failure, or the rows with what \<^verbatim>\<open>Err\<close> says afterwards.
\<close>

datatype rows_end = All_rows | Cut_after nat | Unscannable nat

fun scan_rows :: "rows_end \<Rightarrow> 'r list \<Rightarrow> unit + 'r list \<times> bool" where
  "scan_rows All_rows rs = Inr (rs, False)"
| "scan_rows (Cut_after n) rs = Inr (take n rs, True)"
| "scan_rows (Unscannable n) rs = (if n < length rs then Inl () else Inr (rs, False))"

text \<open>
  A transaction at READ COMMITTED: it sees the committed tables with its own writes on top,
  nobody else sees its writes before the commit, and after a failed statement every later one
  fails and the commit rolls back. \<^verbatim>\<open>NOW()\<close> stays what it was at \<^verbatim>\<open>Begin\<close>. \<^verbatim>\<open>Rollback\<close> drops the
  writes, and so does not touch the committed tables.
\<close>

record tx =
  tx_now :: int
  tx_writes :: "(db \<Rightarrow> db) list"
  tx_broken :: bool

definition tx_begin :: "'x world_scheme \<Rightarrow> (sql_error + tx) \<times> 'x world_scheme" where
  "tx_begin w =
     (case wfault w (wtick w) of
        Served \<Rightarrow> (Inr \<lparr>tx_now = pg_now (wpg w (wtick w)), tx_writes = [], tx_broken = False\<rparr>, advance w)
      | _ \<Rightarrow> (Inl Connection_lost, advance w))"

definition tx_view :: "tx \<Rightarrow> 'x world_scheme \<Rightarrow> db" where
  "tx_view t w = fold (\<lambda>f d. f d) (tx_writes t) (wdb w)"

definition effect_of :: "'r stmt \<Rightarrow> pg_env \<Rightarrow> db \<Rightarrow> db" where
  "effect_of stmt e d = (case stmt e d of Inl _ \<Rightarrow> d | Inr (r, d') \<Rightarrow> d')"

definition tx_exec :: "'r stmt \<Rightarrow> tx \<Rightarrow> 'x world_scheme \<Rightarrow> (sql_error + 'r) \<times> tx \<times> 'x world_scheme" where
  "tx_exec stmt t w =
     (let w1 = advance w; e = (wpg w (wtick w))\<lparr>pg_now := tx_now t\<rparr> in
      if tx_broken t then (Inl Tx_aborted, t, w1)
      else if wfault w (wtick w) \<noteq> Served then (Inl Connection_lost, t\<lparr>tx_broken := True\<rparr>, w1)
      else (case stmt e (tx_view t w1) of
              Inl err \<Rightarrow> (Inl err, t\<lparr>tx_broken := True\<rparr>, w1)
            | Inr (r, _) \<Rightarrow> (Inr r, t\<lparr>tx_writes := tx_writes t @ [effect_of stmt e]\<rparr>, w1)))"

definition tx_commit :: "tx \<Rightarrow> 'x world_scheme \<Rightarrow> (sql_error + unit) \<times> 'x world_scheme" where
  "tx_commit t w =
     (let w1 = advance w in
      if tx_broken t then (Inl Tx_aborted, w1)
      else (case wfault w (wtick w) of
              Served \<Rightarrow> (Inr (), w1\<lparr>wdb := tx_view t w1\<rparr>)
            | Request_lost \<Rightarrow> (Inl Connection_lost, w1)
            | Reply_lost \<Rightarrow> (Inl Connection_lost, w1\<lparr>wdb := tx_view t w1\<rparr>)))"

subsection \<open>Calls that are all served, with nobody else writing\<close>

definition undisturbed :: "'x world_scheme \<Rightarrow> bool" where
  "undisturbed w \<longleftrightarrow> (\<forall>n. wfault w n = Served) \<and> (\<forall>n d. wenv w n d = d)"

definition next_call :: "db \<Rightarrow> 'x world_scheme \<Rightarrow> 'x world_scheme" where
  "next_call d w = w\<lparr>wdb := d, wtick := Suc (wtick w)\<rparr>"

lemma next_call_simps [simp]:
  "wdb (next_call d w) = d" "wtick (next_call d w) = Suc (wtick w)"
  "wfault (next_call d w) = wfault w" "wenv (next_call d w) = wenv w"
  "wpg (next_call d w) = wpg w" "undisturbed (next_call d w) = undisturbed w"
  by (simp_all add: next_call_def undisturbed_def)

lemma advance_simps [simp]:
  "wtick (advance w) = Suc (wtick w)" "wfault (advance w) = wfault w"
  "wenv (advance w) = wenv w" "wpg (advance w) = wpg w"
  "wdb (advance w) = wenv w (wtick w) (wdb w)"
  by (simp_all add: advance_def)

lemma undisturbed_advance: "undisturbed w \<Longrightarrow> advance w = next_call (wdb w) w"
  by (simp add: advance_def next_call_def undisturbed_def)

lemma undisturbed_served [simp]: "undisturbed w \<Longrightarrow> wfault w n = Served"
  by (simp add: undisturbed_def)

lemma next_call_wdb: "(next_call d w)\<lparr>wdb := d'\<rparr> = next_call d' w"
  by (simp add: next_call_def)

lemma exec_undisturbed:
  "undisturbed w \<Longrightarrow>
   exec stmt w =
     (case stmt (wpg w (wtick w)) (wdb w) of
        Inl e \<Rightarrow> (Inl e, next_call (wdb w) w)
      | Inr (r, d) \<Rightarrow> (Inr r, next_call d w))"
  by (simp add: exec_def undisturbed_advance next_call_wdb Let_def split: sum.split prod.split)

lemma exec_reading [exec_simps]:
  "undisturbed w \<Longrightarrow> exec (reading f) w = (Inr (f (wdb w)), next_call (wdb w) w)"
  by (simp add: exec_undisturbed reading_def)

lemma exec_writing [exec_simps]:
  "undisturbed w \<Longrightarrow> exec (writing f) w = (Inr (), next_call (f (wpg w (wtick w)) (wdb w)) w)"
  by (simp add: exec_undisturbed writing_def)

lemma one_row_simps [simp]:
  "one_row (Inl e, w) = (Inl e, w)" "one_row (Inr None, w) = (Inl No_rows, w)"
  "one_row (Inr (Some r), w) = (Inr r, w)"
  by (simp_all add: one_row_def)

text \<open>A transaction on an undisturbed store is determined by the tables it sees.\<close>

lemma tx_begin_undisturbed [exec_simps]:
  "undisturbed w \<Longrightarrow>
   tx_begin w = (Inr \<lparr>tx_now = pg_now (wpg w (wtick w)), tx_writes = [], tx_broken = False\<rparr>, next_call (wdb w) w)"
  by (simp add: tx_begin_def undisturbed_advance)

lemma tx_exec_undisturbed [exec_simps]:
  "undisturbed w \<Longrightarrow> \<not> tx_broken t \<Longrightarrow>
   tx_exec stmt t w =
     (case stmt ((wpg w (wtick w))\<lparr>pg_now := tx_now t\<rparr>) (tx_view t w) of
        Inl err \<Rightarrow> (Inl err, t\<lparr>tx_broken := True\<rparr>, next_call (wdb w) w)
      | Inr (r, _) \<Rightarrow>
          (Inr r, t\<lparr>tx_writes := tx_writes t @ [effect_of stmt ((wpg w (wtick w))\<lparr>pg_now := tx_now t\<rparr>)]\<rparr>,
           next_call (wdb w) w))"
  by (simp add: tx_exec_def undisturbed_advance tx_view_def Let_def split: sum.split)

lemma tx_commit_undisturbed [exec_simps]:
  "undisturbed w \<Longrightarrow>
   tx_commit t w =
     (if tx_broken t then (Inl Tx_aborted, next_call (wdb w) w)
      else (Inr (), next_call (tx_view t w) w))"
  by (simp add: tx_commit_def undisturbed_advance tx_view_def next_call_wdb Let_def)

lemma effect_of_simps [simp]:
  "effect_of (reading f) e d = d" "effect_of (writing g) e d = g e d"
  by (simp_all add: effect_of_def reading_def writing_def)

end
