(* ===== verification/Queries.thy ===== *)
theory Queries
  imports Database "HOL-Library.Product_Lexorder"
begin

text \<open>
  The generated queries of pkg/db/sqlc (chat_service.sql.go and messages.sql.go) as statements:
  each definition is the SQL text of the method with its parameters, over the tables of
  Database. The keys, references and checks of infra/migrations/*.up.sql are what the inserts
  test. \<open>db_ok\<close> states those constraints of the tables, and every statement keeps them.
\<close>

text \<open>The tables of a fresh database.\<close>

definition no_rows :: db where
  "no_rows = \<lparr>conversations = [], conversation_members = [], groups = [], group_members = [], media_objects = [],
     messages = [], message_receipts = [], message_statuses = [], users = [], user_presences = []\<rparr>"

section \<open>Inserting and upserting rows\<close>

definition upsert :: "('r \<Rightarrow> bool) \<Rightarrow> ('r \<Rightarrow> 'r) \<Rightarrow> 'r \<Rightarrow> 'r list \<Rightarrow> 'r list" where
  "upsert P f r rows = (if \<exists>x\<in>set rows. P x then map (\<lambda>x. if P x then f x else x) rows else rows @ [r])"

lemma distinct_upsert:
  assumes "distinct (map key rows)" and "\<And>x. P x \<longleftrightarrow> key x = key r" and "\<And>x. key (f x) = key x"
  shows "distinct (map key (upsert P f r rows))"
proof (cases "\<exists>x\<in>set rows. P x")
  case True
  then show ?thesis
    using assms by (simp add: upsert_def map_if_keep[of key f] del: map_map)
next
  case False
  then show ?thesis
    using assms by (auto simp: upsert_def)
qed

lemma upsert_all:
  assumes "\<forall>x\<in>set rows. Q x" and "Q r" and "\<And>x. Q x \<Longrightarrow> Q (f x)"
  shows "\<forall>x\<in>set (upsert P f r rows). Q x"
  using assms by (auto simp: upsert_def)

lemma upsert_hit: "P r \<Longrightarrow> P (f r) \<Longrightarrow> (\<And>x. P x \<Longrightarrow> P (f x)) \<Longrightarrow> \<exists>x\<in>set (upsert P f r rows). P x"
  by (auto simp: upsert_def)

lemma find_map_if_hit:
  "(\<And>x. P x \<Longrightarrow> P (f x)) \<Longrightarrow> find P (map (\<lambda>x. if P x then f x else x) rows) = map_option f (find P rows)"
  by (induction rows) auto

lemma find_map_if_other:
  "(\<And>x. P x \<Longrightarrow> \<not> Q x) \<Longrightarrow> (\<And>x. P x \<Longrightarrow> \<not> Q (f x)) \<Longrightarrow>
   find Q (map (\<lambda>x. if P x then f x else x) rows) = find Q rows"
  by (induction rows) auto

lemma find_snoc: "find P (rows @ [r]) = (case find P rows of None \<Rightarrow> if P r then Some r else None | Some x \<Rightarrow> Some x)"
  by (simp add: find_append split: option.split)

lemma find_None_conv_ex: "find P rows = None \<longleftrightarrow> \<not> (\<exists>x\<in>set rows. P x)"
  by (auto simp: find_None_iff)

lemma find_upsert_hit:
  assumes "\<And>x. P x \<Longrightarrow> P (f x)" and "P r"
  shows "find P (upsert P f r rows) = Some (case find P rows of None \<Rightarrow> r | Some x \<Rightarrow> f x)"
  using assms find_None_conv_ex[of P rows]
  by (auto simp: upsert_def find_map_if_hit find_snoc split: option.split)

lemma find_upsert_other:
  assumes "\<And>x. P x \<Longrightarrow> \<not> Q x" and "\<And>x. P x \<Longrightarrow> \<not> Q (f x)" and "\<not> Q r"
  shows "find Q (upsert P f r rows) = find Q rows"
  using assms by (simp add: upsert_def find_map_if_other find_snoc split: option.split)

section \<open>chat\_service.sql.go\<close>

text \<open>\<^verbatim>\<open>GetGroupMembers\<close>: the earliest member first.\<close>

definition GetGroupMembers :: "string \<Rightarrow> string list stmt" where
  "GetGroupMembers groupID =
     reading (\<lambda>d. map gm_user_phone
       (sort_key gm_created_at (filter (\<lambda>r. gm_group_id r = groupID) (group_members d))))"

definition GetMessageByID :: "string \<Rightarrow> message option stmt" where
  "GetMessageByID mid = reading (\<lambda>d. find (\<lambda>r. m_id r = mid) (messages d))"

text \<open>
  \<^verbatim>\<open>GetMessageHistory\<close>: the cursor row comes from a LEFT JOIN, so a cursor that names no row
  compares as unknown and no row passes. \<open>coll\<close> is the sort key of the database's collation.
\<close>

record GetMessageHistoryParams =
  h_conversation_id :: string
  h_cursor :: string
  h_limit :: int

definition before_cursor :: "string \<Rightarrow> message list \<Rightarrow> message \<Rightarrow> bool" where
  "before_cursor cursor ms m \<longleftrightarrow>
     cursor = [] \<or>
     (case find (\<lambda>c. m_id c = cursor) ms of
        None \<Rightarrow> False
      | Some c \<Rightarrow> m_created_at m < m_created_at c)"

definition newest_first :: "(string \<Rightarrow> string) \<Rightarrow> message list \<Rightarrow> message list" where
  "newest_first coll ms = rev (sort_key (\<lambda>m. (m_created_at m, coll (m_id m))) ms)"

definition GetMessageHistory :: "(string \<Rightarrow> string) \<Rightarrow> GetMessageHistoryParams \<Rightarrow> message list stmt" where
  "GetMessageHistory coll arg = (\<lambda>e d.
     if h_limit arg < 0 then Inl Negative_limit
     else Inr (take (nat (h_limit arg))
                 (newest_first coll
                   (filter (\<lambda>m. m_conversation_id m = h_conversation_id arg
                              \<and> before_cursor (h_cursor arg) (messages d) m) (messages d))), d))"

record InsertMessageParams =
  i_sender_phone :: string
  i_recipient_phone :: "string option"
  i_group_id :: "string option"
  i_body_encrypted :: string
  i_body_type :: string
  i_body :: string
  i_conversation_id :: string

definition new_message :: "InsertMessageParams \<Rightarrow> pg_env \<Rightarrow> message" where
  "new_message arg e =
     \<lparr>m_id = pg_uuid e, m_conversation_id = i_conversation_id arg,
      m_sender_phone = i_sender_phone arg, m_body = i_body arg, m_media_url = None,
      m_created_at = pg_now e, m_recipient_phone = i_recipient_phone arg,
      m_group_id = i_group_id arg, m_body_encrypted = i_body_encrypted arg,
      m_body_type = i_body_type arg, m_server_ts = pg_now e\<rparr>"

definition insert_message_row :: "message \<Rightarrow> db \<Rightarrow> sql_error + db" where
  "insert_message_row m d =
     (if m_id m \<in> m_id ` set (messages d) then Inl Unique_violation
      else if m_conversation_id m \<notin> conv_id ` set (conversations d) then Inl Reference_violation
      else Inr (d\<lparr>messages := messages d @ [m]\<rparr>))"

definition InsertMessage :: "InsertMessageParams \<Rightarrow> message stmt" where
  "InsertMessage arg = (\<lambda>e d.
     case insert_message_row (new_message arg e) d of
       Inl err \<Rightarrow> Inl err
     | Inr d' \<Rightarrow> Inr (new_message arg e, d'))"

definition status_values :: "string list" where
  "status_values = [''sent'', ''delivered'', ''read'']"

definition UpsertMessageStatus :: "string \<Rightarrow> string \<Rightarrow> string \<Rightarrow> unit stmt" where
  "UpsertMessageStatus messageID userPhone st = (\<lambda>e d.
     if messageID \<notin> m_id ` set (messages d) then Inl Reference_violation
     else if st \<notin> set status_values then Inl Check_violation
     else Inr ((), d\<lparr>message_statuses :=
       upsert (\<lambda>r. ms_message_id r = messageID \<and> ms_user_phone r = userPhone)
         (\<lambda>r. r\<lparr>ms_status := st, ms_updated_at := pg_now e\<rparr>)
         \<lparr>ms_message_id = messageID, ms_user_phone = userPhone, ms_status = st,
          ms_updated_at = pg_now e\<rparr> (message_statuses d)\<rparr>))"

section \<open>messages.sql.go\<close>

definition AddConversationMember :: "string \<Rightarrow> string \<Rightarrow> conversation_member option stmt" where
  "AddConversationMember conversationID userPhone = (\<lambda>e d.
     if conversationID \<notin> conv_id ` set (conversations d) then Inl Reference_violation
     else let P = (\<lambda>r. cm_conversation_id r = conversationID \<and> cm_user_phone r = userPhone);
              rows = upsert P (\<lambda>r. r)
                \<lparr>cm_conversation_id = conversationID, cm_user_phone = userPhone,
                 cm_created_at = pg_now e\<rparr> (conversation_members d)
          in Inr (find P rows, d\<lparr>conversation_members := rows\<rparr>))"

definition CreateMessage :: "string \<Rightarrow> string \<Rightarrow> string \<Rightarrow> string \<Rightarrow> string option \<Rightarrow> message stmt" where
  "CreateMessage mid conversationID senderPhone body mediaUrl = (\<lambda>e d.
     let m = \<lparr>m_id = mid, m_conversation_id = conversationID, m_sender_phone = senderPhone,
              m_body = body, m_media_url = mediaUrl, m_created_at = pg_now e,
              m_recipient_phone = None, m_group_id = None, m_body_encrypted = [],
              m_body_type = ''text'', m_server_ts = pg_now e\<rparr>
     in case insert_message_row m d of
          Inl err \<Rightarrow> Inl err
        | Inr d' \<Rightarrow> Inr (m, d'))"

definition EnsureConversation :: "string \<Rightarrow> string \<Rightarrow> unit stmt" where
  "EnsureConversation cid kind =
     writing (\<lambda>e d. d\<lparr>conversations :=
       upsert (\<lambda>r. conv_id r = cid) (\<lambda>r. r)
         \<lparr>conv_id = cid, conv_kind = kind, conv_created_at = pg_now e\<rparr> (conversations d)\<rparr>)"

text \<open>\<^verbatim>\<open>phone = ANY($1)\<close> is never true of a null phone.\<close>

definition FindUsersByPhones :: "string list \<Rightarrow> string option list stmt" where
  "FindUsersByPhones phones =
     reading (\<lambda>d. map u_phone
       (filter (\<lambda>u. case u_phone u of None \<Rightarrow> False | Some p \<Rightarrow> p \<in> set phones) (users d)))"

definition InsertMediaObject :: "string \<Rightarrow> string \<Rightarrow> string \<Rightarrow> string \<Rightarrow> string \<Rightarrow> int \<Rightarrow> string \<Rightarrow> media_object stmt" where
  "InsertMediaObject oid ownerPhone bucket objectKey contentType sizeBytes st = (\<lambda>e d.
     let o1 = \<lparr>mo_id = oid, mo_owner_phone = ownerPhone, mo_bucket = bucket,
               mo_object_key = objectKey, mo_content_type = contentType,
               mo_size_bytes = sizeBytes, mo_status = st, mo_created_at = pg_now e\<rparr>
     in if oid \<in> mo_id ` set (media_objects d) then Inl Unique_violation
        else Inr (o1, d\<lparr>media_objects := media_objects d @ [o1]\<rparr>))"

definition ListConversationMembers :: "string \<Rightarrow> conversation_member list stmt" where
  "ListConversationMembers conversationID =
     reading (\<lambda>d. sort_key cm_created_at
       (filter (\<lambda>r. cm_conversation_id r = conversationID) (conversation_members d)))"

definition UpdateUserPresence :: "string \<Rightarrow> string \<Rightarrow> int option \<Rightarrow> unit stmt" where
  "UpdateUserPresence userPhone st lastSeen =
     writing (\<lambda>e d. d\<lparr>user_presences :=
       upsert (\<lambda>r. up_user_phone r = userPhone)
         (\<lambda>r. r\<lparr>up_status := st, up_last_seen := lastSeen, up_updated_at := pg_now e\<rparr>)
         \<lparr>up_user_phone = userPhone, up_status = st, up_last_seen = lastSeen,
          up_updated_at = pg_now e\<rparr> (user_presences d)\<rparr>)"

definition UpsertReceipt :: "string \<Rightarrow> string \<Rightarrow> string \<Rightarrow> message_receipt option stmt" where
  "UpsertReceipt messageID userPhone st = (\<lambda>e d.
     if messageID \<notin> m_id ` set (messages d) then Inl Reference_violation
     else let P = (\<lambda>r. mr_message_id r = messageID \<and> mr_user_phone r = userPhone);
              rows = upsert P (\<lambda>r. r\<lparr>mr_status := st, mr_updated_at := pg_now e\<rparr>)
                \<lparr>mr_message_id = messageID, mr_user_phone = userPhone, mr_status = st,
                 mr_updated_at = pg_now e\<rparr> (message_receipts d)
          in Inr (find P rows, d\<lparr>message_receipts := rows\<rparr>))"

section \<open>The constraints of the tables\<close>

definition keys_ok :: "db \<Rightarrow> bool" where
  "keys_ok d \<longleftrightarrow>
     distinct (map conv_id (conversations d)) \<and>
     distinct (map (\<lambda>r. (cm_conversation_id r, cm_user_phone r)) (conversation_members d)) \<and>
     distinct (map g_id (groups d)) \<and> distinct (map g_invite_code (groups d)) \<and>
     distinct (map (\<lambda>r. (gm_group_id r, gm_user_phone r)) (group_members d)) \<and>
     distinct (map mo_id (media_objects d)) \<and>
     distinct (map m_id (messages d)) \<and>
     distinct (map (\<lambda>r. (mr_message_id r, mr_user_phone r)) (message_receipts d)) \<and>
     distinct (map (\<lambda>r. (ms_message_id r, ms_user_phone r)) (message_statuses d)) \<and>
     distinct (map up_user_phone (user_presences d))"

definition refs_ok :: "db \<Rightarrow> bool" where
  "refs_ok d \<longleftrightarrow>
     (\<forall>r\<in>set (conversation_members d). cm_conversation_id r \<in> conv_id ` set (conversations d)) \<and>
     (\<forall>r\<in>set (messages d). m_conversation_id r \<in> conv_id ` set (conversations d)) \<and>
     (\<forall>r\<in>set (message_receipts d). mr_message_id r \<in> m_id ` set (messages d)) \<and>
     (\<forall>r\<in>set (message_statuses d). ms_message_id r \<in> m_id ` set (messages d))"

definition roles :: "string list" where
  "roles = [''admin'', ''member'']"

definition checks_ok :: "db \<Rightarrow> bool" where
  "checks_ok d \<longleftrightarrow>
     (\<forall>r\<in>set (message_statuses d). ms_status r \<in> set status_values) \<and>
     (\<forall>r\<in>set (group_members d). gm_role r \<in> set roles)"

definition db_ok :: "db \<Rightarrow> bool" where
  "db_ok d \<longleftrightarrow> keys_ok d \<and> refs_ok d \<and> checks_ok d"

text \<open>The contract of a statement: where it succeeds, the constraints still hold.\<close>

definition keeps_db_ok :: "'r stmt \<Rightarrow> bool" where
  "keeps_db_ok stmt \<longleftrightarrow> (\<forall>e d r d'. db_ok d \<longrightarrow> stmt e d = Inr (r, d') \<longrightarrow> db_ok d')"

lemma keeps_db_okI: "(\<And>e d r d'. db_ok d \<Longrightarrow> stmt e d = Inr (r, d') \<Longrightarrow> db_ok d') \<Longrightarrow> keeps_db_ok stmt"
  by (auto simp: keeps_db_ok_def)

lemma keeps_db_okD: "keeps_db_ok stmt \<Longrightarrow> db_ok d \<Longrightarrow> stmt e d = Inr (r, d') \<Longrightarrow> db_ok d'"
  by (auto simp: keeps_db_ok_def)

lemma keeps_reading [simp, intro]: "keeps_db_ok (reading f)"
  by (auto simp: keeps_db_ok_def reading_def)

lemma keeps_GetGroupMembers [intro]: "keeps_db_ok (GetGroupMembers g)"
  by (simp add: GetGroupMembers_def)

lemma keeps_GetMessageByID [intro]: "keeps_db_ok (GetMessageByID i)"
  by (simp add: GetMessageByID_def)

lemma keeps_FindUsersByPhones [intro]: "keeps_db_ok (FindUsersByPhones ps)"
  by (simp add: FindUsersByPhones_def)

lemma keeps_ListConversationMembers [intro]: "keeps_db_ok (ListConversationMembers c)"
  by (simp add: ListConversationMembers_def)

lemma keeps_GetMessageHistory [intro]: "keeps_db_ok (GetMessageHistory coll arg)"
  by (rule keeps_db_okI) (auto simp: GetMessageHistory_def split: if_splits)

lemma insert_message_row_ok:
  "db_ok d \<Longrightarrow> insert_message_row m d = Inr d' \<Longrightarrow> db_ok d'"
  by (auto simp: insert_message_row_def db_ok_def keys_ok_def refs_ok_def checks_ok_def split: if_splits)

lemma keeps_InsertMessage [intro]: "keeps_db_ok (InsertMessage arg)"
  by (rule keeps_db_okI) (auto simp: InsertMessage_def insert_message_row_ok split: sum.splits)

lemma keeps_CreateMessage [intro]: "keeps_db_ok (CreateMessage i c s b u)"
  by (rule keeps_db_okI) (auto simp: CreateMessage_def Let_def insert_message_row_ok split: sum.splits)

text \<open>Writing one table keeps the constraints when the table's own constraints hold.\<close>

lemma db_ok_set_statuses:
  "db_ok d \<Longrightarrow> distinct (map (\<lambda>r. (ms_message_id r, ms_user_phone r)) rows) \<Longrightarrow>
   \<forall>r\<in>set rows. ms_message_id r \<in> m_id ` set (messages d) \<and> ms_status r \<in> set status_values \<Longrightarrow>
   db_ok (d\<lparr>message_statuses := rows\<rparr>)"
  by (simp add: db_ok_def keys_ok_def refs_ok_def checks_ok_def)

lemma db_ok_set_receipts:
  "db_ok d \<Longrightarrow> distinct (map (\<lambda>r. (mr_message_id r, mr_user_phone r)) rows) \<Longrightarrow>
   \<forall>r\<in>set rows. mr_message_id r \<in> m_id ` set (messages d) \<Longrightarrow>
   db_ok (d\<lparr>message_receipts := rows\<rparr>)"
  by (simp add: db_ok_def keys_ok_def refs_ok_def checks_ok_def)

lemma db_ok_set_conversation_members:
  "db_ok d \<Longrightarrow> distinct (map (\<lambda>r. (cm_conversation_id r, cm_user_phone r)) rows) \<Longrightarrow>
   \<forall>r\<in>set rows. cm_conversation_id r \<in> conv_id ` set (conversations d) \<Longrightarrow>
   db_ok (d\<lparr>conversation_members := rows\<rparr>)"
  by (simp add: db_ok_def keys_ok_def refs_ok_def checks_ok_def)

lemma db_ok_set_conversations:
  "db_ok d \<Longrightarrow> distinct (map conv_id rows) \<Longrightarrow> conv_id ` set (conversations d) \<subseteq> conv_id ` set rows \<Longrightarrow>
   db_ok (d\<lparr>conversations := rows\<rparr>)"
  unfolding db_ok_def keys_ok_def refs_ok_def checks_ok_def by (simp; blast)

lemma db_ok_set_presences:
  "db_ok d \<Longrightarrow> distinct (map up_user_phone rows) \<Longrightarrow> db_ok (d\<lparr>user_presences := rows\<rparr>)"
  by (simp add: db_ok_def keys_ok_def refs_ok_def checks_ok_def)

lemma db_ok_set_media:
  "db_ok d \<Longrightarrow> distinct (map mo_id rows) \<Longrightarrow> db_ok (d\<lparr>media_objects := rows\<rparr>)"
  by (simp add: db_ok_def keys_ok_def refs_ok_def checks_ok_def)

lemma db_ok_set_members:
  "db_ok d \<Longrightarrow> distinct (map (\<lambda>r. (gm_group_id r, gm_user_phone r)) rows) \<Longrightarrow>
   \<forall>r\<in>set rows. gm_role r \<in> set roles \<Longrightarrow> db_ok (d\<lparr>group_members := rows\<rparr>)"
  by (simp add: db_ok_def keys_ok_def refs_ok_def checks_ok_def)

lemma db_ok_set_groups:
  "db_ok d \<Longrightarrow> distinct (map g_id rows) \<Longrightarrow> distinct (map g_invite_code rows) \<Longrightarrow> db_ok (d\<lparr>groups := rows\<rparr>)"
  by (simp add: db_ok_def keys_ok_def refs_ok_def checks_ok_def)

lemma db_ok_keys:
  "db_ok d \<Longrightarrow> distinct (map (\<lambda>r. (ms_message_id r, ms_user_phone r)) (message_statuses d))"
  "db_ok d \<Longrightarrow> distinct (map (\<lambda>r. (mr_message_id r, mr_user_phone r)) (message_receipts d))"
  "db_ok d \<Longrightarrow> distinct (map (\<lambda>r. (cm_conversation_id r, cm_user_phone r)) (conversation_members d))"
  "db_ok d \<Longrightarrow> distinct (map conv_id (conversations d))"
  "db_ok d \<Longrightarrow> distinct (map up_user_phone (user_presences d))"
  "db_ok d \<Longrightarrow> distinct (map mo_id (media_objects d))"
  "db_ok d \<Longrightarrow> distinct (map (\<lambda>r. (gm_group_id r, gm_user_phone r)) (group_members d))"
  "db_ok d \<Longrightarrow> distinct (map g_id (groups d))"
  "db_ok d \<Longrightarrow> distinct (map g_invite_code (groups d))"
  "db_ok d \<Longrightarrow> distinct (map m_id (messages d))"
  by (simp_all add: db_ok_def keys_ok_def)

lemma db_ok_rows:
  "db_ok d \<Longrightarrow> \<forall>r\<in>set (message_statuses d). ms_message_id r \<in> m_id ` set (messages d) \<and> ms_status r \<in> set status_values"
  "db_ok d \<Longrightarrow> \<forall>r\<in>set (message_receipts d). mr_message_id r \<in> m_id ` set (messages d)"
  "db_ok d \<Longrightarrow> \<forall>r\<in>set (conversation_members d). cm_conversation_id r \<in> conv_id ` set (conversations d)"
  "db_ok d \<Longrightarrow> \<forall>r\<in>set (group_members d). gm_role r \<in> set roles"
  by (auto simp: db_ok_def refs_ok_def checks_ok_def)

lemma keeps_UpsertMessageStatus [intro]: "keeps_db_ok (UpsertMessageStatus mid p st)"
proof (rule keeps_db_okI)
  fix e d r d'
  assume ok: "db_ok d" and run: "UpsertMessageStatus mid p st e d = Inr (r, d')"
  show "db_ok d'"
    using run db_ok_rows(1)[OF ok]
    by (simp add: UpsertMessageStatus_def split: if_splits)
      (hypsubst, rule db_ok_set_statuses[OF ok distinct_upsert[OF db_ok_keys(1)[OF ok]] upsert_all]; simp)
qed

lemma keeps_UpsertReceipt [intro]: "keeps_db_ok (UpsertReceipt mid p st)"
proof (rule keeps_db_okI)
  fix e d r d'
  assume ok: "db_ok d" and run: "UpsertReceipt mid p st e d = Inr (r, d')"
  show "db_ok d'"
    using run db_ok_rows(2)[OF ok]
    by (simp add: UpsertReceipt_def Let_def split: if_splits, elim conjE)
      (hypsubst, rule db_ok_set_receipts[OF ok distinct_upsert[OF db_ok_keys(2)[OF ok]] upsert_all]; simp)
qed

lemma keeps_AddConversationMember [intro]: "keeps_db_ok (AddConversationMember c p)"
proof (rule keeps_db_okI)
  fix e d r d'
  assume ok: "db_ok d" and run: "AddConversationMember c p e d = Inr (r, d')"
  show "db_ok d'"
    using run db_ok_rows(3)[OF ok]
    by (simp add: AddConversationMember_def Let_def split: if_splits, elim conjE)
      (hypsubst, rule db_ok_set_conversation_members[OF ok distinct_upsert[OF db_ok_keys(3)[OF ok]] upsert_all]; simp)
qed

lemma conv_ids_upsert:
  "conv_id r = cid \<Longrightarrow> conv_id ` set (upsert (\<lambda>r. conv_id r = cid) (\<lambda>r. r) r rows) = insert cid (conv_id ` set rows)"
  unfolding upsert_def by (auto intro: rev_image_eqI)

lemma keeps_EnsureConversation [intro]: "keeps_db_ok (EnsureConversation c k)"
  by (rule keeps_db_okI)
    (auto simp: EnsureConversation_def writing_def conv_ids_upsert
      intro!: db_ok_set_conversations distinct_upsert db_ok_keys)

lemma keeps_InsertMediaObject [intro]: "keeps_db_ok (InsertMediaObject i ow b k ct sz st)"
  by (rule keeps_db_okI)
    (auto simp: InsertMediaObject_def Let_def split: if_splits intro!: db_ok_set_media dest: db_ok_keys(6))

lemma keeps_UpdateUserPresence [intro]: "keeps_db_ok (UpdateUserPresence p s t)"
  by (rule keeps_db_okI)
    (auto simp: UpdateUserPresence_def writing_def intro!: db_ok_set_presences distinct_upsert db_ok_keys)

section \<open>Calls keep the constraints under any faults\<close>

text \<open>
  \<open>h\<close> is what the run cannot change: which calls fail, and what the other sessions do between two
  calls, which keeps the constraints as well.
\<close>

definition guarded :: "(nat \<Rightarrow> fault) \<times> (nat \<Rightarrow> db \<Rightarrow> db) \<Rightarrow> 'x world_scheme \<Rightarrow> bool" where
  "guarded h w \<longleftrightarrow> db_ok (wdb w) \<and> (wfault w, wenv w) = h \<and> (\<forall>n d. db_ok d \<longrightarrow> db_ok (snd h n d))"

lemma guarded_advance [intro]: "guarded h w \<Longrightarrow> guarded h (advance w)"
  by (auto simp: guarded_def)

lemma guarded_exec:
  assumes "guarded h w" and "keeps_db_ok stmt"
  shows "guarded h (snd (exec stmt w))"
  using assms guarded_advance[OF assms(1)]
  by (auto simp: exec_def Let_def guarded_def split: fault.split sum.split dest: keeps_db_okD)

lemma guarded_one_row [simp]: "snd (one_row rw) = snd rw"
  by (auto simp: one_row_def split: prod.split sum.split option.split)

text \<open>A transaction whose statements keep the constraints keeps them when it commits.\<close>

definition guarded_tx :: "tx \<Rightarrow> bool" where
  "guarded_tx t \<longleftrightarrow> (\<forall>f\<in>set (tx_writes t). \<forall>d. db_ok d \<longrightarrow> db_ok (f d))"

lemma fold_keeps: "(\<forall>f\<in>set fs. \<forall>d. P d \<longrightarrow> P (f d)) \<Longrightarrow> P d \<Longrightarrow> P (fold (\<lambda>f d. f d) fs d)"
  by (induction fs arbitrary: d) auto

lemma guarded_tx_begin:
  "guarded h w \<Longrightarrow> guarded h (snd (tx_begin w)) \<and> (\<forall>t. fst (tx_begin w) = Inr t \<longrightarrow> guarded_tx t)"
  by (auto simp: tx_begin_def guarded_tx_def split: fault.split)

lemma effect_of_keeps: "keeps_db_ok stmt \<Longrightarrow> db_ok d \<Longrightarrow> db_ok (effect_of stmt e d)"
  by (auto simp: effect_of_def split: sum.split dest: keeps_db_okD)

lemma guarded_tx_exec:
  assumes "guarded h w" and "guarded_tx t" and "keeps_db_ok stmt" and "tx_exec stmt t w = (r, t', w')"
  shows "guarded h w' \<and> guarded_tx t'"
  using assms effect_of_keeps[OF assms(3)]
  by (auto simp: tx_exec_def Let_def guarded_tx_def split: if_splits sum.splits)

lemma guarded_tx_commit:
  assumes "guarded h w" and "guarded_tx t"
  shows "guarded h (snd (tx_commit t w))"
proof -
  have "db_ok (tx_view t (advance w))"
    unfolding tx_view_def
  proof (rule fold_keeps[where P = db_ok])
    show "\<forall>f\<in>set (tx_writes t). \<forall>d. db_ok d \<longrightarrow> db_ok (f d)"
      using assms(2) by (simp add: guarded_tx_def)
    show "db_ok (wdb (advance w))"
      using guarded_advance[OF assms(1)] by (simp add: guarded_def)
  qed
  then show ?thesis
    using guarded_advance[OF assms(1)]
    by (simp add: tx_commit_def Let_def guarded_def split: fault.split)
qed

section \<open>A store that only serves\<close>

definition calm_world :: "db \<Rightarrow> world" where
  "calm_world d = \<lparr>wdb = d, wtick = 0, wfault = (\<lambda>_. Served), wenv = (\<lambda>_ d. d),
     wpg = (\<lambda>n. \<lparr>pg_now = int n, pg_uuid = decimal_nat n\<rparr>)\<rparr>"

lemma calm_world_simps [simp]:
  "wdb (calm_world d) = d" "undisturbed (calm_world d)" "wtick (calm_world d) = 0"
  "wpg (calm_world d) n = \<lparr>pg_now = int n, pg_uuid = decimal_nat n\<rparr>"
  "wfault (calm_world d) n = Served" "wenv (calm_world d) n d' = d'"
  by (simp_all add: calm_world_def undisturbed_def)

end
