(* ===== verification/Base64.thy ===== *)
theory Base64
  imports GoStrings
begin

text \<open>
  Go's \<^verbatim>\<open>encoding/base64\<close> as the program uses it: \<^verbatim>\<open>RawURLEncoding.DecodeString\<close> for tokens and
  keys, \<^verbatim>\<open>StdEncoding.EncodeToString\<close> for TURN passwords. Decoding skips line breaks and, like
  Go's non-strict mode, ignores the unused low bits of the last character. The round trip holds
  for both alphabets.
\<close>

definition alphabet_head :: string where
  "alphabet_head = ''ABCDEFGHIJKLMNOPQRSTUVWXYZabcdefghijklmnopqrstuvwxyz0123456789''"

definition url_alphabet :: string where
  "url_alphabet = alphabet_head @ ''-_''"

definition std_alphabet :: string where
  "std_alphabet = alphabet_head @ ''+/''"

fun sextets :: "nat list \<Rightarrow> nat list" where
  "sextets [] = []"
| "sextets [x] = [x div 4, x mod 4 * 16]"
| "sextets [x, y] = [x div 4, x mod 4 * 16 + y div 16, y mod 16 * 4]"
| "sextets (x # y # z # r) =
     x div 4 # (x mod 4 * 16 + y div 16) # (y mod 16 * 4 + z div 64) # z mod 64 # sextets r"

fun octets :: "nat list \<Rightarrow> nat list option" where
  "octets [] = Some []"
| "octets [a] = None"
| "octets [a, b] = Some [a * 4 + b div 16]"
| "octets [a, b, c] = Some [a * 4 + b div 16, b mod 16 * 16 + c div 4]"
| "octets (a # b # c # d # r) =
     map_option (\<lambda>os. (a * 4 + b div 16) # (b mod 16 * 16 + c div 4) # (c mod 4 * 64 + d) # os) (octets r)"

definition byte_values :: "string \<Rightarrow> nat list" where
  "byte_values s = map of_char s"

definition sextet_value :: "string \<Rightarrow> char \<Rightarrow> nat option" where
  "sextet_value alphabet c = map_of (zip alphabet [0..<64]) c"

definition raw_encode :: "string \<Rightarrow> string \<Rightarrow> string" where
  "raw_encode alphabet s = map (\<lambda>n. alphabet ! n) (sextets (byte_values s))"

text \<open>Padded encoding (\<^verbatim>\<open>StdEncoding\<close>).\<close>

definition padding :: "nat \<Rightarrow> string" where
  "padding n = replicate ((3 - n mod 3) mod 3) (CHR ''='')"

definition std_encode :: "string \<Rightarrow> string" where
  "std_encode s = raw_encode std_alphabet s @ padding (length s)"

definition raw_decode :: "string \<Rightarrow> string \<Rightarrow> string option" where
  "raw_decode alphabet s =
     (case those (map (sextet_value alphabet) (filter (\<lambda>c. c \<noteq> CHR 0x0A \<and> c \<noteq> CHR 0x0D) s)) of
        None \<Rightarrow> None
      | Some ns \<Rightarrow> map_option (map char_of) (octets ns))"

definition rawurl_decode :: "string \<Rightarrow> string option" where
  "rawurl_decode s = raw_decode url_alphabet s"

definition rawurl_encode :: "string \<Rightarrow> string" where
  "rawurl_encode s = raw_encode url_alphabet s"

section \<open>Round trip\<close>

lemma sextet_parts:
  "x < 256 \<Longrightarrow> x div 4 < (64 :: nat)" "x mod 4 * 16 < (64 :: nat)" "y mod 16 * 4 < (64 :: nat)"
  "y < 256 \<Longrightarrow> x mod 4 * 16 + y div 16 < (64 :: nat)"
  "z < 256 \<Longrightarrow> y mod 16 * 4 + z div 64 < (64 :: nat)" "z mod 64 < (64 :: nat)"
  by linarith+

lemma sextets_bound: "\<forall>x\<in>set xs. x < 256 \<Longrightarrow> n \<in> set (sextets xs) \<Longrightarrow> n < 64"
  by (induction xs rule: sextets.induct) (auto simp: sextet_parts simp del: times_nat.simps)

lemma octets_sextets: "\<forall>x\<in>set xs. x < 256 \<Longrightarrow> octets (sextets xs) = Some xs"
  by (induction xs rule: sextets.induct) auto

lemma length_alphabets: "length url_alphabet = 64" "length std_alphabet = 64"
  by (simp_all add: url_alphabet_def std_alphabet_def alphabet_head_def)

lemma distinct_url_alphabet: "distinct url_alphabet"
  by code_simp

lemma distinct_std_alphabet: "distinct std_alphabet"
  by code_simp

lemma no_breaks: "CHR 0x0A \<notin> set url_alphabet" "CHR 0x0D \<notin> set url_alphabet"
  by (simp_all add: url_alphabet_def alphabet_head_def)

lemma sextet_value_nth:
  "distinct al \<Longrightarrow> length al = 64 \<Longrightarrow> n < 64 \<Longrightarrow> sextet_value al (al ! n) = Some n"
  unfolding sextet_value_def using map_of_zip_nth[of al "[0..<64]" n] by simp

lemma those_map_Some: "(\<And>n. n \<in> set ns \<Longrightarrow> f n = Some (g n)) \<Longrightarrow> those (map f ns) = Some (map g ns)"
  by (induction ns) auto

lemma rawurl_roundtrip: "rawurl_decode (rawurl_encode s) = Some s"
proof -
  let ?ns = "sextets (byte_values s)"
  have bytes_small: "\<forall>x\<in>set (byte_values s). x < 256"
    by (simp add: byte_values_def)
  then have small: "n < 64" if "n \<in> set ?ns" for n
    using that by (rule sextets_bound)
  have "filter (\<lambda>c. c \<noteq> CHR 0x0A \<and> c \<noteq> CHR 0x0D) (map ((!) url_alphabet) ?ns) = map ((!) url_alphabet) ?ns"
  proof (rule filter_True, rule ballI)
    fix c assume "c \<in> set (map ((!) url_alphabet) ?ns)"
    then have "c \<in> set url_alphabet"
      using small length_alphabets(1) by auto
    then show "c \<noteq> CHR 0x0A \<and> c \<noteq> CHR 0x0D"
      using no_breaks by blast
  qed
  moreover have "those (map (sextet_value url_alphabet \<circ> (!) url_alphabet) ?ns) = Some (map id ?ns)"
    by (rule those_map_Some) (simp add: sextet_value_nth distinct_url_alphabet length_alphabets small)
  moreover have "map char_of (byte_values s) = s"
    by (simp add: byte_values_def comp_def)
  ultimately show ?thesis
    by (simp add: rawurl_decode_def rawurl_encode_def raw_decode_def raw_encode_def
        octets_sextets[OF bytes_small])
qed

end
