(* ===== verification/Middleware.thy ===== *)
theory Middleware
  imports Http Base64
begin

text \<open>
  pkg/middleware/middleware.go: who a request comes from (\<^verbatim>\<open>parseToken\<close>, \<^verbatim>\<open>AuthMiddleware\<close>), the
  key cache (\<^verbatim>\<open>loadJWKSKeys\<close>), the rate limiter and the client address it counts by, the
  status the metrics record, the hijacking of a recorder's connection, and the span of a request.

  Parameters: the JWT library (\<^verbatim>\<open>jwt.ParseWithClaims\<close>, as its two halves around the key
  function), the fetch of the key document, the clock, the JSON parser on bytes, and the two
  Redis commands of the limiter.
\<close>

section \<open>Claims and keys\<close>

record claims =
  cl_email :: string
  cl_user_metadata :: "(string \<times> json) list"
  cl_phone :: string

definition empty_claims :: claims where
  "empty_claims = \<lparr>cl_email = [], cl_user_metadata = [], cl_phone = []\<rparr>"

record ec_key =
  key_x :: nat
  key_y :: nat

datatype signing_key = Secret string | P256 ec_key

record jwk =
  jwk_kid :: string
  jwk_kty :: string
  jwk_crv :: string
  jwk_x :: string
  jwk_y :: string

record jwks_entry =
  jw_keys :: "string \<rightharpoonup> ec_key"
  jw_expires_at :: int

type_synonym jwks_cache = "string \<rightharpoonup> jwks_entry"

text \<open>What fetching the key document gives: no response, or a status and the decoded document.\<close>

datatype fetch_result = Fetch_failed | Fetched nat "jwk list option"

definition ascii_upper :: "string \<Rightarrow> string" where
  "ascii_upper s = map (\<lambda>c. let n = of_char c :: nat in if 97 \<le> n \<and> n \<le> 122 then char_of (n - 32) else c) s"

text \<open>\<^verbatim>\<open>big.Int.SetBytes\<close>: big-endian.\<close>

definition set_bytes :: "string \<Rightarrow> nat" where
  "set_bytes s = foldl (\<lambda>a b. 256 * a + b) 0 (byte_values s)"

definition usable_key :: "jwk \<Rightarrow> ec_key option" where
  "usable_key k =
     (if jwk_kid k = [] \<or> ascii_upper (jwk_kty k) \<noteq> ''EC'' \<or> jwk_crv k \<noteq> ''P-256'' then None
      else case rawurl_decode (jwk_x k) of
             None \<Rightarrow> None
           | Some xs \<Rightarrow>
             (case rawurl_decode (jwk_y k) of
                None \<Rightarrow> None
              | Some ys \<Rightarrow> Some \<lparr>key_x = set_bytes xs, key_y = set_bytes ys\<rparr>))"

fun collect_keys :: "jwk list \<Rightarrow> (string \<rightharpoonup> ec_key) \<Rightarrow> (string \<rightharpoonup> ec_key)" where
  "collect_keys [] m = m"
| "collect_keys (k # ks) m =
     (case usable_key k of
        None \<Rightarrow> collect_keys ks m
      | Some e \<Rightarrow> collect_keys ks (m(jwk_kid k \<mapsto> e)))"

definition any_usable :: "jwk list \<Rightarrow> bool" where
  "any_usable ks = list_ex (\<lambda>k. usable_key k \<noteq> None) ks"

definition minutes :: "int \<Rightarrow> int" where
  "minutes n = n * 60 * 1000000000"

text \<open>
  \<^verbatim>\<open>loadJWKSKeys\<close>: \<open>now\<close> is read once against the cache and \<open>later\<close> when an entry is stored.
\<close>

definition loadJWKSKeys ::
  "(string \<Rightarrow> fetch_result) \<Rightarrow> int \<Rightarrow> int \<Rightarrow> string \<Rightarrow> jwks_cache \<Rightarrow> (string + (string \<rightharpoonup> ec_key)) \<times> jwks_cache" where
  "loadJWKSKeys fetch now later supabaseURL cache =
     (let base = trim_right_slash (trim_space supabaseURL) in
      if base = [] then (Inl ''supabase url missing'', cache)
      else let miss =
             (case fetch (base @ ''/auth/v1/.well-known/jwks.json'') of
                Fetch_failed \<Rightarrow> (Inl ''fetch failed'', cache)
              | Fetched code doc \<Rightarrow>
                  (if 300 \<le> code then (Inl ''jwks fetch failed'', cache)
                   else case doc of
                     None \<Rightarrow> (Inl ''decode failed'', cache)
                   | Some ks \<Rightarrow>
                       (if \<not> any_usable ks then (Inl ''no usable jwks keys'', cache)
                        else (Inr (collect_keys ks Map.empty),
                              cache(base \<mapsto> \<lparr>jw_keys = collect_keys ks Map.empty,
                                             jw_expires_at = later + minutes 10\<rparr>)))))
           in case cache base of
                Some entry \<Rightarrow> (if now < jw_expires_at entry then (Inr (jw_keys entry), cache) else miss)
              | None \<Rightarrow> miss)"

section \<open>Tokens\<close>

datatype signing_method = HMAC | ECDSA | Other_method

record jwt_token =
  tok_method :: signing_method
  tok_kid :: "json option"

text \<open>
  The library: \<open>jwt_head\<close> is the token it hands the key function (none if the text is no token),
  \<open>jwt_finish\<close> the claims it left in the struct and whether it returned no error, given the key
  function's answer.
\<close>

record jwt_lib =
  jwt_head :: "string \<Rightarrow> jwt_token option"
  jwt_finish :: "string \<Rightarrow> (string + signing_key) option \<Rightarrow> claims \<times> bool"

definition keyfunc ::
  "(string \<Rightarrow> fetch_result) \<Rightarrow> int \<Rightarrow> int \<Rightarrow> string \<Rightarrow> string \<Rightarrow> jwt_token \<Rightarrow> jwks_cache
     \<Rightarrow> (string + signing_key) \<times> jwks_cache" where
  "keyfunc fetch now later secret supabaseURL t cache =
     (case tok_method t of
        HMAC \<Rightarrow> (Inr (Secret secret), cache)
      | ECDSA \<Rightarrow>
          (let kid = (case tok_kid t of Some (JStr s) \<Rightarrow> s | _ \<Rightarrow> []) in
           if trim_space kid = [] then (Inl ''missing kid'', cache)
           else case loadJWKSKeys fetch now later supabaseURL cache of
                  (Inl e, cache') \<Rightarrow> (Inl e, cache')
                | (Inr keys, cache') \<Rightarrow>
                    (case keys kid of
                       None \<Rightarrow> (Inl ''kid not found'', cache')
                     | Some k \<Rightarrow> (Inr (P256 k), cache')))
      | Other_method \<Rightarrow> (Inl ''invalid signing method'', cache))"

text \<open>The second decoding of the payload, which no verification guards.\<close>

definition payload_members :: "(string \<Rightarrow> json option) \<Rightarrow> string \<Rightarrow> (string \<rightharpoonup> json)" where
  "payload_members unmarshal token =
     (case split_on (CHR ''.'') token of
        [h, p, sig] \<Rightarrow>
          (case rawurl_decode p of
             None \<Rightarrow> Map.empty
           | Some text \<Rightarrow>
               (case unmarshal text of Some (JObj ms) \<Rightarrow> map_of (rev ms) | _ \<Rightarrow> Map.empty))
      | _ \<Rightarrow> Map.empty)"

definition fill_from_payload :: "(string \<rightharpoonup> json) \<Rightarrow> claims \<Rightarrow> claims" where
  "fill_from_payload raw c =
     (let c1 = (if cl_phone c = [] then
                  (case raw ''phone'' of
                     None \<Rightarrow> c
                   | Some v \<Rightarrow> (case decode_string v [] of None \<Rightarrow> c | Some s \<Rightarrow> c\<lparr>cl_phone := s\<rparr>))
                else c)
      in if cl_user_metadata c1 = [] then
           (case raw ''user_metadata'' of
              Some (JObj m) \<Rightarrow> c1\<lparr>cl_user_metadata := m\<rparr>
            | Some JNull \<Rightarrow> c1\<lparr>cl_user_metadata := []\<rparr>
            | _ \<Rightarrow> c1)
         else c1)"

definition phone_from_metadata :: "claims \<Rightarrow> claims" where
  "phone_from_metadata c =
     (if cl_phone c = [] then
        (case map_of (rev (cl_user_metadata c)) ''phone'' of
           Some (JStr m) \<Rightarrow> c\<lparr>cl_phone := m\<rparr>
         | _ \<Rightarrow> c)
      else c)"

text \<open>\<^verbatim>\<open>parseToken\<close>: the library's error is dropped.\<close>

definition parseToken ::
  "jwt_lib \<Rightarrow> (string \<Rightarrow> json option) \<Rightarrow> (string \<Rightarrow> fetch_result) \<Rightarrow> int \<Rightarrow> int \<Rightarrow> string \<Rightarrow> string \<Rightarrow> string
     \<Rightarrow> jwks_cache \<Rightarrow> (string + claims) \<times> jwks_cache" where
  "parseToken lib unmarshal fetch now later secret supabaseURL token cache =
     (if token = [] then (Inl ''empty token'', cache)
      else let (answer, cache') =
             (case jwt_head lib token of
                None \<Rightarrow> (None, cache)
              | Some t \<Rightarrow> (let (k, c') = keyfunc fetch now later secret supabaseURL t cache in (Some k, c')));
             claims = fst (jwt_finish lib token answer);
             claims = fill_from_payload (payload_members unmarshal token) claims
           in (Inr (phone_from_metadata claims), cache'))"

definition BearerToken :: "string \<Rightarrow> string" where
  "BearerToken hdr =
     (if hdr = [] then []
      else case str_fields hdr of
             [scheme, token] \<Rightarrow> (if equal_fold scheme ''Bearer'' then token else [])
           | _ \<Rightarrow> [])"

text \<open>\<^verbatim>\<open>AuthMiddleware\<close>: \<open>next\<close> gets the claims of the context and is always called.\<close>

definition AuthMiddleware ::
  "jwt_lib \<Rightarrow> (string \<Rightarrow> json option) \<Rightarrow> (string \<Rightarrow> fetch_result) \<Rightarrow> int \<Rightarrow> int \<Rightarrow> string \<Rightarrow> string
     \<Rightarrow> (claims option \<Rightarrow> 'r) \<Rightarrow> string \<Rightarrow> jwks_cache \<Rightarrow> 'r \<times> jwks_cache" where
  "AuthMiddleware lib unmarshal fetch now later secret supabaseURL next auth_header cache =
     (let token = BearerToken auth_header;
          (res, cache') = parseToken lib unmarshal fetch now later secret supabaseURL token cache;
          claims = (case res of Inl _ \<Rightarrow> empty_claims | Inr c \<Rightarrow> c)
      in (next (Some claims), cache'))"

section \<open>Metrics\<close>

text \<open>\<^verbatim>\<open>statusRecorder\<close>: the status the request is counted under, from the codes written.\<close>

definition WriteHeader :: "nat \<Rightarrow> nat \<Rightarrow> nat" where
  "WriteHeader status recorded = status"

definition MetricsMiddleware :: "nat list \<Rightarrow> string \<Rightarrow> string \<Rightarrow> string \<times> string \<times> string" where
  "MetricsMiddleware written meth path = (meth, path, decimal_nat (fold WriteHeader written 200))"

text \<open>
  A recorder can be hijacked if the writer it wraps can: \<open>hijacker\<close> is what the wrapped one does, if it
  has the method.
\<close>

definition Hijack :: "(string + 'conn) option \<Rightarrow> string + 'conn" where
  "Hijack hijacker =
     (case hijacker of
        None \<Rightarrow> Inl ''response writer does not implement hijacker''
      | Some hijacked \<Rightarrow> hijacked)"

text \<open>
  A span has the tracer's name, the path and the method; it is in the context the handler runs with, and
  ends when the handler is through. \<open>spans\<close> lists the spans that ended.
\<close>

record span =
  sp_tracer :: string
  sp_name :: string
  sp_http_method :: string

definition TracingMiddleware ::
  "string \<Rightarrow> (span \<Rightarrow> 's \<Rightarrow> 'a \<times> 's) \<Rightarrow> string \<Rightarrow> string \<Rightarrow> 's \<times> span list \<Rightarrow> 'a \<times> 's \<times> span list" where
  "TracingMiddleware service next meth path = (\<lambda>(s, spans).
     (let span = \<lparr>sp_tracer = service, sp_name = path, sp_http_method = meth\<rparr> in
      case next span s of (a, s) \<Rightarrow> (a, s, spans @ [span])))"

lemma tracing_is_transparent:
  "(case TracingMiddleware service (\<lambda>_. next) meth path (s, spans) of (a, s', spans') \<Rightarrow>
      (a, s') = next s \<and> length spans' = Suc (length spans))"
  by (simp add: TracingMiddleware_def Let_def split: prod.split)

section \<open>Rate limiting\<close>

record http_request =
  rq_x_real_ip :: string
  rq_x_forwarded_for :: string
  rq_remote_addr :: string

text \<open>The host of \<^verbatim>\<open>net.SplitHostPort\<close>, empty on an error.\<close>

definition split_host :: "string \<Rightarrow> string" where
  "split_host hostport =
     (let parts = split_on (CHR '':'') hostport in
      if length parts < 2 then []
      else if prefix ''['' hostport then
        (let inner = takeWhile (\<lambda>c. c \<noteq> CHR '']'') hostport;
             rest = dropWhile (\<lambda>c. c \<noteq> CHR '']'') hostport
         in if rest = [] \<or> \<not> prefix '']:'' rest \<or> CHR '':'' \<in> set (drop 2 rest)
               \<or> CHR ''['' \<in> set (tl hostport) \<or> CHR '']'' \<in> set (tl rest) then []
            else tl inner)
      else if 2 < length parts \<or> CHR ''['' \<in> set hostport \<or> CHR '']'' \<in> set hostport then []
      else hd parts)"

definition clientIP :: "http_request \<Rightarrow> string" where
  "clientIP r =
     (if rq_x_real_ip r \<noteq> [] then rq_x_real_ip r
      else if rq_x_forwarded_for r \<noteq> [] then
        trim_space (hd (split_on (CHR '','') (rq_x_forwarded_for r)))
      else split_host (rq_remote_addr r))"

text \<open>The Redis counter: \<^verbatim>\<open>INCR\<close> and \<^verbatim>\<open>EXPIRE\<close> over the server's state.\<close>

record 's counter_if =
  rc_incr :: "string \<Rightarrow> 's \<Rightarrow> (string + int) \<times> 's"
  rc_expire :: "string \<Rightarrow> int \<Rightarrow> 's \<Rightarrow> 's"

datatype 'r verdict = Refused nat string | Passed 'r

definition window_key :: "string \<Rightarrow> int \<Rightarrow> int \<Rightarrow> string" where
  "window_key ip unix window = ''rl:'' @ ip @ '':'' @ decimal (unix div window)"

text \<open>
  \<^verbatim>\<open>RateLimitMiddleware\<close>: \<open>unix\<close> is the clock in seconds (not negative, so Go's division is
  \<open>div\<close>), \<open>window\<close> the window in whole seconds.
\<close>

definition RateLimitMiddleware ::
  "'s counter_if \<Rightarrow> int \<Rightarrow> int \<Rightarrow> (http_request \<Rightarrow> 'r) \<Rightarrow> int \<Rightarrow> http_request \<Rightarrow> 's \<Rightarrow> 'r verdict \<times> 's" where
  "RateLimitMiddleware rc limit window next unix r s =
     (let ip = clientIP r in
      if ip = [] then (Refused 429 ''unable to determine ip'', s)
      else let key = window_key ip unix window in
        case rc_incr rc key s of
          (Inl _, s1) \<Rightarrow> (Refused 500 ''rate limit failed'', s1)
        | (Inr n, s1) \<Rightarrow>
            (let s2 = (if n = 1 then rc_expire rc key window s1 else s1) in
             if n > limit then (Refused 429 ''rate limit exceeded'', s2)
             else (Passed (next r), s2)))"

text \<open>Requests served one after the other, each at its own second.\<close>

fun limited_run ::
  "'s counter_if \<Rightarrow> int \<Rightarrow> int \<Rightarrow> (http_request \<Rightarrow> 'r) \<Rightarrow> (int \<times> http_request) list \<Rightarrow> 's \<Rightarrow> 'r verdict list" where
  "limited_run rc limit window next [] s = []"
| "limited_run rc limit window next ((unix, r) # rs) s =
     (let (v, s') = RateLimitMiddleware rc limit window next unix r s
      in v # limited_run rc limit window next rs s')"

section \<open>Properties\<close>

subsection \<open>Rate limiting\<close>

text \<open>What the limiter relies on: \<^verbatim>\<open>INCR\<close> counts, \<^verbatim>\<open>EXPIRE\<close> keeps the count while the window lasts.\<close>

definition exact_counter :: "'s counter_if \<Rightarrow> (string \<Rightarrow> 's \<Rightarrow> int) \<Rightarrow> bool" where
  "exact_counter rc val \<longleftrightarrow>
     (\<forall>k s. fst (rc_incr rc k s) = Inr (val k s + 1)) \<and>
     (\<forall>k k' s. val k' (snd (rc_incr rc k s)) = (if k' = k then val k s + 1 else val k' s)) \<and>
     (\<forall>k k' w s. val k' (rc_expire rc k w s) = val k' s)"

fun passed :: "'r verdict \<Rightarrow> bool" where
  "passed (Refused _ _) = False"
| "passed (Passed _) = True"

definition in_window :: "int \<Rightarrow> string \<Rightarrow> int \<times> http_request \<Rightarrow> bool" where
  "in_window window k ur \<longleftrightarrow> clientIP (snd ur) \<noteq> [] \<and> window_key (clientIP (snd ur)) (fst ur) window = k"

lemma limiter_step:
  assumes "exact_counter rc val" and "in_window window k (unix, r)"
  obtains s' where "RateLimitMiddleware rc limit window next unix r s =
      ((if val k s < limit then Passed (next r) else Refused 429 ''rate limit exceeded''), s')"
    and "val k s' = val k s + 1"
proof -
  obtain s1 where incr: "rc_incr rc k s = (Inr (val k s + 1), s1)"
    using assms(1) by (metis exact_counter_def prod.collapse)
  then have "val k s1 = val k s + 1"
    using assms(1) unfolding exact_counter_def by (metis snd_conv)
  then show ?thesis
    using assms incr that
    by (auto simp: RateLimitMiddleware_def in_window_def Let_def exact_counter_def)
qed

lemma limited_run_passes:
  assumes "exact_counter rc val" and "\<forall>ur\<in>set rs. in_window window k ur"
  shows "map passed (limited_run rc limit window next rs s) =
    map (\<lambda>i. val k s + int i < limit) [0..<length rs]"
  using assms(2)
proof (induction rs arbitrary: s)
  case Nil
  then show ?case by simp
next
  case (Cons ur rs)
  obtain unix r where ur: "ur = (unix, r)" by force
  then have "in_window window k (unix, r)"
    using Cons.prems by simp
  then obtain s' where step: "RateLimitMiddleware rc limit window next unix r s =
      ((if val k s < limit then Passed (next r) else Refused 429 ''rate limit exceeded''), s')"
    and val: "val k s' = val k s + 1"
    using limiter_step[OF assms(1)] by metis
  have "map passed (limited_run rc limit window next rs s') = map (\<lambda>i. val k s' + int i < limit) [0..<length rs]"
    using Cons by simp
  also have "\<dots> = map (\<lambda>i. val k s + int i < limit) (map Suc [0..<length rs])"
    by (simp add: val algebra_simps)
  finally show ?case
    using step by (simp add: ur map_Suc_upt upt_conv_Cons del: upt_Suc)
qed

text \<open>Requests of any clients at any times: each is counted under the key of its address and its window.\<close>

definition counted_under :: "int \<Rightarrow> int \<times> http_request \<Rightarrow> string" where
  "counted_under window ur = window_key (clientIP (snd ur)) (fst ur) window"

lemma limiter_counts:
  assumes "exact_counter rc val" and "clientIP r \<noteq> []" and "k = counted_under window (unix, r)"
  obtains s' where "RateLimitMiddleware rc limit window next unix r s =
      ((if val k s < limit then Passed (next r) else Refused 429 ''rate limit exceeded''), s')"
    and "\<And>k'. val k' s' = (if k' = k then val k s + 1 else val k' s)"
proof -
  obtain s1 where incr: "rc_incr rc k s = (Inr (val k s + 1), s1)"
    using assms(1) by (metis exact_counter_def prod.collapse)
  then have "val k' s1 = (if k' = k then val k s + 1 else val k' s)" for k'
    using assms(1) unfolding exact_counter_def by (metis snd_conv)
  then show ?thesis
    using assms incr that
    by (auto simp: RateLimitMiddleware_def counted_under_def Let_def exact_counter_def)
qed

lemma limited_run_counts:
  assumes "exact_counter rc val" and "\<forall>ur\<in>set rs. clientIP (snd ur) \<noteq> []"
  shows "map passed (limited_run rc limit window next rs s) =
    map (\<lambda>i. val (counted_under window (rs ! i)) s + int (count_list (map (counted_under window) (take i rs)) (counted_under window (rs ! i)))
        < limit) [0..<length rs]"
  using assms(2)
proof (induction rs arbitrary: s)
  case (Cons ur rs)
  obtain unix r where ur: "ur = (unix, r)" by force
  let ?k = "counted_under window ur"
  obtain s' where step: "RateLimitMiddleware rc limit window next unix r s =
      ((if val ?k s < limit then Passed (next r) else Refused 429 ''rate limit exceeded''), s')"
    and val: "\<And>k'. val k' s' = (if k' = ?k then val ?k s + 1 else val k' s)"
    using limiter_counts[OF assms(1), of r ?k window unix limit "next" s] Cons.prems ur by auto
  have "map passed (limited_run rc limit window next (ur # rs) s) =
      (val ?k s < limit) # map passed (limited_run rc limit window next rs s')"
    using step by (simp add: ur)
  also have "map passed (limited_run rc limit window next rs s') =
      map (\<lambda>i. val (counted_under window ((ur # rs) ! i)) s +
        int (count_list (map (counted_under window) (take i (ur # rs))) (counted_under window ((ur # rs) ! i))) < limit)
        (map Suc [0..<length rs])"
    using Cons by (simp add: val) (simp add: add.assoc)
  finally show ?case
    by (simp add: map_Suc_upt upt_conv_Cons del: upt_Suc)
qed simp

text \<open>
  C31. A request passes the limiter exactly if fewer than \<^verbatim>\<open>limit\<close> requests counted under its address and
  window came before it, whatever other clients ask in between, given a Redis counter that counts.
\<close>

theorem rate_limit_per_client:
  assumes "exact_counter rc val" and "\<forall>ur\<in>set rs. clientIP (snd ur) \<noteq> []" and "\<forall>k. val k s = 0"
  shows "map passed (limited_run rc limit window next rs s) =
    map (\<lambda>i. int (count_list (map (counted_under window) (take i rs)) (counted_under window (rs ! i))) < limit) [0..<length rs]"
  by (subst limited_run_counts[OF assms(1,2)]) (simp add: assms(3))

text \<open>So a client that names another address in each of its requests is never refused.\<close>

lemma new_address_passes:
  assumes "exact_counter rc val" and "\<forall>ur\<in>set rs. clientIP (snd ur) \<noteq> []" and "\<forall>k. val k s = 0"
    and "distinct (map (counted_under window) rs)" and "0 < limit"
  shows "map passed (limited_run rc limit window next rs s) = map (\<lambda>_. True) rs"
proof -
  have "count_list (map (counted_under window) (take i rs)) (counted_under window (rs ! i)) = 0" if "i < length rs" for i
  proof -
    have "counted_under window (rs ! i) \<notin> set (take i (map (counted_under window) rs))"
      using assms(4) that by (simp add: distinct_conv_nth in_set_conv_nth)
    then show ?thesis
      by (simp add: take_map count_list_0_iff)
  qed
  then show ?thesis
    using assms(5) by (subst limited_run_counts[OF assms(1,2)]) (auto simp: assms(3) intro!: nth_equalityI)
qed

text \<open>
  Within one window the limiter passes exactly the first \<^verbatim>\<open>limit\<close> requests of a client and
  refuses every later one, given a Redis counter that counts.
\<close>

theorem rate_limit_exact:
  assumes "exact_counter rc val" and "\<forall>ur\<in>set rs. in_window window k ur" and "val k s = 0"
  shows "map passed (limited_run rc limit window next rs s) = map (\<lambda>i. int i < limit) [0..<length rs]"
  by (subst limited_run_passes[OF assms(1,2)]) (simp add: assms(3))

definition sample_request :: http_request where
  "sample_request = \<lparr>rq_x_real_ip = ''1.2.3.4'', rq_x_forwarded_for = [], rq_remote_addr = []\<rparr>"

definition counting_redis :: "(string \<Rightarrow> int) counter_if" where
  "counting_redis = \<lparr>rc_incr = (\<lambda>k s. (Inr (s k + 1), s(k := s k + 1))), rc_expire = (\<lambda>k w s. s)\<rparr>"

theorem rate_limit_exact_witness:
  "map passed (limited_run counting_redis 2 60 rq_x_real_ip
     [(120, sample_request), (121, sample_request), (150, sample_request)] (\<lambda>_. 0)) = [True, True, False]"
proof -
  have "exact_counter counting_redis (\<lambda>k s. s k)"
    by (simp add: exact_counter_def counting_redis_def)
  moreover have "\<forall>ur\<in>set [(120, sample_request), (121, sample_request), (150, sample_request)].
      in_window 60 (window_key ''1.2.3.4'' 120 60) ur"
    by (simp add: in_window_def sample_request_def clientIP_def window_key_def)
  ultimately have "map passed (limited_run counting_redis 2 60 rq_x_real_ip
     [(120, sample_request), (121, sample_request), (150, sample_request)] (\<lambda>_. 0)) =
     map (\<lambda>i. int i < 2) [0..<length [(120 :: int, sample_request), (121, sample_request), (150, sample_request)]]"
    by (rule rate_limit_exact) simp
  also have "\<dots> = [True, True, False]"
    by (simp add: upt_conv_Cons)
  finally show ?thesis .
qed

definition other_request :: http_request where
  "other_request = sample_request\<lparr>rq_x_real_ip := ''5.6.7.8''\<rparr>"

theorem rate_limit_per_client_witness:
  "map passed (limited_run counting_redis 1 60 rq_x_real_ip
     [(120, sample_request), (120, other_request), (121, sample_request)] (\<lambda>_. 0)) = [True, True, False]"
proof -
  have "exact_counter counting_redis (\<lambda>k s. s k)"
    by (simp add: exact_counter_def counting_redis_def)
  moreover have "\<forall>ur\<in>set [(120 :: int, sample_request), (120, other_request), (121, sample_request)]. clientIP (snd ur) \<noteq> []"
    by (simp add: other_request_def sample_request_def clientIP_def)
  ultimately have "map passed (limited_run counting_redis 1 60 rq_x_real_ip
     [(120, sample_request), (120, other_request), (121, sample_request)] (\<lambda>_. 0)) =
     map (\<lambda>i. int (count_list (map (counted_under 60) (take i [(120, sample_request), (120, other_request), (121, sample_request)]))
         (counted_under 60 ([(120, sample_request), (120, other_request), (121, sample_request)] ! i))) < 1)
       [0..<length [(120 :: int, sample_request), (120, other_request), (121, sample_request)]]"
    by (rule rate_limit_per_client) simp
  also have "\<dots> = [True, True, False]"
    by (simp add: upt_conv_Cons counted_under_def other_request_def sample_request_def clientIP_def window_key_def)
  finally show ?thesis .
qed

text \<open>
  Two clients, or one client in two windows, never share a counter: the key determines the
  address and the window.
\<close>

theorem window_key_inj:
  assumes "0 \<le> t" and "0 \<le> u" and "0 < window"
    and "window_key ip t window = window_key ip' u window"
  shows "ip = ip' \<and> t div window = u div window"
  using assms by (simp add: window_key_def append_sep_inj decimal_no_colon decimal_inj pos_imp_zdiv_nonneg_iff)

theorem window_key_inj_witness:
  "window_key ''a'' 61 60 = window_key ''a'' 119 60 \<and> (61 :: int) div 60 = 119 div 60"
  using window_key_inj[of 61 119 60 "''a''" "''a''"] by (simp add: window_key_def)

subsection \<open>Authentication\<close>

text \<open>
  The middleware never turns a request away: whatever the header holds, the handler runs, and
  with claims in its context.
\<close>

theorem auth_never_refuses:
  "\<exists>c. fst (AuthMiddleware lib unmarshal fetch now later secret url next hdr cache) = next (Some c)"
  unfolding AuthMiddleware_def Let_def by (auto split: prod.split)

lemma unverified_phone:
  assumes "split_on (CHR ''.'') token = [h, p, sig]"
    and "rawurl_decode p = Some txt" and "unmarshal txt = Some (JObj ms)"
    and "map_of (rev ms) ''phone'' = Some (JStr ph)" and "ph \<noteq> []"
    and "\<And>a. cl_phone (fst (jwt_finish lib token a)) = [] \<or> cl_phone (fst (jwt_finish lib token a)) = ph"
  shows "\<exists>c. fst (parseToken lib unmarshal fetch now later secret url token cache) = Inr c \<and> cl_phone c = ph"
proof -
  have "token \<noteq> []"
    using assms(1) by auto
  have raw: "payload_members unmarshal token ''phone'' = Some (JStr ph)"
    using assms(1-4) by (simp add: payload_members_def)
  have "cl_phone (fill_from_payload (payload_members unmarshal token) c) = ph"
    if "cl_phone c = [] \<or> cl_phone c = ph" for c
    using that raw assms(5)
    by (auto simp: fill_from_payload_def decode_string_def Let_def split: option.split json.split)
  then show ?thesis
    using \<open>token \<noteq> []\<close> assms(5,6)
    by (auto simp: parseToken_def phone_from_metadata_def Let_def split: prod.split)
qed

text \<open>
  The identity is not the verified one: for a three-part token whose payload names a phone,
  the handlers see that phone, whatever key the server holds and whatever the library says of
  the signature. All the library has to do is leave the phone empty, or fill in the payload's.
\<close>

theorem parseToken_unverified_phone:
  assumes "split_on (CHR ''.'') token = [h, p, sig]"
    and "rawurl_decode p = Some txt" and "unmarshal txt = Some (JObj ms)"
    and "map_of (rev ms) ''phone'' = Some (JStr ph)" and "ph \<noteq> []"
    and "\<And>a. cl_phone (fst (jwt_finish lib token a)) = [] \<or> cl_phone (fst (jwt_finish lib token a)) = ph"
  shows "\<exists>c. fst (parseToken lib unmarshal fetch now later secret url token cache) = Inr c \<and> cl_phone c = ph"
  using assms by (rule unverified_phone)

definition refusing_jwt :: jwt_lib where
  "refusing_jwt = \<lparr>jwt_head = (\<lambda>_. None), jwt_finish = (\<lambda>_ _. (empty_claims, False))\<rparr>"

theorem parseToken_unverified_phone_witness:
  "\<exists>c. fst (parseToken refusing_jwt (\<lambda>t. if t = ''{}'' then Some (JObj [(''phone'', JStr ''42'')]) else None)
      (\<lambda>_. Fetch_failed) 0 0 ''secret'' ''https://x'' ''h.e30.forged'' Map.empty) = Inr c \<and> cl_phone c = ''42''"
proof -
  have "rawurl_decode ''e30'' = Some ''{}''"
    by code_simp
  then show ?thesis
    using parseToken_unverified_phone[of "''h.e30.forged''" "''h''" "''e30''" "''forged''" "''{}''"
        "\<lambda>t. if t = ''{}'' then Some (JObj [(''phone'', JStr ''42'')]) else None"
        "[(''phone'', JStr ''42'')]" "''42''" refusing_jwt]
    by (simp add: refusing_jwt_def empty_claims_def)
qed

subsection \<open>The key cache\<close>

lemma collect_keys_usable:
  "collect_keys ks m kid = Some e \<Longrightarrow> m kid = Some e \<or> (\<exists>k\<in>set ks. jwk_kid k = kid \<and> usable_key k = Some e)"
  by (induction ks arbitrary: m) (fastforce split: option.splits if_splits)+

text \<open>
  After a successful load, every load of the same address within ten minutes returns the same
  keys without a request: any two servers may be asked, and the cache stays as it is.
\<close>

theorem jwks_cached:
  assumes "loadJWKSKeys fetch now later url Map.empty = (Inr keys, cache)" and "now' < later + minutes 10"
  shows "loadJWKSKeys fetch' now' later' url cache = (Inr keys, cache)"
  using assms by (auto simp: loadJWKSKeys_def Let_def split: if_splits fetch_result.splits option.splits)

definition sample_jwks :: "string \<Rightarrow> fetch_result" where
  "sample_jwks = (\<lambda>_. Fetched 200 (Some [\<lparr>jwk_kid = ''k'', jwk_kty = ''EC'', jwk_crv = ''P-256'', jwk_x = ''AQ'', jwk_y = ''Ag''\<rparr>]))"

theorem jwks_cached_witness:
  "\<exists>keys cache. loadJWKSKeys (\<lambda>_. Fetch_failed) 100 0 ''https://s/'' cache = (Inr keys, cache)
     \<and> keys ''k'' = Some \<lparr>key_x = 1, key_y = 2\<rparr>"
proof -
  let ?keys = "collect_keys [\<lparr>jwk_kid = ''k'', jwk_kty = ''EC'', jwk_crv = ''P-256'', jwk_x = ''AQ'', jwk_y = ''Ag''\<rparr>] Map.empty"
  have "rawurl_decode ''AQ'' = Some [char_of (1 :: nat)]" "rawurl_decode ''Ag'' = Some [char_of (2 :: nat)]"
    by code_simp+
  then have one: "usable_key \<lparr>jwk_kid = ''k'', jwk_kty = ''EC'', jwk_crv = ''P-256'', jwk_x = ''AQ'', jwk_y = ''Ag''\<rparr>
      = Some \<lparr>key_x = 1, key_y = 2\<rparr>"
    by (simp add: usable_key_def ascii_upper_def set_bytes_def byte_values_def Let_def)
  have base: "trim_right_slash (trim_space ''https://s/'') = ''https://s''"
    by (simp add: trim_space_printable printable_def trim_right_slash_def)
  have "loadJWKSKeys sample_jwks 0 0 ''https://s/'' Map.empty =
      (Inr ?keys, [''https://s'' \<mapsto> \<lparr>jw_keys = ?keys, jw_expires_at = 0 + minutes 10\<rparr>])"
    by (simp add: loadJWKSKeys_def base sample_jwks_def any_usable_def one)
  from jwks_cached[OF this, of 100 "\<lambda>_. Fetch_failed" 0] show ?thesis
    by (intro exI[of _ ?keys]) (auto simp: minutes_def one)
qed

end
