(* ===== verification/Dedupe.thy ===== *)
theory Dedupe
  imports GoStrings
begin

text \<open>
  The contract of the two loops that clean up a list of phone numbers (\<^verbatim>\<open>dedupeIDs\<close> in the
  gateway, \<^verbatim>\<open>dedupeRecipients\<close> in the chat service): every element is trimmed, some are dropped,
  and of equal ones the first stays, in the order of the input.
\<close>

fun first_seen :: "'a list \<Rightarrow> 'a list" where
  "first_seen [] = []"
| "first_seen (x # xs) = x # filter (\<lambda>y. y \<noteq> x) (first_seen xs)"

lemma set_first_seen [simp]: "set (first_seen xs) = set xs"
  by (induction xs) auto

lemma distinct_first_seen [simp]: "distinct (first_seen xs)"
  by (induction xs) (auto intro: distinct_filter)

lemma first_seen_distinct: "distinct xs \<Longrightarrow> first_seen xs = xs"
  by (induction xs) (auto intro!: filter_True)

lemma subseq_first_seen: "subseq (first_seen xs) xs"
proof (induction xs)
  case Nil
  then show ?case by simp
next
  case (Cons x xs)
  have "subseq (filter (\<lambda>y. y \<noteq> x) (first_seen xs)) xs"
    by (rule subseq_order.order_trans[OF subseq_filter_left Cons.IH])
  then show ?case by simp
qed

lemma filter_first_seen: "filter P (first_seen xs) = first_seen (filter P xs)"
proof (induction xs)
  case Nil
  then show ?case by simp
next
  case (Cons x xs)
  have "filter P (filter (\<lambda>y. y \<noteq> x) (first_seen xs)) = filter (\<lambda>y. y \<noteq> x) (filter P (first_seen xs))"
    by (simp add: filter_filter conj_commute)
  moreover have "filter P (filter (\<lambda>y. y \<noteq> x) (first_seen xs)) = filter P (first_seen xs)" if "\<not> P x"
    using that by (auto simp: filter_filter intro!: filter_cong)
  ultimately show ?case
    using Cons.IH by (auto simp: filter_filter)
qed

text \<open>The loop of both functions: one pass with the set of what was seen.\<close>

lemma seen_step:
  "first_seen (filter (\<lambda>y. y \<notin> set seen) (x # xs)) =
   (if x \<in> set seen then first_seen (filter (\<lambda>y. y \<notin> set seen) xs)
    else x # first_seen (filter (\<lambda>y. y \<notin> set (x # seen)) xs))"
  by (simp add: filter_first_seen filter_filter conj_commute)

locale deduper =
  fixes dd :: "string list \<Rightarrow> string list"
    and drops :: "string \<Rightarrow> bool"
  assumes dd_first: "dd ids = first_seen (filter (\<lambda>i. \<not> drops i) (map trim_space ids))"
begin

lemma dd_distinct: "distinct (dd ids)"
  by (simp add: dd_first)

lemma dd_set: "set (dd ids) = {i \<in> trim_space ` set ids. \<not> drops i}"
  by (auto simp: dd_first)

lemma dd_order: "subseq (dd ids) (map trim_space ids)"
  unfolding dd_first by (rule subseq_order.order_trans[OF subseq_first_seen subseq_filter_left])

lemma dd_clean: "distinct ids \<Longrightarrow> \<forall>i\<in>set ids. trim_space i = i \<and> \<not> drops i \<Longrightarrow> dd ids = ids"
  by (simp add: dd_first map_idI first_seen_distinct)

lemma dd_idem: "dd (dd ids) = dd ids"
  by (rule dd_clean[OF dd_distinct]) (auto simp: dd_set)

lemma dd_length: "length (dd ids) \<le> length ids"
  using list_emb_length[OF dd_order] by simp

end

end
