(* ===== verification/GroupHandlers.thy ===== *)
theory GroupHandlers
  imports Queries Middleware Dedupe
begin

text \<open>
  The group handlers of services/api-gateway/internal/gateway/server.go: the statements they
  send, one definition each, and the handlers as functions from the caller's claims, the URL
  parameters and the decoded body to a response and the store after it. Every call of the code
  is a call here, in the code's order, so faults and other sessions can strike between any two.
\<close>

section \<open>Statements\<close>

definition member_row :: "string \<Rightarrow> string \<Rightarrow> group_member \<Rightarrow> bool" where
  "member_row gid phone r \<longleftrightarrow> gm_group_id r = gid \<and> gm_user_phone r = phone"

definition sel_is_member :: "string \<Rightarrow> string \<Rightarrow> bool stmt" where
  "sel_is_member gid phone = reading (\<lambda>d. \<exists>r\<in>set (group_members d). member_row gid phone r)"

definition sel_is_admin :: "string \<Rightarrow> string \<Rightarrow> bool stmt" where
  "sel_is_admin gid phone =
     reading (\<lambda>d. \<exists>r\<in>set (group_members d). member_row gid phone r \<and> gm_role r = ''admin'')"

definition sel_admin_count :: "string \<Rightarrow> nat stmt" where
  "sel_admin_count gid =
     reading (\<lambda>d. length (filter (\<lambda>r. gm_group_id r = gid \<and> gm_role r = ''admin'') (group_members d)))"

definition sel_member_count :: "string \<Rightarrow> nat stmt" where
  "sel_member_count gid = reading (\<lambda>d. length (filter (\<lambda>r. gm_group_id r = gid) (group_members d)))"

text \<open>The longest-standing member other than \<open>phone\<close>.\<close>

definition sel_successor :: "string \<Rightarrow> string \<Rightarrow> string option stmt" where
  "sel_successor gid phone =
     reading (\<lambda>d. case sort_key gm_created_at
                    (filter (\<lambda>r. gm_group_id r = gid \<and> gm_user_phone r \<noteq> phone) (group_members d)) of
                    [] \<Rightarrow> None
                  | r # _ \<Rightarrow> Some (gm_user_phone r))"

definition nullif_empty :: "string \<Rightarrow> string option" where
  "nullif_empty s = (if s = [] then None else Some s)"

definition ins_group :: "string \<Rightarrow> string \<Rightarrow> string \<Rightarrow> string \<Rightarrow> string \<Rightarrow> string \<Rightarrow> unit stmt" where
  "ins_group gid name description avatarURL createdBy inviteCode = (\<lambda>e d.
     if gid \<in> g_id ` set (groups d) \<or> inviteCode \<in> g_invite_code ` set (groups d)
     then Inl Unique_violation
     else Inr ((), d\<lparr>groups := groups d @
       [\<lparr>g_id = gid, g_name = name, g_description = nullif_empty description,
         g_avatar_url = nullif_empty avatarURL, g_created_by_phone = createdBy,
         g_invite_code = inviteCode, g_created_at = pg_now e, g_updated_at = pg_now e\<rparr>]\<rparr>))"

text \<open>\<^verbatim>\<open>ON CONFLICT ... DO UPDATE SET role = 'admin'\<close> and \<^verbatim>\<open>ON CONFLICT ... DO NOTHING\<close>.\<close>

definition ins_creator :: "string \<Rightarrow> string \<Rightarrow> unit stmt" where
  "ins_creator gid phone = writing (\<lambda>e d. d\<lparr>group_members :=
     upsert (member_row gid phone) (\<lambda>r. r\<lparr>gm_role := ''admin''\<rparr>)
       \<lparr>gm_group_id = gid, gm_user_phone = phone, gm_created_at = pg_now e, gm_role = ''admin'',
        gm_added_by = Some phone\<rparr> (group_members d)\<rparr>)"

definition ins_member :: "string \<Rightarrow> string \<Rightarrow> string \<Rightarrow> unit stmt" where
  "ins_member gid phone addedBy = writing (\<lambda>e d. d\<lparr>group_members :=
     upsert (member_row gid phone) (\<lambda>r. r)
       \<lparr>gm_group_id = gid, gm_user_phone = phone, gm_created_at = pg_now e, gm_role = ''member'',
        gm_added_by = Some addedBy\<rparr> (group_members d)\<rparr>)"

definition upd_role :: "string \<Rightarrow> string \<Rightarrow> string \<Rightarrow> unit stmt" where
  "upd_role gid phone role = writing (\<lambda>e d. d\<lparr>group_members :=
     map (\<lambda>r. if member_row gid phone r then r\<lparr>gm_role := role\<rparr> else r) (group_members d)\<rparr>)"

definition del_member :: "string \<Rightarrow> string \<Rightarrow> unit stmt" where
  "del_member gid phone = writing (\<lambda>e d. d\<lparr>group_members :=
     filter (\<lambda>r. \<not> member_row gid phone r) (group_members d)\<rparr>)"

definition del_group :: "string \<Rightarrow> unit stmt" where
  "del_group gid = writing (\<lambda>e d. d\<lparr>groups := filter (\<lambda>g. g_id g \<noteq> gid) (groups d)\<rparr>)"

definition upd_group_where :: "string \<Rightarrow> (group \<Rightarrow> group) \<Rightarrow> db \<Rightarrow> db" where
  "upd_group_where gid f d = d\<lparr>groups := map (\<lambda>g. if g_id g = gid then f g else g) (groups d)\<rparr>"

definition touch_group :: "string \<Rightarrow> unit stmt" where
  "touch_group gid = writing (\<lambda>e. upd_group_where gid (\<lambda>g. g\<lparr>g_updated_at := pg_now e\<rparr>))"

text \<open>\<^verbatim>\<open>COALESCE(NULLIF($2, ''), name)\<close> and \<^verbatim>\<open>COALESCE($3, description)\<close>, \<^verbatim>\<open>nil\<close> being null.\<close>

definition upd_group :: "string \<Rightarrow> string option \<Rightarrow> string option \<Rightarrow> string option \<Rightarrow> unit stmt" where
  "upd_group gid name description avatarURL = writing (\<lambda>e. upd_group_where gid (\<lambda>g.
     g\<lparr>g_name := (case name of Some (c # cs) \<Rightarrow> c # cs | _ \<Rightarrow> g_name g),
       g_description := (case description of Some s \<Rightarrow> Some s | None \<Rightarrow> g_description g),
       g_avatar_url := (case avatarURL of Some s \<Rightarrow> Some s | None \<Rightarrow> g_avatar_url g),
       g_updated_at := pg_now e\<rparr>))"

definition upd_invite :: "string \<Rightarrow> string \<Rightarrow> unit stmt" where
  "upd_invite gid code = (\<lambda>e d.
     if \<exists>g\<in>set (groups d). g_id g = gid \<and> (\<exists>h\<in>set (groups d). g_id h \<noteq> gid \<and> g_invite_code h = code)
     then Inl Unique_violation
     else Inr ((), upd_group_where gid (\<lambda>g. g\<lparr>g_invite_code := code, g_updated_at := pg_now e\<rparr>) d))"

definition sel_invite :: "string \<Rightarrow> string option stmt" where
  "sel_invite gid = reading (\<lambda>d. map_option g_invite_code (find (\<lambda>g. g_id g = gid) (groups d)))"

definition sel_by_invite :: "string \<Rightarrow> string option stmt" where
  "sel_by_invite code = reading (\<lambda>d. map_option g_id (find (\<lambda>g. g_invite_code g = code) (groups d)))"

definition member_count :: "db \<Rightarrow> string \<Rightarrow> nat" where
  "member_count d gid = length (filter (\<lambda>r. gm_group_id r = gid) (group_members d))"

definition sel_group :: "string \<Rightarrow> (group \<times> nat) option stmt" where
  "sel_group gid = reading (\<lambda>d.
     map_option (\<lambda>g. (g, member_count d gid)) (find (\<lambda>g. g_id g = gid) (groups d)))"

definition sel_members :: "string \<Rightarrow> group_member list stmt" where
  "sel_members gid = reading (\<lambda>d. sort_key gm_created_at (filter (\<lambda>r. gm_group_id r = gid) (group_members d)))"

text \<open>The join of \<^verbatim>\<open>groups\<close> with the caller's memberships, latest update first.\<close>

definition sel_my_groups :: "string \<Rightarrow> (group \<times> nat) list stmt" where
  "sel_my_groups phone = reading (\<lambda>d. map (\<lambda>g. (g, member_count d (g_id g)))
     (rev (sort_key g_updated_at
       (concat (map (\<lambda>g. map (\<lambda>_. g)
          (filter (\<lambda>r. gm_group_id r = g_id g \<and> gm_user_phone r = phone) (group_members d))) (groups d))))))"

section \<open>Helpers of the handlers\<close>

definition currentUserPhone :: "claims option \<Rightarrow> string option" where
  "currentUserPhone ctx =
     (case ctx of
        None \<Rightarrow> None
      | Some c \<Rightarrow> (if trim_space (cl_phone c) = [] then None else Some (cl_phone c)))"

definition isGroupMember :: "string \<Rightarrow> string \<Rightarrow> world \<Rightarrow> bool \<times> world" where
  "isGroupMember gid phone w =
     (case exec (sel_is_member gid phone) w of (Inl _, w1) \<Rightarrow> (False, w1) | (Inr b, w1) \<Rightarrow> (b, w1))"

definition isGroupAdmin :: "string \<Rightarrow> string \<Rightarrow> world \<Rightarrow> bool \<times> world" where
  "isGroupAdmin gid phone w =
     (case exec (sel_is_admin gid phone) w of (Inl _, w1) \<Rightarrow> (False, w1) | (Inr b, w1) \<Rightarrow> (b, w1))"

definition adminCount :: "string \<Rightarrow> world \<Rightarrow> nat \<times> world" where
  "adminCount gid w =
     (case exec (sel_admin_count gid) w of (Inl _, w1) \<Rightarrow> (0, w1) | (Inr n, w1) \<Rightarrow> (n, w1))"

text \<open>\<^verbatim>\<open>a && b\<close> where \<open>b\<close> makes a call: it is made only if \<open>a\<close> holds.\<close>

definition last_admin :: "string \<Rightarrow> string \<Rightarrow> world \<Rightarrow> bool \<times> world" where
  "last_admin gid phone w =
     (case isGroupAdmin gid phone w of
        (False, w1) \<Rightarrow> (False, w1)
      | (True, w1) \<Rightarrow> (case adminCount gid w1 of (n, w2) \<Rightarrow> (n \<le> 1, w2)))"

fun dedupe_from :: "string list \<Rightarrow> string \<Rightarrow> string list \<Rightarrow> string list" where
  "dedupe_from [] skip seen = []"
| "dedupe_from (i # ids) skip seen =
     (let i = trim_space i in
      if i = [] \<or> (skip \<noteq> [] \<and> i = skip) then dedupe_from ids skip seen
      else if i \<in> set seen then dedupe_from ids skip seen
      else i # dedupe_from ids skip (i # seen))"

definition dedupeIDs :: "string list \<Rightarrow> string \<Rightarrow> string list" where
  "dedupeIDs ids skip = dedupe_from ids skip []"

lemma dedupe_from_first:
  "dedupe_from ids skip seen =
     first_seen (filter (\<lambda>i. i \<notin> set seen)
       (filter (\<lambda>i. \<not> (i = [] \<or> (skip \<noteq> [] \<and> i = skip))) (map trim_space ids)))"
proof (induction ids skip seen rule: dedupe_from.induct)
  case (1 skip seen)
  then show ?case by simp
next
  case (2 i ids skip seen)
  let ?drops = "\<lambda>i. i = [] \<or> (skip \<noteq> [] \<and> i = skip)"
  let ?rest = "filter (\<lambda>i. \<not> ?drops i) (map trim_space ids)"
  show ?case
  proof (cases "?drops (trim_space i)")
    case True
    with 2(1)[OF refl] show ?thesis by auto
  next
    case False
    then have kept: "filter (\<lambda>i. \<not> ?drops i) (map trim_space (i # ids)) = trim_space i # ?rest"
      by simp
    show ?thesis
      unfolding kept seen_step using False 2(2,3)[OF refl False] by (auto simp: Let_def simp del: filter_filter)
  qed
qed

interpretation ids: deduper "\<lambda>ids. dedupeIDs ids skip" "\<lambda>i. i = [] \<or> (skip \<noteq> [] \<and> i = skip)" for skip
  by unfold_locales (simp add: dedupeIDs_def dedupe_from_first)

text \<open>\<open>rand\<close> is \<^verbatim>\<open>crypto/rand\<close>: \<open>n\<close> bytes or a failure.\<close>

definition randomHex :: "(nat \<Rightarrow> 8 word list option) \<Rightarrow> nat \<Rightarrow> string option" where
  "randomHex rand n = map_option hex_encode (rand n)"

section \<open>Request bodies and views\<close>

record createGroupRequest =
  cg_name :: string
  cg_description :: string
  cg_avatar_url :: string
  cg_member_phones :: "string list"

definition create_fields :: "createGroupRequest field_table" where
  "create_fields =
     [(''name'', \<lambda>j s. map_option (\<lambda>v. s\<lparr>cg_name := v\<rparr>) (decode_string j (cg_name s))),
      (''description'', \<lambda>j s. map_option (\<lambda>v. s\<lparr>cg_description := v\<rparr>) (decode_string j (cg_description s))),
      (''avatar_url'', \<lambda>j s. map_option (\<lambda>v. s\<lparr>cg_avatar_url := v\<rparr>) (decode_string j (cg_avatar_url s))),
      (''member_phones'', \<lambda>j s. map_option (\<lambda>v. s\<lparr>cg_member_phones := v\<rparr>) (decode_strings j (cg_member_phones s)))]"

definition no_create :: createGroupRequest where
  "no_create = \<lparr>cg_name = [], cg_description = [], cg_avatar_url = [], cg_member_phones = []\<rparr>"

record updateGroupRequest =
  ug_name :: "string option"
  ug_description :: "string option"
  ug_avatar_url :: "string option"

definition update_fields :: "updateGroupRequest field_table" where
  "update_fields =
     [(''name'', \<lambda>j s. map_option (\<lambda>v. s\<lparr>ug_name := v\<rparr>) (decode_string_ptr j (ug_name s))),
      (''description'', \<lambda>j s. map_option (\<lambda>v. s\<lparr>ug_description := v\<rparr>) (decode_string_ptr j (ug_description s))),
      (''avatar_url'', \<lambda>j s. map_option (\<lambda>v. s\<lparr>ug_avatar_url := v\<rparr>) (decode_string_ptr j (ug_avatar_url s)))]"

definition no_update :: updateGroupRequest where
  "no_update = \<lparr>ug_name = None, ug_description = None, ug_avatar_url = None\<rparr>"

definition members_fields :: "string list field_table" where
  "members_fields = [(''member_phones'', \<lambda>j s. decode_strings j s)]"

definition invite_fields :: "string field_table" where
  "invite_fields = [(''invite_code'', \<lambda>j s. decode_string j s)]"

definition groupMemberResponse :: "group_member \<Rightarrow> json" where
  "groupMemberResponse r =
     JObj ([(''user_phone'', JStr (gm_user_phone r)), (''role'', JStr (gm_role r))]
       @ opt_member ''added_by'' (gm_added_by r) @ [(''created_at'', JTime (gm_created_at r))])"

definition groupResponse :: "group \<Rightarrow> nat \<Rightarrow> group_member list \<Rightarrow> json" where
  "groupResponse g n ms =
     JObj ([(''id'', JStr (g_id g)), (''name'', JStr (g_name g))]
       @ opt_member ''description'' (g_description g) @ opt_member ''avatar_url'' (g_avatar_url g)
       @ [(''created_by'', JStr (g_created_by_phone g)), (''invite_code'', JStr (g_invite_code g)),
          (''created_at'', JTime (g_created_at g)), (''updated_at'', JTime (g_updated_at g)),
          (''member_count'', JNum (int n))]
       @ (if ms = [] then [] else [(''members'', JArr (map groupMemberResponse ms))]))"

section \<open>Handlers\<close>

fun tx_add_members :: "string \<Rightarrow> string \<Rightarrow> string list \<Rightarrow> tx \<Rightarrow> world \<Rightarrow> bool \<times> tx \<times> world" where
  "tx_add_members gid user [] t w = (True, t, w)"
| "tx_add_members gid user (p # ps) t w =
     (case tx_exec (ins_member gid p user) t w of
        (Inl _, t1, w1) \<Rightarrow> (False, t1, w1)
      | (Inr _, t1, w1) \<Rightarrow> tx_add_members gid user ps t1 w1)"

text \<open>\<open>nano\<close> is the gateway's clock in nanoseconds.\<close>

definition createGroup ::
  "(nat \<Rightarrow> 8 word list option) \<Rightarrow> int \<Rightarrow> claims option \<Rightarrow> json option \<Rightarrow> world \<Rightarrow> response \<times> world" where
  "createGroup rand nano ctx body w =
     (case currentUserPhone ctx of
        None \<Rightarrow> (writeError 401 ''missing claims'', w)
      | Some user \<Rightarrow>
     (case decode_body create_fields no_create body of
        None \<Rightarrow> (writeError 400 ''invalid payload'', w)
      | Some req \<Rightarrow>
     (let name = trim_space (cg_name req) in
      if name = [] then (writeError 400 ''name is required'', w)
      else
     (let memberPhones = dedupeIDs (cg_member_phones req) user;
          groupID = ''grp_'' @ decimal nano in
      case randomHex rand 12 of
        None \<Rightarrow> (writeError 500 ''invite generation failed'', w)
      | Some inviteCode \<Rightarrow>
     (case tx_begin w of
        (Inl _, w) \<Rightarrow> (writeError 500 ''db begin failed'', w)
      | (Inr t, w) \<Rightarrow>
     (case tx_exec (ins_group groupID name (cg_description req) (cg_avatar_url req) user inviteCode) t w of
        (Inl _, t, w) \<Rightarrow> (writeError 500 ''group create failed'', w)
      | (Inr _, t, w) \<Rightarrow>
     (case tx_exec (ins_creator groupID user) t w of
        (Inl _, t, w) \<Rightarrow> (writeError 500 ''creator membership failed'', w)
      | (Inr _, t, w) \<Rightarrow>
     (case tx_add_members groupID user memberPhones t w of
        (False, t, w) \<Rightarrow> (writeError 500 ''add member failed'', w)
      | (True, t, w) \<Rightarrow>
     (case tx_commit t w of
        (Inl _, w) \<Rightarrow> (writeError 500 ''db commit failed'', w)
      | (Inr _, w) \<Rightarrow>
        (writeJSON 201 (JObj [(''group_id'', JStr groupID), (''invite_code'', JStr inviteCode)]), w))))))))))"

text \<open>
  The two listings read their rows one by one (\<open>ends\<close> tells how far that gets); \<^verbatim>\<open>listGroups\<close> looks at
  \<^verbatim>\<open>rows.Err\<close> after the loop, \<^verbatim>\<open>getGroup\<close> does not.
\<close>

definition listGroups :: "rows_end \<Rightarrow> claims option \<Rightarrow> world \<Rightarrow> response \<times> world" where
  "listGroups ends ctx w =
     (case currentUserPhone ctx of
        None \<Rightarrow> (writeError 401 ''missing claims'', w)
      | Some user \<Rightarrow>
     (case exec (sel_my_groups user) w of
        (Inl _, w) \<Rightarrow> (writeError 500 ''db failed'', w)
      | (Inr rows, w) \<Rightarrow>
     (case scan_rows ends rows of
        Inl _ \<Rightarrow> (writeError 500 ''scan failed'', w)
      | Inr (gs, broken) \<Rightarrow>
        if broken then (writeError 500 ''db rows failed'', w)
        else (writeJSON 200 (JObj [(''groups'', JArr (map (\<lambda>(g, n). groupResponse g n []) gs))]), w))))"

definition getGroup :: "rows_end \<Rightarrow> claims option \<Rightarrow> string \<Rightarrow> world \<Rightarrow> response \<times> world" where
  "getGroup ends ctx groupID w =
     (case currentUserPhone ctx of
        None \<Rightarrow> (writeError 401 ''missing claims'', w)
      | Some user \<Rightarrow>
      if groupID = [] then (writeError 400 ''missing group id'', w)
      else
     (case isGroupMember groupID user w of
        (False, w) \<Rightarrow> (writeError 403 ''forbidden'', w)
      | (True, w) \<Rightarrow>
     (case one_row (exec (sel_group groupID) w) of
        (Inl No_rows, w) \<Rightarrow> (writeError 404 ''group not found'', w)
      | (Inl _, w) \<Rightarrow> (writeError 500 ''db failed'', w)
      | (Inr (g, n), w) \<Rightarrow>
     (case exec (sel_members groupID) w of
        (Inl _, w) \<Rightarrow> (writeError 500 ''members fetch failed'', w)
      | (Inr rows, w) \<Rightarrow>
     (case scan_rows ends rows of
        Inl _ \<Rightarrow> (writeError 500 ''member scan failed'', w)
      | Inr (ms, _) \<Rightarrow> (writeJSON 200 (groupResponse g n ms), w))))))"

definition updateGroup :: "claims option \<Rightarrow> string \<Rightarrow> json option \<Rightarrow> world \<Rightarrow> response \<times> world" where
  "updateGroup ctx groupID body w =
     (case currentUserPhone ctx of
        None \<Rightarrow> (writeError 401 ''missing claims'', w)
      | Some user \<Rightarrow>
      if groupID = [] then (writeError 400 ''missing group id'', w)
      else
     (case isGroupAdmin groupID user w of
        (False, w) \<Rightarrow> (writeError 403 ''admin required'', w)
      | (True, w) \<Rightarrow>
     (case decode_body update_fields no_update body of
        None \<Rightarrow> (writeError 400 ''invalid payload'', w)
      | Some req \<Rightarrow>
     (case exec (upd_group groupID (ug_name req) (ug_description req) (ug_avatar_url req)) w of
        (Inl _, w) \<Rightarrow> (writeError 500 ''update failed'', w)
      | (Inr _, w) \<Rightarrow> (writeJSON 200 ok_body, w)))))"

fun add_members :: "string \<Rightarrow> string \<Rightarrow> string list \<Rightarrow> world \<Rightarrow> bool \<times> world" where
  "add_members gid user [] w = (True, w)"
| "add_members gid user (p # ps) w =
     (case exec (ins_member gid p user) w of
        (Inl _, w1) \<Rightarrow> (False, w1)
      | (Inr _, w1) \<Rightarrow> add_members gid user ps w1)"

definition addGroupMembers :: "claims option \<Rightarrow> string \<Rightarrow> json option \<Rightarrow> world \<Rightarrow> response \<times> world" where
  "addGroupMembers ctx groupID body w =
     (case currentUserPhone ctx of
        None \<Rightarrow> (writeError 401 ''missing claims'', w)
      | Some user \<Rightarrow>
     (case isGroupAdmin groupID user w of
        (False, w) \<Rightarrow> (writeError 403 ''admin required'', w)
      | (True, w) \<Rightarrow>
     (case decode_body members_fields [] body of
        None \<Rightarrow> (writeError 400 ''invalid payload'', w)
      | Some phones \<Rightarrow>
     (case add_members groupID user (dedupeIDs phones []) w of
        (False, w) \<Rightarrow> (writeError 500 ''add member failed'', w)
      | (True, w) \<Rightarrow> (writeJSON 200 ok_body, snd (exec (touch_group groupID) w))))))"

definition removeGroupMember :: "claims option \<Rightarrow> string \<Rightarrow> string \<Rightarrow> world \<Rightarrow> response \<times> world" where
  "removeGroupMember ctx groupID targetPhone w =
     (case currentUserPhone ctx of
        None \<Rightarrow> (writeError 401 ''missing claims'', w)
      | Some user \<Rightarrow>
     (case isGroupAdmin groupID user w of
        (False, w) \<Rightarrow> (writeError 403 ''admin required'', w)
      | (True, w) \<Rightarrow>
      if targetPhone = [] then (writeError 400 ''missing phone'', w)
      else
     (case last_admin groupID targetPhone w of
        (True, w) \<Rightarrow> (writeError 400 ''cannot remove last admin'', w)
      | (False, w) \<Rightarrow>
     (case exec (del_member groupID targetPhone) w of
        (Inl _, w) \<Rightarrow> (writeError 500 ''remove failed'', w)
      | (Inr _, w) \<Rightarrow> (writeJSON 200 ok_body, snd (exec (touch_group groupID) w))))))"

definition promoteGroupAdmin :: "claims option \<Rightarrow> string \<Rightarrow> string \<Rightarrow> world \<Rightarrow> response \<times> world" where
  "promoteGroupAdmin ctx groupID targetPhone w =
     (case currentUserPhone ctx of
        None \<Rightarrow> (writeError 401 ''missing claims'', w)
      | Some user \<Rightarrow>
     (case isGroupAdmin groupID user w of
        (False, w) \<Rightarrow> (writeError 403 ''admin required'', w)
      | (True, w) \<Rightarrow>
     (case exec (upd_role groupID targetPhone ''admin'') w of
        (Inl _, w) \<Rightarrow> (writeError 500 ''promote failed'', w)
      | (Inr _, w) \<Rightarrow> (writeJSON 200 ok_body, snd (exec (touch_group groupID) w)))))"

definition demoteGroupAdmin :: "claims option \<Rightarrow> string \<Rightarrow> string \<Rightarrow> world \<Rightarrow> response \<times> world" where
  "demoteGroupAdmin ctx groupID targetPhone w =
     (case currentUserPhone ctx of
        None \<Rightarrow> (writeError 401 ''missing claims'', w)
      | Some user \<Rightarrow>
     (case isGroupAdmin groupID user w of
        (False, w) \<Rightarrow> (writeError 403 ''admin required'', w)
      | (True, w) \<Rightarrow>
     (case isGroupAdmin groupID targetPhone w of
        (False, w) \<Rightarrow> (writeError 400 ''target is not admin'', w)
      | (True, w) \<Rightarrow>
     (case adminCount groupID w of
        (n, w) \<Rightarrow>
          if n \<le> 1 then (writeError 400 ''cannot demote last admin'', w)
          else
     (case exec (upd_role groupID targetPhone ''member'') w of
        (Inl _, w) \<Rightarrow> (writeError 500 ''demote failed'', w)
      | (Inr _, w) \<Rightarrow> (writeJSON 200 ok_body, snd (exec (touch_group groupID) w)))))))"

text \<open>The promotion of a successor: a failed read or update is ignored here.\<close>

definition promote_successor :: "string \<Rightarrow> string \<Rightarrow> tx \<Rightarrow> world \<Rightarrow> tx \<times> world" where
  "promote_successor gid user t w =
     (case tx_exec (sel_successor gid user) t w of
        (Inr (Some p), t, w) \<Rightarrow> snd (tx_exec (upd_role gid p ''admin'') t w)
      | (_, t, w) \<Rightarrow> (t, w))"

definition leaveGroup :: "claims option \<Rightarrow> string \<Rightarrow> world \<Rightarrow> response \<times> world" where
  "leaveGroup ctx groupID w =
     (case currentUserPhone ctx of
        None \<Rightarrow> (writeError 401 ''missing claims'', w)
      | Some user \<Rightarrow>
      if groupID = [] then (writeError 400 ''missing group id'', w)
      else
     (case isGroupMember groupID user w of
        (False, w) \<Rightarrow> (writeError 400 ''not a group member'', w)
      | (True, w) \<Rightarrow>
     (case tx_begin w of
        (Inl _, w) \<Rightarrow> (writeError 500 ''db begin failed'', w)
      | (Inr t, w) \<Rightarrow>
     (case last_admin groupID user w of
        (alone, w) \<Rightarrow>
     (case (if alone then promote_successor groupID user t w else (t, w)) of
        (t, w) \<Rightarrow>
     (case tx_exec (del_member groupID user) t w of
        (Inl _, t, w) \<Rightarrow> (writeError 500 ''leave failed'', w)
      | (Inr _, t, w) \<Rightarrow>
     (case tx_exec (sel_member_count groupID) t w of
        (n, t, w) \<Rightarrow>
     (case snd (tx_exec (if n = Inr 0 then del_group groupID else touch_group groupID) t w) of
        (t, w) \<Rightarrow>
     (case tx_commit t w of
        (Inl _, w) \<Rightarrow> (writeError 500 ''db commit failed'', w)
      | (Inr _, w) \<Rightarrow> (writeJSON 200 ok_body, w))))))))))"

definition getGroupInvite :: "claims option \<Rightarrow> string \<Rightarrow> world \<Rightarrow> response \<times> world" where
  "getGroupInvite ctx groupID w =
     (case currentUserPhone ctx of
        None \<Rightarrow> (writeError 401 ''missing claims'', w)
      | Some user \<Rightarrow>
     (case isGroupAdmin groupID user w of
        (False, w) \<Rightarrow> (writeError 403 ''admin required'', w)
      | (True, w) \<Rightarrow>
     (case one_row (exec (sel_invite groupID) w) of
        (Inl _, w) \<Rightarrow> (writeError 404 ''group not found'', w)
      | (Inr code, w) \<Rightarrow> (writeJSON 200 (JObj [(''invite_code'', JStr code)]), w))))"

definition resetGroupInvite ::
  "(nat \<Rightarrow> 8 word list option) \<Rightarrow> claims option \<Rightarrow> string \<Rightarrow> world \<Rightarrow> response \<times> world" where
  "resetGroupInvite rand ctx groupID w =
     (case currentUserPhone ctx of
        None \<Rightarrow> (writeError 401 ''missing claims'', w)
      | Some user \<Rightarrow>
     (case isGroupAdmin groupID user w of
        (False, w) \<Rightarrow> (writeError 403 ''admin required'', w)
      | (True, w) \<Rightarrow>
     (case randomHex rand 12 of
        None \<Rightarrow> (writeError 500 ''invite generation failed'', w)
      | Some code \<Rightarrow>
     (case exec (upd_invite groupID code) w of
        (Inl _, w) \<Rightarrow> (writeError 500 ''invite reset failed'', w)
      | (Inr _, w) \<Rightarrow> (writeJSON 200 (JObj [(''invite_code'', JStr code)]), w)))))"

definition joinByInvite :: "claims option \<Rightarrow> json option \<Rightarrow> world \<Rightarrow> response \<times> world" where
  "joinByInvite ctx body w =
     (case currentUserPhone ctx of
        None \<Rightarrow> (writeError 401 ''missing claims'', w)
      | Some user \<Rightarrow>
     (case decode_body invite_fields [] body of
        None \<Rightarrow> (writeError 400 ''invalid payload'', w)
      | Some code \<Rightarrow>
     (let code = trim_space code in
      if code = [] then (writeError 400 ''invite_code is required'', w)
      else
     (case one_row (exec (sel_by_invite code) w) of
        (Inl _, w) \<Rightarrow> (writeError 400 ''invalid invite'', w)
      | (Inr groupID, w) \<Rightarrow>
     (case exec (ins_member groupID user user) w of
        (Inl _, w) \<Rightarrow> (writeError 500 ''join failed'', w)
      | (Inr _, w) \<Rightarrow>
        (writeJSON 200 (JObj [(''group_id'', JStr groupID)]), snd (exec (touch_group groupID) w)))))))"

end
