(* ===== verification/GroupRoles.thy ===== *)
theory GroupRoles
  imports GroupHandlers
begin

text \<open>
  The abstract view of a group: a map from phones to roles. The statements of GroupHandlers act on it
  as the simple updates below; \<open>role_store\<close> is that contract, interpreted on the SQL tables, and
  carries the facts about who is left in charge. \<open>healthy\<close> is what the last-admin guards are
  there for: a group that has members has an admin.
\<close>

section \<open>Role maps\<close>

type_synonym role_map = "string \<Rightarrow> string option"

definition admins :: "role_map \<Rightarrow> string set" where
  "admins m = {p. m p = Some ''admin''}"

definition led :: "role_map \<Rightarrow> bool" where
  "led m \<longleftrightarrow> (\<exists>p. m p = Some ''admin'')"

definition inhabited :: "role_map \<Rightarrow> bool" where
  "inhabited m \<longleftrightarrow> (\<exists>p. m p \<noteq> None)"

definition healthy :: "role_map \<Rightarrow> bool" where
  "healthy m \<longleftrightarrow> (inhabited m \<longrightarrow> led m)"

definition abs_enroll :: "string \<Rightarrow> role_map \<Rightarrow> role_map" where
  "abs_enroll p m = (if m p = None then m(p := Some ''member'') else m)"

definition abs_found :: "string \<Rightarrow> role_map \<Rightarrow> role_map" where
  "abs_found p m = m(p := Some ''admin'')"

definition abs_assign :: "string \<Rightarrow> string \<Rightarrow> role_map \<Rightarrow> role_map" where
  "abs_assign p r m = (if m p = None then m else m(p := Some r))"

definition abs_expel :: "string \<Rightarrow> role_map \<Rightarrow> role_map" where
  "abs_expel p m = m(p := None)"

lemma led_admins: "led m \<longleftrightarrow> admins m \<noteq> {}"
  by (auto simp: led_def admins_def)

lemma led_enroll [intro]: "led m \<Longrightarrow> led (abs_enroll p m)"
proof -
  assume "led m"
  then obtain q where "m q = Some ''admin''"
    by (auto simp: led_def)
  then have "abs_enroll p m q = Some ''admin''"
    by (auto simp: abs_enroll_def)
  then show "led (abs_enroll p m)"
    unfolding led_def by blast
qed

lemma led_found [intro, simp]: "led (abs_found p m)"
  by (auto simp: led_def abs_found_def)

lemma led_promote [intro]: "led m \<Longrightarrow> led (abs_assign p ''admin'' m)"
  by (auto simp: led_def abs_assign_def)

lemma other_admin:
  assumes "1 < card (admins m)"
  shows "\<exists>q. q \<noteq> p \<and> m q = Some ''admin''"
proof (rule ccontr)
  assume "\<not> (\<exists>q. q \<noteq> p \<and> m q = Some ''admin'')"
  then have "admins m \<subseteq> {p}"
    by (auto simp: admins_def)
  then have "card (admins m) \<le> card {p}"
    by (rule card_mono[rotated]) simp
  then show False
    using assms by simp
qed

lemma led_other: "q \<noteq> p \<Longrightarrow> m q = Some ''admin'' \<Longrightarrow> led (m(p := v))"
  by (auto simp: led_def)

lemma led_demote: "1 < card (admins m) \<Longrightarrow> led (abs_assign p ''member'' m)"
  using other_admin[of m p] by (auto simp: abs_assign_def led_def)

lemma led_expel_many: "1 < card (admins m) \<Longrightarrow> led (abs_expel p m)"
  using other_admin[of m p] by (auto simp: abs_expel_def led_def)

lemma led_expel_member: "led m \<Longrightarrow> m p \<noteq> Some ''admin'' \<Longrightarrow> led (abs_expel p m)"
  by (auto simp: abs_expel_def led_def)

lemma led_healthy: "led m \<Longrightarrow> healthy m"
  by (simp add: healthy_def)

section \<open>The contract of the membership table\<close>

locale role_store =
  fixes ok :: "'d \<Rightarrow> bool"
    and role :: "'d \<Rightarrow> string \<Rightarrow> role_map"
    and is_admin :: "'d \<Rightarrow> string \<Rightarrow> string \<Rightarrow> bool"
    and admin_total :: "'d \<Rightarrow> string \<Rightarrow> nat"
    and enroll :: "string \<Rightarrow> string \<Rightarrow> 'd \<Rightarrow> 'd"
    and found :: "string \<Rightarrow> string \<Rightarrow> 'd \<Rightarrow> 'd"
    and assign :: "string \<Rightarrow> string \<Rightarrow> string \<Rightarrow> 'd \<Rightarrow> 'd"
    and expel :: "string \<Rightarrow> string \<Rightarrow> 'd \<Rightarrow> 'd"
  assumes is_admin_role: "ok d \<Longrightarrow> is_admin d g p \<longleftrightarrow> role d g p = Some ''admin''"
    and admin_total_card: "ok d \<Longrightarrow> admin_total d g = card (admins (role d g))"
    and enroll_role: "role (enroll g p d) = (role d)(g := abs_enroll p (role d g))"
    and found_role: "role (found g p d) = (role d)(g := abs_found p (role d g))"
    and assign_role: "role (assign g p r d) = (role d)(g := abs_assign p r (role d g))"
    and expel_role: "role (expel g p d) = (role d)(g := abs_expel p (role d g))"
begin

lemma enroll_led: "led (role d g') \<Longrightarrow> led (role (enroll g p d) g')"
  by (auto simp: enroll_role)

lemma enroll_all_led: "led (role d g') \<Longrightarrow> led (role (fold (enroll g) ps d) g')"
  by (induction ps arbitrary: d) (auto intro: enroll_led)

lemma promote_led: "led (role d g') \<Longrightarrow> led (role (assign g p ''admin'' d) g')"
  by (auto simp: assign_role)

lemma guarded_demote_led:
  "ok d \<Longrightarrow> 1 < admin_total d g \<Longrightarrow> led (role d g') \<Longrightarrow> led (role (assign g p ''member'' d) g')"
  by (auto simp: assign_role admin_total_card led_demote)

lemma guarded_expel_led:
  "ok d \<Longrightarrow> \<not> (is_admin d g p \<and> admin_total d g \<le> 1) \<Longrightarrow> led (role d g') \<Longrightarrow> led (role (expel g p d) g')"
  by (auto simp: expel_role admin_total_card is_admin_role not_le led_expel_many led_expel_member)

text \<open>What a last admin's departure leaves: nobody, or a promoted successor.\<close>

lemma hand_over_healthy:
  assumes "case succ of None \<Rightarrow> \<forall>q. q \<noteq> p \<longrightarrow> role d g q = None | Some s \<Rightarrow> s \<noteq> p \<and> role d g s \<noteq> None"
  shows "healthy (role (expel g p (case succ of None \<Rightarrow> d | Some s \<Rightarrow> assign g s ''admin'' d)) g)"
proof (cases succ)
  case None
  with assms show ?thesis
    by (auto simp: expel_role healthy_def inhabited_def abs_expel_def)
next
  case (Some s)
  with assms have "(abs_expel p (abs_assign s ''admin'' (role d g))) s = Some ''admin''"
    by (simp add: abs_expel_def abs_assign_def)
  then have "led (abs_expel p (abs_assign s ''admin'' (role d g)))"
    unfolding led_def by blast
  with Some show ?thesis
    by (simp add: expel_role assign_role led_healthy)
qed

end

section \<open>The SQL tables keep the contract\<close>

definition role_of :: "db \<Rightarrow> string \<Rightarrow> role_map" where
  "role_of d gid p = map_option gm_role (find (member_row gid p) (group_members d))"

definition table_is_admin :: "db \<Rightarrow> string \<Rightarrow> string \<Rightarrow> bool" where
  "table_is_admin d gid p \<longleftrightarrow> (\<exists>r\<in>set (group_members d). member_row gid p r \<and> gm_role r = ''admin'')"

definition table_admins :: "db \<Rightarrow> string \<Rightarrow> nat" where
  "table_admins d gid = length (filter (\<lambda>r. gm_group_id r = gid \<and> gm_role r = ''admin'') (group_members d))"

definition run :: "unit stmt \<Rightarrow> pg_env \<Rightarrow> db \<Rightarrow> db" where
  "run stmt e d = effect_of stmt e d"

lemma run_writing [simp]: "run (writing f) e d = f e d"
  by (simp add: run_def)

lemma member_row_simps [simp]:
  "member_row g p \<lparr>gm_group_id = g', gm_user_phone = p', gm_created_at = t, gm_role = r, gm_added_by = a\<rparr>
     \<longleftrightarrow> g' = g \<and> p' = p"
  "member_row g p (r'\<lparr>gm_role := x\<rparr>) = member_row g p r'"
  by (auto simp: member_row_def)

lemma member_row_eqD: "member_row g p r \<Longrightarrow> member_row g' p' r \<Longrightarrow> g' = g \<and> p' = p"
  by (auto simp: member_row_def)

lemma role_of_members: "group_members d' = group_members d \<Longrightarrow> role_of d' = role_of d"
  by (simp add: role_of_def fun_eq_iff)

lemma role_of_ins_member:
  "role_of (run (ins_member g p by) e d) = (role_of d)(g := abs_enroll p (role_of d g))"
proof (intro ext)
  fix g' q
  show "role_of (run (ins_member g p by) e d) g' q = ((role_of d)(g := abs_enroll p (role_of d g))) g' q"
  proof (cases "g' = g \<and> q = p")
    case True
    then show ?thesis
      by (simp add: role_of_def ins_member_def abs_enroll_def find_upsert_hit split: option.split)
  next
    case False
    have "find (member_row g' q) (upsert (member_row g p) (\<lambda>r. r) r rows) = find (member_row g' q) rows"
      if "member_row g p r" for r rows
      using False that by (intro find_upsert_other) (auto simp: member_row_def)
    then show ?thesis
      using False by (auto simp: role_of_def ins_member_def abs_enroll_def)
  qed
qed

lemma role_of_ins_creator:
  "role_of (run (ins_creator g p) e d) = (role_of d)(g := abs_found p (role_of d g))"
proof (intro ext)
  fix g' q
  show "role_of (run (ins_creator g p) e d) g' q = ((role_of d)(g := abs_found p (role_of d g))) g' q"
  proof (cases "g' = g \<and> q = p")
    case True
    then show ?thesis
      by (simp add: role_of_def ins_creator_def abs_found_def find_upsert_hit split: option.split)
  next
    case False
    have "find (member_row g' q) (upsert (member_row g p) (\<lambda>r. r\<lparr>gm_role := ''admin''\<rparr>) r rows) = find (member_row g' q) rows"
      if "member_row g p r" for r rows
      using False that by (intro find_upsert_other) (auto simp: member_row_def)
    then show ?thesis
      using False by (auto simp: role_of_def ins_creator_def abs_found_def)
  qed
qed

lemma role_of_upd_role:
  "role_of (run (upd_role g p r) e d) = (role_of d)(g := abs_assign p r (role_of d g))"
proof (intro ext)
  fix g' q
  show "role_of (run (upd_role g p r) e d) g' q = ((role_of d)(g := abs_assign p r (role_of d g))) g' q"
  proof (cases "g' = g \<and> q = p")
    case True
    then show ?thesis
      by (auto simp: role_of_def upd_role_def abs_assign_def find_map_if_hit)
  next
    case False
    then have "find (member_row g' q) (map (\<lambda>x. if member_row g p x then x\<lparr>gm_role := r\<rparr> else x) rows)
        = find (member_row g' q) rows" for rows
      by (intro find_map_if_other) (auto simp: member_row_def)
    then show ?thesis
      using False by (auto simp: role_of_def upd_role_def abs_assign_def)
  qed
qed

lemma find_filter_not_row:
  "find (member_row g' q) (filter (\<lambda>r. \<not> member_row g p r) rows) =
     (if g' = g \<and> q = p then None else find (member_row g' q) rows)"
  by (induction rows) (auto dest: member_row_eqD)

lemma role_of_del_member:
  "role_of (run (del_member g p) e d) = (role_of d)(g := abs_expel p (role_of d g))"
  by (intro ext) (auto simp: role_of_def del_member_def abs_expel_def find_filter_not_row)

lemma find_member_row:
  assumes "distinct (map (\<lambda>r. (gm_group_id r, gm_user_phone r)) rows)" and "r \<in> set rows"
  shows "find (member_row (gm_group_id r) (gm_user_phone r)) rows = Some r"
  using assms by (induction rows) (auto simp: member_row_def)

lemma role_of_row:
  assumes "db_ok d" and "r \<in> set (group_members d)"
  shows "role_of d (gm_group_id r) (gm_user_phone r) = Some (gm_role r)"
  using find_member_row[OF db_ok_keys(7)[OF assms(1)] assms(2)] by (simp add: role_of_def)

lemma role_of_Some: "role_of d g p = Some x \<Longrightarrow> \<exists>r\<in>set (group_members d). member_row g p r \<and> gm_role r = x"
  unfolding role_of_def
  by (cases "find (member_row g p) (group_members d)") (auto simp: find_Some_iff intro!: bexI)

lemma role_of_member: "role_of d g p \<noteq> None \<longleftrightarrow> (\<exists>r\<in>set (group_members d). member_row g p r)"
  by (auto simp: role_of_def find_None_iff)

lemma table_is_admin_role: "db_ok d \<Longrightarrow> table_is_admin d g p \<longleftrightarrow> role_of d g p = Some ''admin''"
proof
  assume ok: "db_ok d"
  assume "table_is_admin d g p"
  then obtain r where "r \<in> set (group_members d)" "member_row g p r" "gm_role r = ''admin''"
    unfolding table_is_admin_def by blast
  with role_of_row[OF ok] show "role_of d g p = Some ''admin''"
    by (fastforce simp: member_row_def)
next
  assume "role_of d g p = Some ''admin''"
  then show "table_is_admin d g p"
    unfolding table_is_admin_def by (rule role_of_Some)
qed

lemma table_admins_card:
  assumes "db_ok d"
  shows "table_admins d g = card (admins (role_of d g))"
proof -
  let ?rows = "filter (\<lambda>r. gm_group_id r = g \<and> gm_role r = ''admin'') (group_members d)"
  have "distinct (map (\<lambda>r. (gm_group_id r, gm_user_phone r)) ?rows)"
    by (rule distinct_map_filter_rows) (rule db_ok_keys(7)[OF assms])
  then have "distinct (map gm_user_phone ?rows)"
    by (auto simp: distinct_map inj_on_def)
  then have "length ?rows = card (gm_user_phone ` set ?rows)"
    using distinct_card by fastforce
  moreover have "gm_user_phone ` set ?rows = admins (role_of d g)"
  proof -
    have "admins (role_of d g) = {p. table_is_admin d g p}"
      using table_is_admin_role[OF assms] by (simp add: admins_def)
    also have "\<dots> = gm_user_phone ` set ?rows"
      unfolding table_is_admin_def member_row_def image_def set_filter by blast
    finally show ?thesis by simp
  qed
  ultimately show ?thesis
    by (simp add: table_admins_def)
qed

interpretation member_table: role_store db_ok role_of table_is_admin table_admins
    "\<lambda>g p. run (ins_member g p by) e" "\<lambda>g p. run (ins_creator g p) e"
    "\<lambda>g p r. run (upd_role g p r) e" "\<lambda>g p. run (del_member g p) e"
  for "by" e
  by unfold_locales
    (auto simp: table_is_admin_role table_admins_card role_of_ins_member role_of_ins_creator
      role_of_upd_role role_of_del_member)

section \<open>The statements keep the constraints\<close>

lemma distinct_upsert_member:
  assumes "distinct (map (\<lambda>r. (gm_group_id r, gm_user_phone r)) rows)" and "member_row g p r"
    and "\<And>x. member_row (gm_group_id x) (gm_user_phone x) (f x)"
  shows "distinct (map (\<lambda>r. (gm_group_id r, gm_user_phone r)) (upsert (member_row g p) f r rows))"
  using assms by (intro distinct_upsert) (auto simp: member_row_def)

lemma keeps_ins_member [intro]: "keeps_db_ok (ins_member g p by)"
proof (rule keeps_db_okI)
  fix e d r d'
  assume ok: "db_ok d" and run: "ins_member g p by e d = Inr (r, d')"
  show "db_ok d'"
    using run db_ok_rows(4)[OF ok]
    by (simp add: ins_member_def writing_def)
      (hypsubst, rule db_ok_set_members[OF ok distinct_upsert_member[OF db_ok_keys(7)[OF ok]] upsert_all];
        simp add: member_row_def roles_def)
qed

lemma keeps_ins_creator [intro]: "keeps_db_ok (ins_creator g p)"
proof (rule keeps_db_okI)
  fix e d r d'
  assume ok: "db_ok d" and run: "ins_creator g p e d = Inr (r, d')"
  show "db_ok d'"
    using run db_ok_rows(4)[OF ok]
    by (simp add: ins_creator_def writing_def)
      (hypsubst, rule db_ok_set_members[OF ok distinct_upsert_member[OF db_ok_keys(7)[OF ok]] upsert_all];
        simp add: member_row_def roles_def)
qed

lemma keeps_upd_role [intro]:
  assumes "x \<in> set roles"
  shows "keeps_db_ok (upd_role g p x)"
proof (rule keeps_db_okI)
  fix e d r d'
  assume ok: "db_ok d" and run: "upd_role g p x e d = Inr (r, d')"
  have "distinct (map (\<lambda>r. (gm_group_id r, gm_user_phone r))
     (map (\<lambda>r. if member_row g p r then r\<lparr>gm_role := x\<rparr> else r) (group_members d)))"
    using db_ok_keys(7)[OF ok]
    by (subst map_if_keep[of "\<lambda>r. (gm_group_id r, gm_user_phone r)"]) simp_all
  then show "db_ok d'"
    using run db_ok_rows(4)[OF ok] assms
    by (simp add: upd_role_def writing_def) (hypsubst, rule db_ok_set_members[OF ok]; auto)
qed

lemma keeps_del_member [intro]: "keeps_db_ok (del_member g p)"
  by (rule keeps_db_okI)
    (auto simp: del_member_def writing_def intro!: db_ok_set_members distinct_map_filter_rows db_ok_keys
      dest: db_ok_rows(4))

lemma keeps_del_group [intro]: "keeps_db_ok (del_group g)"
  by (rule keeps_db_okI)
    (auto simp: del_group_def writing_def intro!: db_ok_set_groups distinct_map_filter_rows db_ok_keys)

lemma db_ok_upd_group:
  assumes "db_ok d" and "\<And>x. g_id (f x) = g_id x" and "\<And>x. g_invite_code (f x) = g_invite_code x"
  shows "db_ok (upd_group_where g f d)"
  using db_ok_keys(8,9)[OF assms(1)] unfolding upd_group_where_def
  by (intro db_ok_set_groups assms)
    (simp_all add: map_if_keep[of g_id f] map_if_keep[of g_invite_code f] assms(2,3) del: map_map)

lemma keeps_touch_group [intro]: "keeps_db_ok (touch_group g)"
  by (rule keeps_db_okI) (auto simp: touch_group_def writing_def intro: db_ok_upd_group)

lemma keeps_upd_group [intro]: "keeps_db_ok (upd_group g n ds a)"
  by (rule keeps_db_okI) (auto simp: upd_group_def writing_def intro: db_ok_upd_group)

lemma keeps_ins_group [intro]: "keeps_db_ok (ins_group g n ds a p c)"
  by (rule keeps_db_okI)
    (auto simp: ins_group_def split: if_splits intro!: db_ok_set_groups dest: db_ok_keys(8,9))

lemma distinct_map_upd_one:
  assumes "distinct (map k xs)" and "distinct (map j xs)"
    and "\<And>x. x \<in> set xs \<Longrightarrow> k x \<noteq> a \<Longrightarrow> j x \<noteq> c" and "\<And>x. j (f x) = c"
  shows "distinct (map j (map (\<lambda>x. if k x = a then f x else x) xs))"
  using assms by (induction xs) (auto simp: image_iff)

lemma keeps_upd_invite [intro]: "keeps_db_ok (upd_invite g c)"
proof (rule keeps_db_okI)
  fix e d r d'
  assume ok: "db_ok d" and run: "upd_invite g c e d = Inr (r, d')"
  let ?f = "\<lambda>x. x\<lparr>g_invite_code := c, g_updated_at := pg_now e\<rparr>"
  have d': "d' = upd_group_where g ?f d"
    and free: "(\<forall>x\<in>set (groups d). g_id x \<noteq> g) \<or> (\<forall>x\<in>set (groups d). g_id x \<noteq> g \<longrightarrow> g_invite_code x \<noteq> c)"
    using run by (auto simp: upd_invite_def split: if_splits)
  show "db_ok d'"
  proof (cases "\<forall>x\<in>set (groups d). g_id x \<noteq> g")
    case True
    then have "map (\<lambda>x. if g_id x = g then ?f x else x) (groups d) = groups d"
      by (intro map_idI) auto
    then show ?thesis
      using ok by (simp add: d' upd_group_where_def)
  next
    case False
    with free have other: "\<And>x. x \<in> set (groups d) \<Longrightarrow> g_id x \<noteq> g \<Longrightarrow> g_invite_code x \<noteq> c"
      by blast
    have "distinct (map g_invite_code (map (\<lambda>x. if g_id x = g then ?f x else x) (groups d)))"
      by (rule distinct_map_upd_one[where c = c, OF db_ok_keys(8)[OF ok] db_ok_keys(9)[OF ok] other]) simp_all
    moreover have "distinct (map g_id (map (\<lambda>x. if g_id x = g then ?f x else x) (groups d)))"
      using db_ok_keys(8)[OF ok] by (subst map_if_keep[of g_id ?f]) simp_all
    ultimately show ?thesis
      unfolding d' upd_group_where_def by (intro db_ok_set_groups ok)
  qed
qed

lemma keeps_selects [intro]:
  "keeps_db_ok (sel_is_member g p)" "keeps_db_ok (sel_is_admin g p)" "keeps_db_ok (sel_admin_count g)"
  "keeps_db_ok (sel_member_count g)" "keeps_db_ok (sel_successor g p)" "keeps_db_ok (sel_invite g)"
  "keeps_db_ok (sel_by_invite c)" "keeps_db_ok (sel_group g)" "keeps_db_ok (sel_members g)"
  "keeps_db_ok (sel_my_groups p)"
  by (simp_all add: sel_is_member_def sel_is_admin_def sel_admin_count_def sel_member_count_def
      sel_successor_def sel_invite_def sel_by_invite_def sel_group_def sel_members_def sel_my_groups_def)

end
