(* ===== verification/GroupProps.thy ===== *)
theory GroupProps
  imports GroupRoles
begin

text \<open>
  The requests to the group handlers and what every statement they run keeps: the constraints of the
  tables (\<open>guarded\<close>), with calls failing and other sessions writing. The rules \<open>after_...\<close> walk through a
  handler's case distinctions, so each handler's lemma lists the statements it runs. GroupRefinement
  and GroupInvariant build on this to follow the roles from request to request.
\<close>

section \<open>The requests\<close>

datatype group_request =
    Create_group "nat \<Rightarrow> 8 word list option" int "json option"
  | List_groups rows_end
  | Get_group rows_end string
  | Update_group string "json option"
  | Add_members string "json option"
  | Remove_member string string
  | Promote_admin string string
  | Demote_admin string string
  | Leave_group string
  | Get_invite string
  | Reset_invite "nat \<Rightarrow> 8 word list option" string
  | Join_by_invite "json option"

fun serve_group :: "claims option \<Rightarrow> group_request \<Rightarrow> world \<Rightarrow> response \<times> world" where
  "serve_group ctx (Create_group rand nano body) w = createGroup rand nano ctx body w"
| "serve_group ctx (List_groups ends) w = listGroups ends ctx w"
| "serve_group ctx (Get_group ends gid) w = getGroup ends ctx gid w"
| "serve_group ctx (Update_group gid body) w = updateGroup ctx gid body w"
| "serve_group ctx (Add_members gid body) w = addGroupMembers ctx gid body w"
| "serve_group ctx (Remove_member gid p) w = removeGroupMember ctx gid p w"
| "serve_group ctx (Promote_admin gid p) w = promoteGroupAdmin ctx gid p w"
| "serve_group ctx (Demote_admin gid p) w = demoteGroupAdmin ctx gid p w"
| "serve_group ctx (Leave_group gid) w = leaveGroup ctx gid w"
| "serve_group ctx (Get_invite gid) w = getGroupInvite ctx gid w"
| "serve_group ctx (Reset_invite rand gid) w = resetGroupInvite rand ctx gid w"
| "serve_group ctx (Join_by_invite body) w = joinByInvite ctx body w"

fun serve_groups :: "(claims option \<times> group_request) list \<Rightarrow> world \<Rightarrow> world" where
  "serve_groups [] w = w"
| "serve_groups ((ctx, rq) # rqs) w = serve_groups rqs (snd (serve_group ctx rq w))"

section \<open>A small store\<close>

definition ann_and_bob :: "string \<Rightarrow> db" where
  "ann_and_bob bobs_role = no_rows\<lparr>
     groups := [\<lparr>g_id = ''g'', g_name = ''n'', g_description = None, g_avatar_url = None, g_created_by_phone = ''ann'',
       g_invite_code = ''c'', g_created_at = 1, g_updated_at = 1\<rparr>],
     group_members :=
       [\<lparr>gm_group_id = ''g'', gm_user_phone = ''ann'', gm_created_at = 1, gm_role = ''admin'', gm_added_by = Some ''ann''\<rparr>,
        \<lparr>gm_group_id = ''g'', gm_user_phone = ''bob'', gm_created_at = 2, gm_role = bobs_role, gm_added_by = Some ''ann''\<rparr>]\<rparr>"

lemma ann_and_bob_ok: "r \<in> set roles \<Longrightarrow> db_ok (ann_and_bob r)"
  by (simp add: ann_and_bob_def no_rows_def db_ok_def keys_ok_def refs_ok_def checks_ok_def roles_def)

lemma ann_and_bob_simps [simp]:
  "db_ok (ann_and_bob ''member'')" "db_ok (ann_and_bob ''admin'')"
  "role_of (ann_and_bob r) ''g'' = [''ann'' \<mapsto> ''admin'', ''bob'' \<mapsto> r]"
  "g \<noteq> ''g'' \<Longrightarrow> role_of (ann_and_bob r) g = Map.empty"
  "g_id ` set (groups (ann_and_bob r)) = {''g''}"
  by (simp_all add: ann_and_bob_ok roles_def)
    (auto simp: ann_and_bob_def no_rows_def role_of_def member_row_def fun_eq_iff)

definition signed :: "string \<Rightarrow> claims option" where
  "signed phone = Some \<lparr>cl_email = [], cl_user_metadata = [], cl_phone = phone\<rparr>"

lemma signed_phone: "p \<noteq> [] \<Longrightarrow> printable (hd p) \<Longrightarrow> printable (last p) \<Longrightarrow> currentUserPhone (signed p) = Some p"
  by (simp add: currentUserPhone_def signed_def trim_space_printable)

lemma signed_ann_bob [simp]:
  "currentUserPhone (signed ''ann'') = Some ''ann''" "currentUserPhone (signed ''bob'') = Some ''bob''"
  by (simp_all add: signed_phone printable_def)

section \<open>Constraints under faults and interference\<close>

text \<open>
  One rule per kind of call: the rest of a handler may assume that the constraints hold after
  the call, whatever it answered. They follow the shape of the handlers, so \<^verbatim>\<open>intro\<close> walks
  through one.
\<close>

lemma after_exec:
  assumes "guarded h w" and "keeps_db_ok s" and "\<And>r w1. guarded h w1 \<Longrightarrow> guarded h (snd (F r w1))"
  shows "guarded h (snd (case exec s w of (r, w1) \<Rightarrow> F r w1))"
  using guarded_exec[OF assms(1,2)] assms(3) by (simp split: prod.split) (metis snd_conv)

lemma after_row:
  assumes "guarded h w" and "keeps_db_ok s" and "\<And>r w1. guarded h w1 \<Longrightarrow> guarded h (snd (F r w1))"
  shows "guarded h (snd (case one_row (exec s w) of (r, w1) \<Rightarrow> F r w1))"
  using guarded_exec[OF assms(1,2)] assms(3) guarded_one_row[of "exec s w"]
  by (cases "one_row (exec s w)") simp

lemma after_case_sum:
  "(\<And>e. guarded h (snd (f e))) \<Longrightarrow> (\<And>x. guarded h (snd (g x))) \<Longrightarrow>
   guarded h (snd (case r of Inl e \<Rightarrow> f e | Inr x \<Rightarrow> g x))"
  by (cases r) auto

lemma after_case_option:
  "guarded h (snd f) \<Longrightarrow> (\<And>x. guarded h (snd (g x))) \<Longrightarrow>
   guarded h (snd (case r of None \<Rightarrow> f | Some x \<Rightarrow> g x))"
  by (cases r) auto

lemma after_case_bool:
  "guarded h (snd f) \<Longrightarrow> guarded h (snd g) \<Longrightarrow> guarded h (snd (case b of True \<Rightarrow> f | False \<Rightarrow> g))"
  by (cases b) auto

lemma after_if:
  "guarded h (snd f) \<Longrightarrow> guarded h (snd g) \<Longrightarrow> guarded h (snd (if b then f else g))"
  by simp

lemma after_let: "guarded h (snd (F x)) \<Longrightarrow> guarded h (snd (let y = x in F y))"
  by simp

lemma after_pair: "guarded h (snd (f a b)) \<Longrightarrow> guarded h (snd (case (a, b) of (x, y) \<Rightarrow> f x y))"
  by simp

lemma after_case_prod: "(\<And>a b. guarded h (snd (f a b))) \<Longrightarrow> guarded h (snd (case x of (a, b) \<Rightarrow> f a b))"
  by (cases x) simp

lemma after_case_error:
  "(e = No_rows \<Longrightarrow> guarded h (snd a)) \<Longrightarrow> (e \<noteq> No_rows \<Longrightarrow> guarded h (snd b)) \<Longrightarrow>
   guarded h (snd (case e of No_rows \<Rightarrow> a | _ \<Rightarrow> b))"
  by (cases e) auto

lemma after_done: "guarded h w \<Longrightarrow> guarded h (snd (r, w))"
  by simp

lemmas after_control = after_case_sum after_case_option after_case_bool after_if after_let after_pair after_case_error after_done

lemma guarded_read_bool:
  assumes "guarded h w" and "keeps_db_ok s"
  shows "guarded h (snd (case exec s w of (Inl _, w1) \<Rightarrow> (c, w1) | (Inr b, w1) \<Rightarrow> (b, w1)))"
  using assms by (intro after_exec after_control)

lemma guarded_helpers:
  assumes "guarded h w"
  shows "guarded h (snd (isGroupMember g p w))" "guarded h (snd (isGroupAdmin g p w))"
    "guarded h (snd (adminCount g w))"
  using assms unfolding isGroupMember_def isGroupAdmin_def adminCount_def
  by (auto intro!: guarded_read_bool)

lemma after_call:
  assumes "guarded h (snd c)" and "\<And>r w1. guarded h w1 \<Longrightarrow> guarded h (snd (F r w1))"
  shows "guarded h (snd (case c of (r, w1) \<Rightarrow> F r w1))"
  using assms by (cases c) simp

lemma guarded_last_admin: "guarded h w \<Longrightarrow> guarded h (snd (last_admin g p w))"
  unfolding last_admin_def by (intro after_call[OF guarded_helpers(2)] after_call[OF guarded_helpers(3)] after_control)

lemma guarded_add_members: "guarded h w \<Longrightarrow> guarded h (snd (add_members g u ps w))"
proof (induction ps arbitrary: w)
  case Nil
  then show ?case by simp
next
  case (Cons p ps)
  then show ?case
    by (simp, intro after_exec after_control keeps_ins_member)
qed

lemma after_begin:
  assumes "guarded h w" and "\<And>e w1. guarded h w1 \<Longrightarrow> guarded h (snd (f e w1))"
    and "\<And>t w1. guarded h w1 \<Longrightarrow> guarded_tx t \<Longrightarrow> guarded h (snd (g t w1))"
  shows "guarded h (snd (case tx_begin w of (r, w1) \<Rightarrow> (case r of Inl e \<Rightarrow> f e w1 | Inr t \<Rightarrow> g t w1)))"
  using guarded_tx_begin[OF assms(1)] assms(2,3) by (cases "tx_begin w") (auto split: sum.split)

lemma after_tx_exec:
  assumes "guarded h w" and "guarded_tx t" and "keeps_db_ok s"
    and "\<And>r t1 w1. guarded h w1 \<Longrightarrow> guarded_tx t1 \<Longrightarrow> guarded h (snd (F r (t1, w1)))"
  shows "guarded h (snd (case tx_exec s t w of (r, p) \<Rightarrow> F r p))"
  using guarded_tx_exec[OF assms(1-3)] assms(4) by (cases "tx_exec s t w") auto

lemma after_tx_exec_ignored:
  assumes "guarded h w" and "guarded_tx t" and "keeps_db_ok s"
    and "\<And>t1 w1. guarded h w1 \<Longrightarrow> guarded_tx t1 \<Longrightarrow> guarded h (snd (F t1 w1))"
  shows "guarded h (snd (case snd (tx_exec s t w) of (t1, w1) \<Rightarrow> F t1 w1))"
  using guarded_tx_exec[OF assms(1-3)] assms(4) by (cases "tx_exec s t w") auto

lemma after_commit:
  assumes "guarded h w" and "guarded_tx t" and "\<And>r w1. guarded h w1 \<Longrightarrow> guarded h (snd (F r w1))"
  shows "guarded h (snd (case tx_commit t w of (r, w1) \<Rightarrow> F r w1))"
  using guarded_tx_commit[OF assms(1,2)] assms(3) by (cases "tx_commit t w") auto

lemma guarded_tx_add_members:
  "tx_add_members g u ps t w = (b, t', w') \<Longrightarrow> guarded h w \<Longrightarrow> guarded_tx t \<Longrightarrow> guarded h w' \<and> guarded_tx t'"
proof (induction ps arbitrary: t w)
  case Nil
  then show ?case by simp
next
  case (Cons p ps)
  obtain r t1 w1 where step: "tx_exec (ins_member g p u) t w = (r, t1, w1)"
    by (cases "tx_exec (ins_member g p u) t w")
  have "guarded h w1 \<and> guarded_tx t1"
    by (rule guarded_tx_exec[OF Cons.prems(2,3) keeps_ins_member step])
  with Cons step show ?case
    by (cases r) auto
qed

lemma after_tx_add_members:
  assumes "guarded h w" and "guarded_tx t"
    and "\<And>r t1 w1. guarded h w1 \<Longrightarrow> guarded_tx t1 \<Longrightarrow> guarded h (snd (F r (t1, w1)))"
  shows "guarded h (snd (case tx_add_members g u ps t w of (r, p) \<Rightarrow> F r p))"
proof -
  obtain r t1 w1 where call: "tx_add_members g u ps t w = (r, t1, w1)"
    by (cases "tx_add_members g u ps t w")
  show ?thesis
    using guarded_tx_add_members[OF call assms(1,2)] assms(3) by (simp add: call)
qed

lemma guarded_promote_successor:
  assumes "guarded h w" and "guarded_tx t" and "promote_successor g u t w = (t', w')"
  shows "guarded h w' \<and> guarded_tx t'"
proof -
  obtain r t1 w1 where step: "tx_exec (sel_successor g u) t w = (r, t1, w1)"
    by (cases "tx_exec (sel_successor g u) t w")
  have one: "guarded h w1 \<and> guarded_tx t1"
    by (rule guarded_tx_exec[OF assms(1,2) keeps_selects(5) step])
  show ?thesis
  proof (cases "\<exists>p. r = Inr (Some p)")
    case True
    then obtain p where "r = Inr (Some p)" by blast
    with assms(3) step have "snd (tx_exec (upd_role g p ''admin'') t1 w1) = (t', w')"
      by (simp add: promote_successor_def)
    moreover have "keeps_db_ok (upd_role g p ''admin'')"
      by (rule keeps_upd_role) (simp add: roles_def)
    ultimately show ?thesis
      using guarded_tx_exec one by (metis prod.collapse)
  next
    case False
    with assms(3) step one show ?thesis
      by (auto simp: promote_successor_def split: sum.splits option.splits)
  qed
qed

lemma after_promote_successor:
  assumes "guarded h w" and "guarded_tx t"
    and "\<And>t1 w1. guarded h w1 \<Longrightarrow> guarded_tx t1 \<Longrightarrow> guarded h (snd (F t1 w1))"
  shows "guarded h (snd (case (if b then promote_successor g u t w else (t, w)) of (t1, w1) \<Rightarrow> F t1 w1))"
proof (cases b)
  case True
  then show ?thesis
    using guarded_promote_successor[OF assms(1,2)] assms(3)
    by (cases "promote_successor g u t w") auto
qed (use assms in simp)

lemma guarded_touch: "guarded h w \<Longrightarrow> guarded h (snd (exec (touch_group g) w))"
  by (rule guarded_exec) auto

lemmas after_statement = after_exec after_row after_begin after_tx_exec after_tx_add_members after_commit
  after_tx_exec_ignored after_promote_successor

lemma guarded_createGroup: "guarded h w \<Longrightarrow> guarded h (snd (createGroup rand nano ctx body w))"
  unfolding createGroup_def
  by (intro after_control after_statement keeps_ins_group keeps_ins_creator)

lemma guarded_listGroups: "guarded h w \<Longrightarrow> guarded h (snd (listGroups ends ctx w))"
  unfolding listGroups_def
  by (intro after_control after_statement keeps_selects; assumption?) (intro after_case_prod after_control)

lemma guarded_getGroup: "guarded h w \<Longrightarrow> guarded h (snd (getGroup ends ctx g w))"
  unfolding getGroup_def
  by (intro after_call[OF guarded_helpers(1)] after_control after_statement keeps_selects; assumption?)
    (intro after_case_prod after_exec after_control keeps_selects)

lemma guarded_updateGroup: "guarded h w \<Longrightarrow> guarded h (snd (updateGroup ctx g body w))"
  unfolding updateGroup_def
  by (intro after_call[OF guarded_helpers(2)] after_control after_statement keeps_upd_group)

lemma guarded_addGroupMembers: "guarded h w \<Longrightarrow> guarded h (snd (addGroupMembers ctx g body w))"
  unfolding addGroupMembers_def
  by (intro after_call[OF guarded_helpers(2)] after_call[OF guarded_add_members] after_control guarded_touch)

lemma guarded_removeGroupMember: "guarded h w \<Longrightarrow> guarded h (snd (removeGroupMember ctx g p w))"
  unfolding removeGroupMember_def
  by (intro after_call[OF guarded_helpers(2)] after_call[OF guarded_last_admin] after_control after_exec
      keeps_del_member guarded_touch)

lemma guarded_promoteGroupAdmin: "guarded h w \<Longrightarrow> guarded h (snd (promoteGroupAdmin ctx g p w))"
  unfolding promoteGroupAdmin_def
  by (intro after_call[OF guarded_helpers(2)] after_control after_exec keeps_upd_role guarded_touch;
      simp add: roles_def)

lemma guarded_demoteGroupAdmin: "guarded h w \<Longrightarrow> guarded h (snd (demoteGroupAdmin ctx g p w))"
  unfolding demoteGroupAdmin_def
  by (intro after_call[OF guarded_helpers(2)] after_call[OF guarded_helpers(3)] after_control after_exec
      keeps_upd_role guarded_touch; simp add: roles_def)

lemma keeps_last: "keeps_db_ok (if b then del_group g else touch_group g)"
  by (simp add: keeps_del_group keeps_touch_group)

lemma guarded_leaveGroup: "guarded h w \<Longrightarrow> guarded h (snd (leaveGroup ctx g w))"
  unfolding leaveGroup_def
  by (intro after_call[OF guarded_helpers(1)] after_call[OF guarded_last_admin] after_control after_statement
      keeps_del_member keeps_selects keeps_last; assumption?)

lemma guarded_getGroupInvite: "guarded h w \<Longrightarrow> guarded h (snd (getGroupInvite ctx g w))"
  unfolding getGroupInvite_def
  by (intro after_call[OF guarded_helpers(2)] after_control after_statement keeps_selects)

lemma guarded_resetGroupInvite: "guarded h w \<Longrightarrow> guarded h (snd (resetGroupInvite rand ctx g w))"
  unfolding resetGroupInvite_def
  by (intro after_call[OF guarded_helpers(2)] after_control after_statement keeps_upd_invite)

lemma guarded_joinByInvite: "guarded h w \<Longrightarrow> guarded h (snd (joinByInvite ctx body w))"
  unfolding joinByInvite_def
  by (intro after_control after_statement keeps_selects keeps_ins_member guarded_touch)

lemmas guarded_handlers = guarded_createGroup guarded_listGroups guarded_getGroup guarded_updateGroup
  guarded_addGroupMembers guarded_removeGroupMember guarded_promoteGroupAdmin guarded_demoteGroupAdmin
  guarded_leaveGroup guarded_getGroupInvite guarded_resetGroupInvite guarded_joinByInvite

lemma guarded_serve_group: "guarded h w \<Longrightarrow> guarded h (snd (serve_group ctx rq w))"
  by (cases rq) (simp_all add: guarded_handlers)

lemma guarded_serve_groups: "guarded h w \<Longrightarrow> guarded h (serve_groups rqs w)"
  by (induction rqs w rule: serve_groups.induct) (simp_all add: guarded_serve_group)

end
