(* ===== verification/GroupRefinement.thy ===== *)
theory GroupRefinement
  imports GroupProps
begin

text \<open>
  The membership handlers against their abstract operations on role maps. On a calm store
  (every call is served, nobody else writes, the constraints hold) each handler answers with
  the code of its specification and leaves the role map the specification leaves; so every
  group with a row or a member keeps an admin, whatever list of requests is served.
\<close>

section \<open>A calm store\<close>

lemma branch_if [guard_simps]: "(case b of True \<Rightarrow> x | False \<Rightarrow> y) = (if b then x else y)"
  by simp

definition calm :: "world \<Rightarrow> bool" where
  "calm w \<longleftrightarrow> undisturbed w \<and> db_ok (wdb w)"

definition roles_in :: "world \<Rightarrow> string \<Rightarrow> role_map" where
  "roles_in w = role_of (wdb w)"

lemma calm_next_call [simp]: "calm (next_call d w) \<longleftrightarrow> undisturbed w \<and> db_ok d"
  by (simp add: calm_def)

lemma calm_undisturbed [simp, dest]: "calm w \<Longrightarrow> undisturbed w"
  by (simp add: calm_def)

lemma calm_db_ok [simp]: "calm w \<Longrightarrow> db_ok (wdb w)"
  by (simp add: calm_def)

lemma calm_guarded: "calm w \<longleftrightarrow> guarded (wfault w, wenv w) w \<and> undisturbed w"
  by (auto simp: calm_def guarded_def undisturbed_def)

lemma calm_serve: "calm w \<Longrightarrow> calm (snd (serve_group ctx rq w))"
  using guarded_serve_group[of "(wfault w, wenv w)" w ctx rq]
  by (simp add: calm_guarded) (simp add: guarded_def undisturbed_def)

lemma calm_isGroupAdmin [guard_simps]:
  "calm w \<Longrightarrow> isGroupAdmin g p w = (roles_in w g p = Some ''admin'', next_call (wdb w) w)"
  using table_is_admin_role[of "wdb w" g p]
  by (simp add: isGroupAdmin_def sel_is_admin_def exec_simps table_is_admin_def roles_in_def)

lemma calm_isGroupMember [guard_simps]:
  "calm w \<Longrightarrow> isGroupMember g p w = (roles_in w g p \<noteq> None, next_call (wdb w) w)"
  using role_of_member[of "wdb w" g p]
  by (auto simp: isGroupMember_def sel_is_member_def exec_simps roles_in_def)

lemma calm_adminCount [guard_simps]:
  "calm w \<Longrightarrow> adminCount g w = (card (admins (roles_in w g)), next_call (wdb w) w)"
  using table_admins_card[of "wdb w" g]
  by (simp add: adminCount_def sel_admin_count_def exec_simps table_admins_def roles_in_def)

lemma roles_in_next_call [simp]: "roles_in (next_call d w) = role_of d"
  by (simp add: roles_in_def)

lemma calm_last_admin [guard_simps]:
  "calm w \<Longrightarrow> last_admin g p w =
     (if roles_in w g p = Some ''admin''
      then (card (admins (roles_in w g)) \<le> 1, next_call (wdb w) (next_call (wdb w) w))
      else (False, next_call (wdb w) w))"
  by (simp add: last_admin_def guard_simps) (simp add: roles_in_def)

lemma calm_run:
  "undisturbed w \<Longrightarrow> exec (writing f) w = (Inr (), next_call (run (writing f) (wpg w (wtick w)) (wdb w)) w)"
  by (simp add: exec_simps)

lemma calm_ins_member [exec_simps]:
  "undisturbed w \<Longrightarrow> exec (ins_member g p u) w = (Inr (), next_call (run (ins_member g p u) (wpg w (wtick w)) (wdb w)) w)"
  unfolding ins_member_def by (rule calm_run)

lemma calm_upd_role [exec_simps]:
  "undisturbed w \<Longrightarrow> exec (upd_role g p r) w = (Inr (), next_call (run (upd_role g p r) (wpg w (wtick w)) (wdb w)) w)"
  unfolding upd_role_def by (rule calm_run)

lemma calm_del_member [exec_simps]:
  "undisturbed w \<Longrightarrow> exec (del_member g p) w = (Inr (), next_call (run (del_member g p) (wpg w (wtick w)) (wdb w)) w)"
  unfolding del_member_def by (rule calm_run)

lemma calm_touch [exec_simps]:
  "undisturbed w \<Longrightarrow> exec (touch_group g) w = (Inr (), next_call (run (touch_group g) (wpg w (wtick w)) (wdb w)) w)"
  unfolding touch_group_def by (rule calm_run)

lemma run_keeps: "keeps_db_ok s \<Longrightarrow> db_ok d \<Longrightarrow> db_ok (run s e d)"
  unfolding run_def by (rule effect_of_keeps)

lemma role_of_touch [row_simps]: "role_of (run (touch_group g) e d) = role_of d"
  by (rule role_of_members) (simp add: touch_group_def upd_group_where_def)

lemma role_of_upd_group [row_simps]: "role_of (upd_group_where g f d) = role_of d"
  by (rule role_of_members) (simp add: upd_group_where_def)

lemmas role_of_run [row_simps] = role_of_ins_member role_of_ins_creator role_of_upd_role role_of_del_member

lemma undisturbed_add_members:
  assumes "undisturbed w"
  shows "\<exists>w'. add_members g u ps w = (True, w') \<and> undisturbed w' \<and>
     roles_in w' = (roles_in w)(g := fold abs_enroll ps (roles_in w g)) \<and> groups (wdb w') = groups (wdb w)"
  using assms
proof (induction ps arbitrary: w)
  case Nil
  then show ?case by simp
next
  case (Cons p ps)
  let ?w1 = "next_call (run (ins_member g p u) (wpg w (wtick w)) (wdb w)) w"
  obtain w' where w': "add_members g u ps ?w1 = (True, w')" "undisturbed w'"
    "roles_in w' = (roles_in ?w1)(g := fold abs_enroll ps (roles_in ?w1 g))" "groups (wdb w') = groups (wdb ?w1)"
    using Cons.IH[of ?w1] Cons.prems by (metis next_call_simps(6))
  have "groups (wdb ?w1) = groups (wdb w)"
    by (simp add: ins_member_def)
  with w' Cons.prems show ?case
    by (auto simp: exec_simps row_simps roles_in_def)
qed

section \<open>The specifications\<close>

text \<open>
  An abstract request: who asks, for which group, and what. \<open>spec_answer\<close> is the status code and
  the roles after it.
\<close>

datatype membership_request =
    Add "string list"
  | Remove string
  | Promote string
  | Demote string

fun spec_answer :: "membership_request \<Rightarrow> string \<Rightarrow> role_map \<Rightarrow> nat \<times> role_map" where
  "spec_answer (Add ps) user m = (200, fold abs_enroll (dedupeIDs ps []) m)"
| "spec_answer (Remove p) user m =
     (if p = [] \<or> (m p = Some ''admin'' \<and> card (admins m) \<le> 1) then (400, m) else (200, abs_expel p m))"
| "spec_answer (Promote p) user m = (200, abs_assign p ''admin'' m)"
| "spec_answer (Demote p) user m =
     (if m p \<noteq> Some ''admin'' \<or> card (admins m) \<le> 1 then (400, m) else (200, abs_assign p ''member'' m))"

definition spec_serve :: "membership_request \<Rightarrow> string \<Rightarrow> string \<Rightarrow> (string \<Rightarrow> role_map) \<Rightarrow> nat \<times> (string \<Rightarrow> role_map)" where
  "spec_serve rq g user R =
     (if R g user \<noteq> Some ''admin'' then (403, R)
      else case spec_answer rq user (R g) of (code, m) \<Rightarrow> (code, R(g := m)))"

fun request_of :: "membership_request \<Rightarrow> string \<Rightarrow> group_request" where
  "request_of (Add ps) g = Add_members g (Some (JObj [(''member_phones'', JArr (map JStr ps))]))"
| "request_of (Remove p) g = Remove_member g p"
| "request_of (Promote p) g = Promote_admin g p"
| "request_of (Demote p) g = Demote_admin g p"

definition signed_in :: "claims option \<Rightarrow> string \<Rightarrow> bool" where
  "signed_in ctx user \<longleftrightarrow> currentUserPhone ctx = Some user"

lemma decode_elems_strings: "decode_elems (map JStr ps) old = Some ps"
  by (induction ps arbitrary: old) (auto simp: decode_string_def)

lemma decode_add_body:
  "decode_body members_fields [] (Some (JObj [(''member_phones'', JArr (map JStr ps))])) = Some ps"
  by (simp add: decode_body_def members_fields_def field_for_def decode_strings_def decode_elems_strings)

lemma membership_step:
  assumes "calm w" and "signed_in ctx user"
  shows "(resp_code (fst (serve_group ctx (request_of rq g) w)),
          roles_in (snd (serve_group ctx (request_of rq g) w))) = spec_serve rq g user (roles_in w)"
proof (cases rq)
  case (Add ps)
  let ?w1 = "next_call (wdb w) w"
  obtain w' where w': "add_members g user (dedupeIDs ps []) ?w1 = (True, w')" "undisturbed w'"
    "roles_in w' = (roles_in ?w1)(g := fold abs_enroll (dedupeIDs ps []) (roles_in ?w1 g))"
    using undisturbed_add_members[of ?w1] assms(1) by fastforce
  show ?thesis
    using assms w'
    by (simp add: Add addGroupMembers_def signed_in_def guard_simps exec_simps row_simps decode_add_body spec_serve_def)
      (simp add: roles_in_def)
next
  case (Remove p)
  then show ?thesis
    using assms
    by (simp add: removeGroupMember_def signed_in_def guard_simps exec_simps row_simps spec_serve_def)
      (simp add: roles_in_def)
next
  case (Promote p)
  then show ?thesis
    using assms
    by (simp add: promoteGroupAdmin_def signed_in_def guard_simps exec_simps row_simps spec_serve_def)
      (simp add: roles_in_def)
next
  case (Demote p)
  then show ?thesis
    using assms
    by (simp add: demoteGroupAdmin_def signed_in_def guard_simps exec_simps row_simps spec_serve_def)
      (simp add: roles_in_def)
qed

text \<open>
  C2. The membership handlers refine the specification: on a calm store, for a signed-in caller,
  the status code and the roles of every group after adding, removing, promoting or demoting
  are those of the abstract request.
\<close>

theorem membership_refines:
  assumes "calm w" and "signed_in ctx user"
  shows "(resp_code (fst (serve_group ctx (request_of rq g) w)),
          roles_in (snd (serve_group ctx (request_of rq g) w))) = spec_serve rq g user (roles_in w)"
  by (rule membership_step[OF assms])

lemma calm_calm_world [simp]: "calm (calm_world d) \<longleftrightarrow> db_ok d"
  by (simp add: calm_def)

lemma roles_in_calm_world [simp]: "roles_in (calm_world d) = role_of d"
  by (simp add: roles_in_def)

theorem membership_refines_witness:
  "resp_code (fst (serve_group (signed ''ann'') (request_of (Promote ''bob'') ''g'') (calm_world (ann_and_bob ''member'')))) = 200 \<and>
   roles_in (snd (serve_group (signed ''ann'') (request_of (Promote ''bob'') ''g'') (calm_world (ann_and_bob ''member'')))) ''g'' ''bob''
     = Some ''admin''"
  using membership_refines[of "calm_world (ann_and_bob ''member'')" "signed ''ann''" "''ann''" "Promote ''bob''" "''g''"]
  by (simp add: signed_in_def spec_serve_def abs_assign_def)

end
