(* ===== verification/GroupInvariant.thy ===== *)
theory GroupInvariant
  imports GroupRefinement
begin

text \<open>
  Leaving a group against its specification (a last admin hands over to another member, a last
  member takes the group away), and the invariant the last-admin guards are there for.
\<close>

section \<open>Transactions on an undisturbed store\<close>

text \<open>\<open>open_tx t w d\<close>: the transaction can go on, and sees \<open>d\<close>.\<close>

definition open_tx :: "tx \<Rightarrow> world \<Rightarrow> db \<Rightarrow> bool" where
  "open_tx t w d \<longleftrightarrow> undisturbed w \<and> \<not> tx_broken t \<and> tx_view t w = d"

lemma open_begin:
  assumes "undisturbed w"
  obtains t w' where "tx_begin w = (Inr t, w')" and "open_tx t w' (wdb w)" and "wdb w' = wdb w"
  using assms that by (simp add: exec_simps open_tx_def tx_view_def)

lemma open_read:
  assumes "open_tx t w d"
  obtains t' w' where "tx_exec (reading f) t w = (Inr (f d), t', w')" and "open_tx t' w' d" and "wdb w' = wdb w"
  using assms that by (simp add: exec_simps open_tx_def tx_view_def reading_def effect_of_def)

lemma open_write:
  assumes "open_tx t w d" and "\<And>e. s e d = Inr ((), run s e d)"
  obtains t' w' e where "tx_exec s t w = (Inr (), t', w')" and "open_tx t' w' (run s e d)" and "wdb w' = wdb w"
proof -
  let ?e = "(wpg w (wtick w))\<lparr>pg_now := tx_now t\<rparr>"
  let ?t = "t\<lparr>tx_writes := tx_writes t @ [effect_of s ?e]\<rparr>"
  have "tx_exec s t w = (Inr (), ?t, next_call (wdb w) w)"
    using assms by (simp add: exec_simps open_tx_def)
  moreover have "open_tx ?t (next_call (wdb w) w) (run s ?e d)"
    using assms(1) by (simp add: open_tx_def tx_view_def run_def)
  ultimately show ?thesis
    by (rule that) simp
qed

lemma open_commit:
  assumes "open_tx t w d"
  obtains w' where "tx_commit t w = (Inr (), w')" and "wdb w' = d"
  using assms that by (simp add: exec_simps open_tx_def)

lemma writes_simps:
  "ins_member g p u e d = Inr ((), run (ins_member g p u) e d)"
  "ins_creator g p e d = Inr ((), run (ins_creator g p) e d)"
  "upd_role g p r e d = Inr ((), run (upd_role g p r) e d)"
  "del_member g p e d = Inr ((), run (del_member g p) e d)"
  "del_group g e d = Inr ((), run (del_group g) e d)"
  "touch_group g e d = Inr ((), run (touch_group g) e d)"
  by (simp_all add: ins_member_def ins_creator_def upd_role_def del_member_def del_group_def touch_group_def
      writing_def run_def effect_of_def)

section \<open>Leaving\<close>

definition group_ids :: "db \<Rightarrow> string set" where
  "group_ids d = g_id ` set (groups d)"

lemma group_ids_same: "groups d' = groups d \<Longrightarrow> group_ids d' = group_ids d"
  by (simp add: group_ids_def)

lemma group_ids_upd [row_simps]:
  "(\<And>x. g_id (f x) = g_id x) \<Longrightarrow> group_ids (upd_group_where g f d) = group_ids d"
proof -
  assume "\<And>x. g_id (f x) = g_id x"
  then have "map g_id (groups (upd_group_where g f d)) = map g_id (groups d)"
    by (simp add: upd_group_where_def map_if_keep[of g_id f] del: map_map)
  then show ?thesis
    unfolding group_ids_def by (metis list.set_map)
qed

lemma group_ids_run [row_simps]:
  "group_ids (run (ins_member g p u) e d) = group_ids d"
  "group_ids (run (ins_creator g p) e d) = group_ids d"
  "group_ids (run (upd_role g p r) e d) = group_ids d"
  "group_ids (run (del_member g p) e d) = group_ids d"
  "group_ids (run (touch_group g) e d) = group_ids d"
  "group_ids (run (del_group g) e d) = group_ids d - {g}"
  by (auto simp: ins_member_def ins_creator_def upd_role_def del_member_def touch_group_def del_group_def
      group_ids_upd) (auto simp: group_ids_def)

lemma role_of_del_group [row_simps]: "role_of (run (del_group g) e d) = role_of d"
  by (rule role_of_members) (simp add: del_group_def)

definition leave_spec :: "string \<Rightarrow> role_map \<Rightarrow> role_map \<Rightarrow> bool" where
  "leave_spec user m m' \<longleftrightarrow>
     (if m user = Some ''admin'' \<and> card (admins m) \<le> 1
      then (\<exists>s. s \<noteq> user \<and> m s \<noteq> None \<and> m' = abs_expel user (abs_assign s ''admin'' m)) \<or>
           ((\<forall>q. q \<noteq> user \<longrightarrow> m q = None) \<and> m' = abs_expel user m)
      else m' = abs_expel user m)"

definition successor_in :: "db \<Rightarrow> string \<Rightarrow> string \<Rightarrow> string option" where
  "successor_in d g p =
     (case sort_key gm_created_at (filter (\<lambda>r. gm_group_id r = g \<and> gm_user_phone r \<noteq> p) (group_members d)) of
        [] \<Rightarrow> None
      | r # _ \<Rightarrow> Some (gm_user_phone r))"

lemma sel_successor_read: "sel_successor g p = reading (\<lambda>d. successor_in d g p)"
  by (simp add: sel_successor_def successor_in_def)

lemma successor_is:
  assumes "db_ok d"
  shows "case successor_in d g p of
     None \<Rightarrow> \<forall>q. q \<noteq> p \<longrightarrow> role_of d g q = None
   | Some s \<Rightarrow> s \<noteq> p \<and> role_of d g s \<noteq> None"
proof -
  let ?rows = "filter (\<lambda>r. gm_group_id r = g \<and> gm_user_phone r \<noteq> p) (group_members d)"
  show ?thesis
  proof (cases "sort_key gm_created_at ?rows")
    case Nil
    then have "length (sort_key gm_created_at ?rows) = 0"
      by (simp only: list.size)
    then have "?rows = []"
      by (simp only: length_sort length_0_conv)
    then have "\<not> (\<exists>r\<in>set (group_members d). gm_group_id r = g \<and> gm_user_phone r \<noteq> p)"
      by (simp add: filter_empty_conv)
    then have "role_of d g q = None" if "q \<noteq> p" for q
      using role_of_member[of d g q] that unfolding member_row_def by blast
    then show ?thesis
      unfolding successor_in_def Nil by simp
  next
    case (Cons r rs)
    then have "r \<in> set (sort_key gm_created_at ?rows)"
      by (simp only: list.set_intros)
    then have "r \<in> set ?rows"
      by (simp only: set_sort)
    then have "gm_user_phone r \<noteq> p" "role_of d g (gm_user_phone r) \<noteq> None"
      using role_of_row[OF assms, of r] by auto
    then show ?thesis
      unfolding successor_in_def Cons by simp
  qed
qed

lemma promote_successor_calm:
  assumes "open_tx t w d"
  obtains t' w' e where "promote_successor g u t w = (t', w')" and "wdb w' = wdb w"
    and "open_tx t' w' (case successor_in d g u of None \<Rightarrow> d | Some s \<Rightarrow> run (upd_role g s ''admin'') e d)"
proof -
  obtain t1 w1 where read: "tx_exec (sel_successor g u) t w = (Inr (successor_in d g u), t1, w1)"
    "open_tx t1 w1 d" "wdb w1 = wdb w"
    unfolding sel_successor_read using open_read[OF assms] by blast
  show ?thesis
  proof (cases "successor_in d g u")
    case None
    with read show ?thesis
      by (intro that[of t1 w1]) (simp_all add: promote_successor_def)
  next
    case (Some s)
    obtain t2 w2 e where "tx_exec (upd_role g s ''admin'') t1 w1 = (Inr (), t2, w2)"
      "open_tx t2 w2 (run (upd_role g s ''admin'') e d)" "wdb w2 = wdb w1"
      using open_write[OF read(2), of "upd_role g s ''admin''"] writes_simps(3) by metis
    with Some read show ?thesis
      by (intro that[of t2 w2 e]) (simp_all add: promote_successor_def)
  qed
qed

lemma member_count_inhabited:
  "length (filter (\<lambda>r. gm_group_id r = g) (group_members d)) = 0 \<longleftrightarrow> \<not> inhabited (role_of d g)"
proof -
  have "inhabited (role_of d g) \<longleftrightarrow> (\<exists>r\<in>set (group_members d). gm_group_id r = g)"
    unfolding inhabited_def using role_of_member[of d g] by (auto simp: member_row_def)
  then show ?thesis
    by (auto simp: filter_empty_conv)
qed

text \<open>What \<^verbatim>\<open>leaveGroup\<close> does after its guards: drop the row, then the group if it is empty.\<close>

lemma leave_tail:
  assumes "open_tx t w d"
  obtains t1 w1 n t2 w2 t3 w3 w4 d' where
    "tx_exec (del_member g u) t w = (Inr (), t1, w1)"
    "tx_exec (sel_member_count g) t1 w1 = (n, t2, w2)"
    "snd (tx_exec (if n = Inr 0 then del_group g else touch_group g) t2 w2) = (t3, w3)"
    "tx_commit t3 w3 = (Inr (), w4)" "wdb w4 = d'"
    "role_of d' = (role_of d)(g := abs_expel u (role_of d g))"
    "group_ids d' = (if inhabited (role_of d' g) then group_ids d else group_ids d - {g})"
proof -
  obtain t1 w1 e1 where del: "tx_exec (del_member g u) t w = (Inr (), t1, w1)"
    and open1: "open_tx t1 w1 (run (del_member g u) e1 d)"
    using open_write[OF assms, of "del_member g u"] writes_simps(4) by metis
  let ?d1 = "run (del_member g u) e1 d"
  obtain t2 w2 where cnt: "tx_exec (sel_member_count g) t1 w1 =
      (Inr (length (filter (\<lambda>r. gm_group_id r = g) (group_members ?d1))), t2, w2)"
    and open2: "open_tx t2 w2 ?d1"
    using open_read[OF open1] unfolding sel_member_count_def by metis
  let ?n = "length (filter (\<lambda>r. gm_group_id r = g) (group_members ?d1))"
  let ?last = "if Inr ?n = (Inr 0 :: sql_error + nat) then del_group g else touch_group g"
  obtain t3 w3 e3 where last: "tx_exec ?last t2 w2 = (Inr (), t3, w3)" and open3: "open_tx t3 w3 (run ?last e3 ?d1)"
  proof -
    have "?last e ?d1 = Inr ((), run ?last e ?d1)" for e
      using writes_simps(5,6)[of g e ?d1] by (cases "?n = 0") simp_all
    from open_write[OF open2 this] that show thesis by blast
  qed
  obtain w4 where com: "tx_commit t3 w3 = (Inr (), w4)" "wdb w4 = run ?last e3 ?d1"
    using open_commit[OF open3] by blast
  show ?thesis
  proof (rule that[OF del cnt _ com(1) com(2)])
    show "snd (tx_exec ?last t2 w2) = (t3, w3)"
      by (simp only: last snd_conv)
    show "role_of (run ?last e3 ?d1) = (role_of d)(g := abs_expel u (role_of d g))"
      by (simp add: row_simps)
    show "group_ids (run ?last e3 ?d1) =
        (if inhabited (role_of (run ?last e3 ?d1) g) then group_ids d else group_ids d - {g})"
      using member_count_inhabited[of g ?d1] by (simp add: row_simps)
  qed
qed

text \<open>Up to the guard: the transaction is open on the tables as they were.\<close>

lemma leave_guarded:
  assumes "calm w"
  obtains t0 w0 alone w1 where "tx_begin (next_call (wdb w) w) = (Inr t0, w0)"
    and "last_admin g u w0 = (alone, w1)" and "open_tx t0 w1 (wdb w)"
    and "alone \<longleftrightarrow> role_of (wdb w) g u = Some ''admin'' \<and> card (admins (role_of (wdb w) g)) \<le> 1"
proof -
  let ?w = "next_call (wdb w) w"
  let ?t = "\<lparr>tx_now = pg_now (wpg ?w (wtick ?w)), tx_writes = [], tx_broken = False\<rparr>"
  have "tx_begin ?w = (Inr ?t, next_call (wdb w) ?w)"
    using assms by (simp add: exec_simps)
  moreover obtain alone w1 where "last_admin g u (next_call (wdb w) ?w) = (alone, w1)"
    "undisturbed w1" "wdb w1 = wdb w"
    "alone \<longleftrightarrow> role_of (wdb w) g u = Some ''admin'' \<and> card (admins (role_of (wdb w) g)) \<le> 1"
    using assms by (cases "role_of (wdb w) g u = Some ''admin''") (simp_all add: guard_simps)
  ultimately show ?thesis
    using that by (simp add: open_tx_def tx_view_def)
qed

lemma promote_when_alone:
  assumes "open_tx t0 w1 d"
  shows "\<exists>t1 w2 d1. (if alone then promote_successor g user t0 w1 else (t0, w1)) = (t1, w2) \<and> open_tx t1 w2 d1 \<and>
    (if alone then \<exists>e. d1 = (case successor_in d g user of None \<Rightarrow> d | Some s \<Rightarrow> run (upd_role g s ''admin'') e d)
     else d1 = d)"
proof (cases alone)
  case True
  then show ?thesis
    using promote_successor_calm[OF assms, of g user] by metis
qed (use assms in auto)

lemma leave_effect:
  assumes "calm w" and "signed_in ctx user" and "g \<noteq> []" and "leaveGroup ctx g w = (resp, w')"
  shows "if roles_in w g user = None then resp_code resp = 400 \<and> wdb w' = wdb w
    else resp_code resp = 200 \<and>
      (\<exists>m. leave_spec user (roles_in w g) m \<and> roles_in w' = (roles_in w)(g := m) \<and>
           group_ids (wdb w') = (if inhabited m then group_ids (wdb w) else group_ids (wdb w) - {g}))"
proof (cases "roles_in w g user = None")
  case True
  then show ?thesis
    using assms by (auto simp: leaveGroup_def signed_in_def guard_simps)
next
  case False
  let ?d = "wdb w"
  obtain t0 w0 alone w1 where start: "tx_begin (next_call ?d w) = (Inr t0, w0)"
    "last_admin g user w0 = (alone, w1)" and open0: "open_tx t0 w1 ?d"
    and alone: "alone \<longleftrightarrow> role_of ?d g user = Some ''admin'' \<and> card (admins (role_of ?d g)) \<le> 1"
    using leave_guarded[OF assms(1)] by blast
  obtain t1 w2 d1 where promote: "(if alone then promote_successor g user t0 w1 else (t0, w1)) = (t1, w2)"
    and open1: "open_tx t1 w2 d1"
    and d1: "if alone then \<exists>e. d1 = (case successor_in ?d g user of None \<Rightarrow> ?d | Some s \<Rightarrow> run (upd_role g s ''admin'') e ?d)
      else d1 = ?d"
    using promote_when_alone[OF open0] by metis
  obtain t2 w3 n t3 w4 t4 w5 w6 where tail: "tx_exec (del_member g user) t1 w2 = (Inr (), t2, w3)"
    "tx_exec (sel_member_count g) t2 w3 = (n, t3, w4)"
    "snd (tx_exec (if n = Inr 0 then del_group g else touch_group g) t3 w4) = (t4, w5)"
    "tx_commit t4 w5 = (Inr (), w6)"
    and roles: "role_of (wdb w6) = (role_of d1)(g := abs_expel user (role_of d1 g))"
    and ids: "group_ids (wdb w6) = (if inhabited (role_of (wdb w6) g) then group_ids d1 else group_ids d1 - {g})"
    using leave_tail[OF open1, of g user] by metis
  have w': "resp = writeJSON 200 ok_body" "w' = w6"
    using assms False start promote tail by (auto simp: leaveGroup_def signed_in_def guard_simps)
  have "leave_spec user (role_of ?d g) (abs_expel user (role_of d1 g)) \<and>
      (role_of d1)(g := abs_expel user (role_of d1 g)) = (role_of ?d)(g := abs_expel user (role_of d1 g)) \<and>
      group_ids d1 = group_ids ?d"
    using d1 alone successor_is[where d = ?d and g = g and p = user] assms(1)
    by (auto simp: leave_spec_def row_simps split: if_splits option.splits)
  then show ?thesis
    using w' roles ids False by (auto simp: roles_in_def)
qed

text \<open>
  C3. Leaving refines its specification: a member who is not the last admin just goes, a last
  admin with company is replaced by another member, a last member takes the group with them;
  a caller who is no member changes nothing.
\<close>

theorem leave_refines:
  assumes "calm w" and "signed_in ctx user" and "g \<noteq> []"
    and "serve_group ctx (Leave_group g) w = (resp, w')"
  shows "if roles_in w g user = None then resp_code resp = 400 \<and> wdb w' = wdb w
    else resp_code resp = 200 \<and>
      (\<exists>m. leave_spec user (roles_in w g) m \<and> roles_in w' = (roles_in w)(g := m) \<and>
           group_ids (wdb w') = (if inhabited m then group_ids (wdb w) else group_ids (wdb w) - {g}))"
  using leave_effect[OF assms(1-3)] assms(4) by simp

theorem leave_refines_witness:
  "\<exists>m. leave_spec ''ann'' [''ann'' \<mapsto> ''admin'', ''bob'' \<mapsto> ''member''] m \<and>
     roles_in (snd (serve_group (signed ''ann'') (Leave_group ''g'') (calm_world (ann_and_bob ''member'')))) ''g'' = m"
  using leave_refines[of "calm_world (ann_and_bob ''member'')" "signed ''ann''" "''ann''" "''g''" "fst (serve_group (signed ''ann'') (Leave_group ''g'') (calm_world (ann_and_bob ''member'')))"
      "snd (serve_group (signed ''ann'') (Leave_group ''g'') (calm_world (ann_and_bob ''member'')))"]
  by (auto simp: signed_in_def)

section \<open>Creating\<close>

text \<open>Nobody else writes; calls may still fail.\<close>

definition alone :: "world \<Rightarrow> bool" where
  "alone w \<longleftrightarrow> (\<forall>n d. wenv w n d = d)"

lemma calm_alone: "calm w \<Longrightarrow> alone w"
  by (simp add: calm_def undisturbed_def alone_def)

lemma alone_advance: "alone w \<Longrightarrow> wdb (advance w) = wdb w \<and> alone (advance w)"
  by (simp add: alone_def)

lemma alone_exec_reading:
  "alone w \<Longrightarrow> exec (reading f) w = (r, w1) \<Longrightarrow> wdb w1 = wdb w \<and> alone w1 \<and> (\<forall>x. r = Inr x \<longrightarrow> x = f (wdb w))"
  by (auto simp: exec_def reading_def alone_def Let_def split: fault.splits)

lemma alone_tx_begin: "alone w \<Longrightarrow> tx_begin w = (Inr t, w1) \<Longrightarrow> wdb w1 = wdb w \<and> alone w1 \<and> tx_writes t = []"
  by (auto simp: tx_begin_def alone_def split: fault.splits)

lemma alone_tx_view: "wdb w1 = wdb w \<Longrightarrow> tx_view t w1 = tx_view t w"
  by (simp add: tx_view_def)

lemma alone_tx_exec:
  assumes "alone w" and "tx_exec s t w = (r, t1, w1)"
  shows "wdb w1 = wdb w \<and> alone w1 \<and>
    (\<forall>x. r = Inr x \<longrightarrow> (\<exists>e. s e (tx_view t w) = Inr (x, effect_of s e (tx_view t w)) \<and>
       tx_view t1 w1 = effect_of s e (tx_view t w)))"
  using assms
  by (auto simp: tx_exec_def alone_def tx_view_def effect_of_def Let_def split: if_splits sum.splits
      intro!: exI[of _ "(wpg w (wtick w))\<lparr>pg_now := tx_now t\<rparr>"])

lemma alone_tx_commit:
  assumes "alone w" and "tx_commit t w = (r, w1)"
  shows "(wdb w1 = wdb w \<or> wdb w1 = tx_view t w) \<and> (r = Inr () \<longrightarrow> wdb w1 = tx_view t w)"
  using assms by (auto simp: tx_commit_def alone_def tx_view_def Let_def split: if_splits fault.splits)

definition created :: "string \<Rightarrow> string \<Rightarrow> string list \<Rightarrow> string \<Rightarrow> string \<Rightarrow> db \<Rightarrow> db \<Rightarrow> bool" where
  "created gid user ps name code d d' \<longleftrightarrow>
     gid \<notin> group_ids d \<and>
     (\<exists>row. groups d' = groups d @ [row] \<and> g_id row = gid \<and> g_name row = name \<and> g_invite_code row = code
        \<and> g_created_by_phone row = user) \<and>
     role_of d' = (role_of d)(gid := fold abs_enroll ps (abs_found user (role_of d gid)))"

lemma alone_tx_add_members:
  "alone w \<Longrightarrow> tx_add_members g u ps t w = (b, t1, w1) \<Longrightarrow> wdb w1 = wdb w \<and> alone w1 \<and>
   (b \<longrightarrow> groups (tx_view t1 w1) = groups (tx_view t w) \<and>
     role_of (tx_view t1 w1) = (role_of (tx_view t w))(g := fold abs_enroll ps (role_of (tx_view t w) g)))"
proof (induction ps arbitrary: t w)
  case Nil
  then show ?case by simp
next
  case (Cons p ps)
  obtain r t2 w2 where first: "tx_exec (ins_member g p u) t w = (r, t2, w2)"
    by (cases "tx_exec (ins_member g p u) t w")
  note step = alone_tx_exec[OF Cons.prems(1) first]
  show ?case
  proof (cases r)
    case (Inl e)
    with Cons.prems first step show ?thesis by auto
  next
    case (Inr x)
    with Cons.prems(2) first have rest: "tx_add_members g u ps t2 w2 = (b, t1, w1)"
      by simp
    from step Inr obtain e where "tx_view t2 w2 = run (ins_member g p u) e (tx_view t w)"
      by (auto simp: run_def)
    moreover have "groups (run (ins_member g p u) e (tx_view t w)) = groups (tx_view t w)"
      by (simp add: ins_member_def)
    ultimately show ?thesis
      using step Cons.IH[OF _ rest] by (auto simp: row_simps fun_eq_iff)
  qed
qed

lemma created_by_statements:
  assumes "ins_group gid name desc avatar user code e d = Inr ((), d1)" and "groups d2 = groups (run (ins_creator gid user) e' d1)"
    and "role_of d2 = (role_of (run (ins_creator gid user) e' d1))
      (gid := fold abs_enroll ps (role_of (run (ins_creator gid user) e' d1) gid))"
  shows "created gid user ps name code d d2"
proof -
  have "role_of d1 = role_of d"
    using assms(1) by (intro role_of_members) (auto simp: ins_group_def split: if_splits)
  then have "role_of d2 = (role_of d)(gid := fold abs_enroll ps (abs_found user (role_of d gid)))"
    using assms(3) by (simp add: role_of_ins_creator)
  moreover have "groups (run (ins_creator gid user) e' d1) = groups d1"
    by (simp add: ins_creator_def)
  ultimately show ?thesis
    using assms(1,2) unfolding created_def group_ids_def
    by (auto simp: ins_group_def split: if_splits)
qed

text \<open>The transaction of \<^verbatim>\<open>createGroup\<close>, from its first statement to the commit.\<close>

definition create_tx :: "string \<Rightarrow> string \<Rightarrow> string list \<Rightarrow> string \<Rightarrow> string \<Rightarrow> string \<Rightarrow> string \<Rightarrow> tx \<Rightarrow> world \<Rightarrow> response \<times> world" where
  "create_tx gid user ps name desc avatar code t w =
     (case tx_exec (ins_group gid name desc avatar user code) t w of
        (Inl _, t, w) \<Rightarrow> (writeError 500 ''group create failed'', w)
      | (Inr _, t, w) \<Rightarrow>
     (case tx_exec (ins_creator gid user) t w of
        (Inl _, t, w) \<Rightarrow> (writeError 500 ''creator membership failed'', w)
      | (Inr _, t, w) \<Rightarrow>
     (case tx_add_members gid user ps t w of
        (False, t, w) \<Rightarrow> (writeError 500 ''add member failed'', w)
      | (True, t, w) \<Rightarrow>
     (case tx_commit t w of
        (Inl _, w) \<Rightarrow> (writeError 500 ''db commit failed'', w)
      | (Inr _, w) \<Rightarrow>
        (writeJSON 201 (JObj [(''group_id'', JStr gid), (''invite_code'', JStr code)]), w)))))"

lemma create_tx_effect:
  assumes "alone w" and "tx_writes t = []" and "create_tx gid user ps name desc avatar code t w = (resp, w')"
  shows "wdb w' = wdb w \<and> \<not> succeeded resp \<or> created gid user ps name code (wdb w) (wdb w')"
proof -
  have view: "tx_view t w = wdb w"
    using assms(2) by (simp add: tx_view_def)
  obtain r1 t1 w1 where s1: "tx_exec (ins_group gid name desc avatar user code) t w = (r1, t1, w1)"
    by (cases "tx_exec (ins_group gid name desc avatar user code) t w")
  note a1 = alone_tx_exec[OF assms(1) s1]
  obtain r2 t2 w2 where s2: "tx_exec (ins_creator gid user) t1 w1 = (r2, t2, w2)"
    by (cases "tx_exec (ins_creator gid user) t1 w1")
  note a2 = alone_tx_exec[OF conjunct1[OF conjunct2[OF a1]] s2]
  obtain b t3 w3 where s3: "tx_add_members gid user ps t2 w2 = (b, t3, w3)"
    by (cases "tx_add_members gid user ps t2 w2")
  note a3 = alone_tx_add_members[OF conjunct1[OF conjunct2[OF a2]] s3]
  obtain r4 w4 where s4: "tx_commit t3 w3 = (r4, w4)"
    by (cases "tx_commit t3 w3")
  note a4 = alone_tx_commit[OF conjunct1[OF conjunct2[OF a3]] s4]
  show ?thesis
  proof (cases "is_ok r1 \<and> is_ok r2 \<and> b")
    case False
    then have "w' \<in> {w1, w2, w3} \<and> \<not> succeeded resp"
      using assms(3) s1 s2 s3 by (cases r1; cases r2; cases b) (auto simp: create_tx_def)
    then show ?thesis
      using a1 a2 a3 by auto
  next
    case True
    then have resp: "w' = w4" "r4 \<noteq> Inr () \<longrightarrow> \<not> succeeded resp"
      using assms(3) s1 s2 s3 s4 by (cases r1; cases r2; cases r4; auto simp: create_tx_def)+
    from True a1 view obtain e1 where e1: "ins_group gid name desc avatar user code e1 (wdb w) = Inr ((), tx_view t1 w1)"
      by (cases r1) auto
    from True a2 obtain e2 where e2: "tx_view t2 w2 = run (ins_creator gid user) e2 (tx_view t1 w1)"
      by (cases r2) (auto simp: run_def)
    have "created gid user ps name code (wdb w) (tx_view t3 w3)"
      using created_by_statements[OF e1] a3 True e2 by simp
    then show ?thesis
      using resp a1 a2 a3 a4 by auto
  qed
qed

lemma create_effect:
  assumes "alone w" and "createGroup rand nano ctx body w = (resp, w')"
  shows "wdb w' = wdb w \<and> \<not> succeeded resp \<or>
    (\<exists>user req code. currentUserPhone ctx = Some user \<and> decode_body create_fields no_create body = Some req \<and>
       randomHex rand 12 = Some code \<and>
       created (''grp_'' @ decimal nano) user (dedupeIDs (cg_member_phones req) user) (trim_space (cg_name req)) code
         (wdb w) (wdb w'))"
proof (cases "\<exists>user req code t w1. currentUserPhone ctx = Some user \<and> decode_body create_fields no_create body = Some req
    \<and> trim_space (cg_name req) \<noteq> [] \<and> randomHex rand 12 = Some code \<and> tx_begin w = (Inr t, w1)")
  case True
  then obtain user req code t w1 where ok: "currentUserPhone ctx = Some user"
    "decode_body create_fields no_create body = Some req" "trim_space (cg_name req) \<noteq> []"
    "randomHex rand 12 = Some code" and t: "tx_begin w = (Inr t, w1)"
    by blast
  have "create_tx (''grp_'' @ decimal nano) user (dedupeIDs (cg_member_phones req) user) (trim_space (cg_name req))
      (cg_description req) (cg_avatar_url req) code t w1 = (resp, w')"
    using assms(2) ok t by (simp add: createGroup_def create_tx_def Let_def)
  from create_tx_effect[OF _ _ this] alone_tx_begin[OF assms(1) t] ok show ?thesis
    by auto
next
  case False
  then have "wdb w' = wdb w \<and> \<not> succeeded resp"
    using assms
    by (auto simp: createGroup_def Let_def tx_begin_def alone_def split: option.splits if_splits fault.splits)
  then show ?thesis ..
qed

section \<open>Every group keeps an admin\<close>

definition sane :: "db \<Rightarrow> bool" where
  "sane d \<longleftrightarrow> (\<forall>g. g \<in> group_ids d \<or> inhabited (role_of d g) \<longrightarrow> led (role_of d g))"

lemma sane_update:
  assumes "sane d" and "role_of d' = (role_of d)(g := m)" and "group_ids d' \<subseteq> insert g (group_ids d)"
    and "g \<in> group_ids d' \<or> inhabited m \<Longrightarrow> led m"
  shows "sane d'"
  unfolding sane_def
proof (intro allI impI)
  fix h
  assume h: "h \<in> group_ids d' \<or> inhabited (role_of d' h)"
  show "led (role_of d' h)"
  proof (cases "h = g")
    case True
    with h assms(2,4) show ?thesis by simp
  next
    case False
    with h assms(2,3) have "h \<in> group_ids d \<or> inhabited (role_of d h)" by auto
    then have "led (role_of d h)"
      using assms(1) unfolding sane_def by blast
    with assms(2) False show ?thesis by simp
  qed
qed

lemma sane_same: "sane d \<Longrightarrow> role_of d' = role_of d \<Longrightarrow> group_ids d' = group_ids d \<Longrightarrow> sane d'"
  by (simp add: sane_def)

lemma sane_led: "sane d \<Longrightarrow> role_of d' = (role_of d)(g := m) \<Longrightarrow> group_ids d' = group_ids d \<Longrightarrow> led m \<Longrightarrow> sane d'"
  by (rule sane_update) auto

lemma led_fold_enroll: "led m \<Longrightarrow> led (fold abs_enroll ps m)"
  by (induction ps arbitrary: m) (auto intro: led_enroll)

lemma adminI: "role_of d g u = Some ''admin'' \<Longrightarrow> led (role_of d g)"
  by (auto simp: led_def)

lemma sane_leave_spec:
  assumes "leave_spec u m m'" and "inhabited m'" and "led m"
  shows "led m'"
proof (cases "m u = Some ''admin'' \<and> card (admins m) \<le> 1")
  case False
  with assms show ?thesis
    by (auto simp: leave_spec_def not_le intro: led_expel_many led_expel_member split: if_splits)
next
  case True
  with assms(1) consider
      (s) s where "s \<noteq> u" "m s \<noteq> None" "m' = abs_expel u (abs_assign s ''admin'' m)"
    | (none) "\<forall>q. q \<noteq> u \<longrightarrow> m q = None" "m' = abs_expel u m"
    by (auto simp: leave_spec_def)
  then show ?thesis
  proof cases
    case s
    then have "m' s = Some ''admin''"
      by (simp add: abs_expel_def abs_assign_def)
    then show ?thesis
      unfolding led_def by blast
  next
    case none
    with assms(2) show ?thesis
      by (auto simp: inhabited_def abs_expel_def split: if_splits)
  qed
qed

lemma sane_leave:
  assumes "calm w" and "sane (wdb w)"
  shows "sane (wdb (snd (leaveGroup ctx g w)))"
proof -
  obtain resp w' where call: "leaveGroup ctx g w = (resp, w')"
    by (cases "leaveGroup ctx g w")
  show ?thesis
  proof (cases "(\<exists>u. signed_in ctx u) \<and> g \<noteq> []")
    case False
    then show ?thesis
      using assms(2) call by (auto simp: leaveGroup_def signed_in_def split: option.splits)
  next
    case True
    then obtain u where u: "signed_in ctx u" by blast
    from leave_effect[OF assms(1) u _ call] True
    show ?thesis
    proof (cases "roles_in w g u = None")
      case True
      with leave_effect[OF assms(1) u _ call] \<open>_ \<and> g \<noteq> []\<close> assms(2) call show ?thesis by simp
    next
      case False
      with leave_effect[OF assms(1) u _ call] \<open>_ \<and> g \<noteq> []\<close> obtain m where
        m: "leave_spec u (role_of (wdb w) g) m" "role_of (wdb w') = (role_of (wdb w))(g := m)"
          "group_ids (wdb w') = (if inhabited m then group_ids (wdb w) else group_ids (wdb w) - {g})"
        unfolding roles_in_def by auto
      have "led (role_of (wdb w) g)"
        using False assms(2) unfolding sane_def roles_in_def inhabited_def by blast
      then have "g \<in> group_ids (wdb w') \<or> inhabited m \<Longrightarrow> led m"
        using m(3) sane_leave_spec[OF m(1)] by (auto split: if_splits)
      then show ?thesis
        using sane_update[OF assms(2) m(2)] m(3) call by (auto split: if_splits)
    qed
  qed
qed

lemma sane_created: "sane d \<Longrightarrow> created g u ps n c d d' \<Longrightarrow> sane d'"
  by (rule sane_update[of d d' g "fold abs_enroll ps (abs_found u (role_of d g))"])
    (auto simp: created_def group_ids_def intro!: led_fold_enroll)

lemma sane_create:
  assumes "calm w" and "sane (wdb w)"
  shows "sane (wdb (snd (createGroup rand nano ctx body w)))"
proof -
  obtain resp w' where call: "createGroup rand nano ctx body w = (resp, w')"
    by (cases "createGroup rand nano ctx body w")
  from create_effect[OF calm_alone[OF assms(1)] call] show ?thesis
    using sane_created[OF assms(2)] assms(2) call by fastforce
qed

lemma sane_add:
  assumes "calm w" and "sane (wdb w)"
  shows "sane (wdb (snd (addGroupMembers ctx g body w)))"
proof (cases "\<exists>u ps. currentUserPhone ctx = Some u \<and> decode_body members_fields [] body = Some ps
    \<and> role_of (wdb w) g u = Some ''admin''")
  case False
  then show ?thesis
    using assms by (auto simp: addGroupMembers_def guard_simps roles_in_def split: option.split)
next
  case True
  then obtain u ps where u: "currentUserPhone ctx = Some u" "decode_body members_fields [] body = Some ps"
    "role_of (wdb w) g u = Some ''admin''"
    by blast
  let ?w1 = "next_call (wdb w) w"
  obtain w' where w': "add_members g u (dedupeIDs ps []) ?w1 = (True, w')" "undisturbed w'"
    "role_of (wdb w') = (role_of (wdb w))(g := fold abs_enroll (dedupeIDs ps []) (role_of (wdb w) g))"
    "groups (wdb w') = groups (wdb w)"
    using undisturbed_add_members[of ?w1] assms(1) unfolding roles_in_def by fastforce
  have led: "led (fold abs_enroll (dedupeIDs ps []) (role_of (wdb w) g))"
    by (rule led_fold_enroll[OF adminI[OF u(3)]])
  have "snd (addGroupMembers ctx g body w) = next_call (run (touch_group g) (wpg w' (wtick w')) (wdb w')) w'"
    using assms(1) u w' by (simp add: addGroupMembers_def guard_simps exec_simps roles_in_def)
  then have "role_of (wdb (snd (addGroupMembers ctx g body w))) = role_of (wdb w')"
    "group_ids (wdb (snd (addGroupMembers ctx g body w))) = group_ids (wdb w')"
    by (simp_all only: next_call_simps row_simps)
  with w'(3) group_ids_same[OF w'(4)] show ?thesis
    by (intro sane_led[OF assms(2) _ _ led]) simp_all
qed

lemma sane_touched:
  "sane d \<Longrightarrow> role_of d' = (role_of d)(g := m) \<Longrightarrow> group_ids d' = group_ids d \<Longrightarrow> led m \<Longrightarrow>
   sane (run (touch_group g) e d')"
  by (rule sane_led[of d _ g m]) (simp_all add: row_simps)

lemma sane_remove:
  assumes "calm w" and "sane (wdb w)"
  shows "sane (wdb (snd (removeGroupMember ctx g p w)))"
proof -
  let ?m = "role_of (wdb w) g"
  have "led (abs_expel p ?m)" if "?m u = Some ''admin''" "?m p = Some ''admin'' \<longrightarrow> \<not> card (admins ?m) \<le> Suc 0" for u
    using that led_expel_many[of ?m p] led_expel_member[OF adminI[OF that(1)], of p] by (cases "?m p = Some ''admin''") auto
  with assms show ?thesis
    by (auto simp: removeGroupMember_def guard_simps exec_simps roles_in_def split: option.split
        intro!: sane_touched[OF assms(2) role_of_del_member group_ids_run(4)])
qed

lemma sane_promote:
  assumes "calm w" and "sane (wdb w)"
  shows "sane (wdb (snd (promoteGroupAdmin ctx g p w)))"
  using assms
  by (auto simp: promoteGroupAdmin_def guard_simps exec_simps roles_in_def split: option.split
      intro!: sane_touched[OF assms(2) role_of_upd_role group_ids_run(3)] led_promote adminI)

lemma sane_demote:
  assumes "calm w" and "sane (wdb w)"
  shows "sane (wdb (snd (demoteGroupAdmin ctx g p w)))"
  using assms
  by (auto simp: demoteGroupAdmin_def guard_simps exec_simps roles_in_def split: option.split
      intro!: sane_touched[OF assms(2) role_of_upd_role group_ids_run(3)] led_demote)

lemma calm_upd_group_exec [exec_simps]:
  "undisturbed w \<Longrightarrow> exec (upd_group g n ds a) w =
     (Inr (), next_call (run (upd_group g n ds a) (wpg w (wtick w)) (wdb w)) w)"
  unfolding upd_group_def by (rule calm_run)

lemma sane_update_group:
  assumes "calm w" and "sane (wdb w)"
  shows "sane (wdb (snd (updateGroup ctx g body w)))"
proof -
  have "sane (run (upd_group g n ds a) e (wdb w))" for n ds a e
    by (rule sane_same[OF assms(2)]) (simp_all add: upd_group_def row_simps)
  with assms show ?thesis
    by (auto simp: updateGroup_def guard_simps exec_simps split: option.split)
qed

lemma sane_reset:
  assumes "calm w" and "sane (wdb w)"
  shows "sane (wdb (snd (resetGroupInvite rand ctx g w)))"
proof -
  have "sane d" if "upd_invite g c e (wdb w) = Inr (r, d)" for c e r d
    using that by (intro sane_same[OF assms(2)]) (auto simp: upd_invite_def row_simps split: if_splits)
  with assms show ?thesis
    by (auto simp: resetGroupInvite_def guard_simps exec_undisturbed split: option.split sum.split)
qed

lemma sane_join:
  assumes "calm w" and "sane (wdb w)"
  shows "sane (wdb (snd (joinByInvite ctx body w)))"
proof -
  have "led (abs_enroll u (role_of (wdb w) (g_id r)))" if "find P (groups (wdb w)) = Some r" for P r u
  proof -
    have "g_id r \<in> group_ids (wdb w)"
      using that by (auto simp: find_Some_iff group_ids_def)
    then show ?thesis
      using assms(2) unfolding sane_def by (blast intro: led_enroll)
  qed
  with assms show ?thesis
    by (auto simp: joinByInvite_def sel_by_invite_def exec_simps Let_def one_row_def split: option.split
        intro!: sane_touched[OF assms(2) role_of_ins_member group_ids_run(1)])
qed

lemma sane_reads:
  assumes "calm w"
  shows "wdb (snd (listGroups ends ctx w)) = wdb w" "wdb (snd (getGroup ends ctx g w)) = wdb w"
    "wdb (snd (getGroupInvite ctx g w)) = wdb w"
  using assms
  by (auto simp: listGroups_def getGroup_def getGroupInvite_def guard_simps exec_simps one_row_def
      sel_my_groups_def sel_group_def sel_members_def sel_invite_def split: option.split prod.split sum.split sql_error.split)

lemmas sane_handlers = sane_create sane_update_group sane_add sane_remove sane_promote sane_demote sane_leave
  sane_reset sane_join

lemma sane_serve: "calm w \<Longrightarrow> sane (wdb w) \<Longrightarrow> sane (wdb (snd (serve_group ctx rq w)))"
  by (cases rq) (simp_all add: sane_handlers sane_reads)

lemma sane_serve_all: "calm w \<Longrightarrow> sane (wdb w) \<Longrightarrow> sane (wdb (serve_groups rqs w))"
  by (induction rqs w rule: serve_groups.induct) (simp_all add: sane_serve calm_serve)

text \<open>
  C1. Served one after the other, no list of group requests leaves a group without an admin:
  if every group that has a row or a member has an admin, the same holds after any requests of
  any callers, in any order.
\<close>

theorem groups_keep_an_admin:
  assumes "calm w" and "\<forall>g. g \<in> group_ids (wdb w) \<or> inhabited (roles_in w g) \<longrightarrow> led (roles_in w g)"
    and "g \<in> group_ids (wdb (serve_groups rqs w)) \<or> inhabited (roles_in (serve_groups rqs w) g)"
  shows "led (roles_in (serve_groups rqs w) g)"
  using sane_serve_all[OF assms(1), of rqs] assms(2,3) unfolding sane_def roles_in_def by blast

theorem groups_keep_an_admin_witness:
  "led (roles_in (serve_groups [(signed ''ann'', Promote_admin ''g'' ''bob'')] (calm_world (ann_and_bob ''member''))) ''g'')"
proof (rule groups_keep_an_admin)
  show "calm (calm_world (ann_and_bob ''member''))"
    by simp
  show "\<forall>g. g \<in> group_ids (wdb (calm_world (ann_and_bob ''member''))) \<or>
      inhabited (roles_in (calm_world (ann_and_bob ''member'')) g) \<longrightarrow>
      led (roles_in (calm_world (ann_and_bob ''member'')) g)"
  proof
    fix g
    show "g \<in> group_ids (wdb (calm_world (ann_and_bob ''member''))) \<or>
      inhabited (roles_in (calm_world (ann_and_bob ''member'')) g) \<longrightarrow>
      led (roles_in (calm_world (ann_and_bob ''member'')) g)"
      by (cases "g = ''g''") (auto simp: group_ids_def inhabited_def led_def)
  qed
  show "''g'' \<in> group_ids (wdb (serve_groups [(signed ''ann'', Promote_admin ''g'' ''bob'')] (calm_world (ann_and_bob ''member'')))) \<or>
     inhabited (roles_in (serve_groups [(signed ''ann'', Promote_admin ''g'' ''bob'')] (calm_world (ann_and_bob ''member''))) ''g'')"
    by (simp add: promoteGroupAdmin_def guard_simps exec_simps row_simps group_ids_def[symmetric])
      (simp add: group_ids_def)
qed

text \<open>
  C4. Creating a group is all or nothing, whatever call fails: afterwards the tables are as they
  were and the answer is an error, or the group's row is there with the caller as its admin and
  every other phone of the request, trimmed and once each, as a member.
\<close>

theorem create_all_or_nothing:
  assumes "\<And>n d. wenv w n d = d" and "serve_group ctx (Create_group rand nano body) w = (resp, w')"
  shows "wdb w' = wdb w \<and> \<not> succeeded resp \<or>
    (\<exists>user req code. currentUserPhone ctx = Some user \<and> decode_body create_fields no_create body = Some req \<and>
       randomHex rand 12 = Some code \<and>
       created (''grp_'' @ decimal nano) user (dedupeIDs (cg_member_phones req) user) (trim_space (cg_name req)) code
         (wdb w) (wdb w'))"
  using create_effect[of w rand nano ctx body resp w'] assms by (simp add: alone_def)

text \<open>Ann founds a second group with Bob in it.\<close>

definition club :: "json option" where
  "club = Some (JObj [(''name'', JStr ''club''), (''member_phones'', JArr [JStr ''bob''])])"

definition zeros :: "nat \<Rightarrow> 8 word list option" where
  "zeros n = Some (replicate n 0)"

lemma zeros_code: "randomHex zeros 12 = Some (replicate 24 (CHR ''0''))"
  by code_simp

lemma club_body: "decode_body create_fields no_create club = Some \<lparr>cg_name = ''club'', cg_description = [], cg_avatar_url = [], cg_member_phones = [''bob'']\<rparr>"
  by (simp add: club_def decode_body_def create_fields_def field_for_def decode_string_def decode_strings_def no_create_def)

theorem create_all_or_nothing_witness:
  "\<exists>row d. serve_group (signed ''ann'') (Create_group zeros 7 club) (calm_world (ann_and_bob ''member'')) = (row, d) \<and>
     succeeded row \<and> role_of (wdb d) (''grp_'' @ decimal 7) = [''ann'' \<mapsto> ''admin'', ''bob'' \<mapsto> ''member'']"
proof -
  have trim: "trim_space ''club'' = ''club''" "trim_space ''bob'' = ''bob''"
    by (simp_all add: trim_space_printable printable_def)
  have bob: "dedupeIDs [''bob''] ''ann'' = [''bob'']"
    by (simp add: dedupeIDs_def trim)
  obtain resp w' where run: "serve_group (signed ''ann'') (Create_group zeros 7 club) (calm_world (ann_and_bob ''member'')) = (resp, w')"
    by fastforce
  have new: "''grp_'' @ decimal 7 \<noteq> ''g''"
    by simp
  have fresh: "replicate 24 (CHR ''0'') \<noteq> ''c''"
    by (simp add: numeral_eq_Suc)
  have codes: "g_invite_code ` set (groups (ann_and_bob ''member'')) = {''c''}"
    by (simp add: ann_and_bob_def no_rows_def)
  have ok: "succeeded resp"
    using run
    by (auto simp: createGroup_def club_body trim bob zeros_code exec_simps ins_group_def ins_creator_def ins_member_def
        writing_def Let_def tx_view_def fresh codes)
  from create_all_or_nothing[OF _ run] ok have
    "created (''grp_'' @ decimal 7) ''ann'' [''bob''] ''club'' (replicate 24 (CHR ''0'')) (ann_and_bob ''member'') (wdb w')"
    by (auto simp: club_body bob trim zeros_code)
  then have "role_of (wdb w') (''grp_'' @ decimal 7) = [''ann'' \<mapsto> ''admin'', ''bob'' \<mapsto> ''member'']"
    using new by (auto simp: created_def abs_found_def abs_enroll_def fun_eq_iff)
  with run ok show ?thesis
    by blast
qed

end
