(* ===== verification/GroupGuards.thy ===== *)
theory GroupGuards
  imports GroupInvariant
begin

text \<open>
  The guards of the group handlers one by one: what a caller who is no admin can do, what the
  invite codes promise, and the two ways past the last-admin guard, a request that interleaves
  and a guard whose read fails.
\<close>

section \<open>The members of a request\<close>

text \<open>
  \<^verbatim>\<open>dedupeIDs\<close> lists the trimmed phones of its input once each, in the order of their first
  occurrence, without empty ones and without the one to skip; doing it again changes nothing.
\<close>

theorem dedupeIDs_contract:
  "distinct (dedupeIDs phones skip) \<and> subseq (dedupeIDs phones skip) (map trim_space phones) \<and>
   set (dedupeIDs phones skip) = {p \<in> trim_space ` set phones. \<not> (p = [] \<or> (skip \<noteq> [] \<and> p = skip))} \<and>
   dedupeIDs (dedupeIDs phones skip) skip = dedupeIDs phones skip"
  by (intro conjI ids.dd_distinct ids.dd_order ids.dd_set ids.dd_idem)

section \<open>Admin requests need an admin\<close>

fun admin_request :: "group_request \<Rightarrow> string option" where
  "admin_request (Update_group gid body) = Some gid"
| "admin_request (Add_members gid body) = Some gid"
| "admin_request (Remove_member gid p) = Some gid"
| "admin_request (Promote_admin gid p) = Some gid"
| "admin_request (Demote_admin gid p) = Some gid"
| "admin_request (Get_invite gid) = Some gid"
| "admin_request (Reset_invite rand gid) = Some gid"
| "admin_request _ = None"

lemma alone_isGroupAdmin:
  assumes "alone w" and "isGroupAdmin g p w = (b, w1)"
  shows "wdb w1 = wdb w \<and> (b \<longrightarrow> table_is_admin (wdb w) g p)"
proof -
  obtain r w' where call: "exec (sel_is_admin g p) w = (r, w')"
    by (cases "exec (sel_is_admin g p) w")
  from alone_exec_reading[OF assms(1) call[unfolded sel_is_admin_def]] assms(2) call show ?thesis
    by (auto simp: isGroupAdmin_def table_is_admin_def split: sum.splits)
qed

text \<open>
  C14. Nobody but an admin of the group gets anything from the admin requests: with calls failing
  at will, a caller whose row does not say admin is refused and the tables stay as they are.
\<close>

theorem non_admin_changes_nothing:
  assumes "\<And>n d. wenv w n d = d" and "admin_request rq = Some g"
    and "\<And>user. currentUserPhone ctx = Some user \<Longrightarrow> \<not> table_is_admin (wdb w) g user"
  shows "resp_code (fst (serve_group ctx rq w)) \<in> {400, 401, 403} \<and> wdb (snd (serve_group ctx rq w)) = wdb w"
proof (cases "currentUserPhone ctx")
  case None
  with assms(2) show ?thesis
    by (cases rq) (auto simp: updateGroup_def addGroupMembers_def removeGroupMember_def promoteGroupAdmin_def
        demoteGroupAdmin_def getGroupInvite_def resetGroupInvite_def)
next
  case (Some user)
  have "alone w"
    using assms(1) by (simp add: alone_def)
  obtain b w1 where call: "isGroupAdmin g user w = (b, w1)"
    by (cases "isGroupAdmin g user w")
  with alone_isGroupAdmin[OF \<open>alone w\<close>, of g user b w1] assms(3)[OF Some] have "\<not> b" "wdb w1 = wdb w"
    by auto
  with call Some assms(2) show ?thesis
    by (cases rq) (auto simp: updateGroup_def addGroupMembers_def removeGroupMember_def promoteGroupAdmin_def
        demoteGroupAdmin_def getGroupInvite_def resetGroupInvite_def)
qed

theorem non_admin_changes_nothing_witness:
  "wdb (snd (serve_group (signed ''bob'') (Remove_member ''g'' ''ann'') (calm_world (ann_and_bob ''member'')))) =
   ann_and_bob ''member''"
  using non_admin_changes_nothing[of "calm_world (ann_and_bob ''member'')" "Remove_member ''g'' ''ann''" "''g''" "signed ''bob''"]
    table_is_admin_role[of "ann_and_bob ''member''" "''g''" "''bob''"]
  by simp

section \<open>Invite codes\<close>

lemma randomHex_Some: "randomHex rand n = Some s \<longleftrightarrow> (\<exists>bs. rand n = Some bs \<and> s = hex_encode bs)"
  by (auto simp: randomHex_def)

text \<open>
  An invite code is 24 hexadecimal digits, and two codes are equal only if the twelve random
  bytes were.
\<close>

theorem invite_codes:
  assumes "randomHex rand 12 = Some s" and "randomHex rand' 12 = Some s'"
    and "length (the (rand 12)) = 12"
  shows "length s = 24 \<and> set s \<subseteq> set hex_alphabet \<and> (s = s' \<longrightarrow> rand 12 = rand' 12)"
proof -
  obtain bs bs' where bytes: "rand 12 = Some bs" "s = hex_encode bs" "rand' 12 = Some bs'" "s' = hex_encode bs'"
    using assms(1,2) unfolding randomHex_Some by blast
  have "length bs = 12"
    using assms(3) unfolding bytes(1) option.sel .
  show ?thesis
  proof (intro conjI impI)
    show "length s = 24"
      unfolding bytes(2) length_hex_encode \<open>length bs = 12\<close> by simp
    show "set s \<subseteq> set hex_alphabet"
      unfolding bytes(2) by (rule set_hex_encode)
    show "rand 12 = rand' 12" if "s = s'"
      using that unfolding bytes by (simp add: hex_encode_inj)
  qed
qed

theorem invite_codes_witness:
  "length (the (randomHex (\<lambda>n. Some (replicate n 7)) 12)) = 24"
  using invite_codes[of "\<lambda>n. Some (replicate n 7)" "the (randomHex (\<lambda>n. Some (replicate n 7)) 12)"
      "\<lambda>n. Some (replicate n 7)" "the (randomHex (\<lambda>n. Some (replicate n 7)) 12)"]
  by (simp add: randomHex_def)

definition invite_body :: "string \<Rightarrow> json option" where
  "invite_body code = Some (JObj [(''invite_code'', JStr code)])"

lemma decode_invite_body: "decode_body invite_fields [] (invite_body c) = Some c"
  by (simp add: decode_body_def invite_body_def invite_fields_def field_for_def decode_string_def)

lemma joins_by_code:
  assumes "calm w" and "signed_in ctx u" and "trim_space c = c" and "c \<noteq> []"
  shows "case find (\<lambda>r. g_invite_code r = c) (groups (wdb w)) of
      None \<Rightarrow> resp_code (fst (joinByInvite ctx (invite_body c) w)) = 400
         \<and> wdb (snd (joinByInvite ctx (invite_body c) w)) = wdb w
    | Some r \<Rightarrow> resp_code (fst (joinByInvite ctx (invite_body c) w)) = 200
         \<and> roles_in (snd (joinByInvite ctx (invite_body c) w)) = (roles_in w)(g_id r := abs_enroll u (roles_in w (g_id r)))"
  using assms
  by (auto simp: joinByInvite_def signed_in_def decode_invite_body sel_by_invite_def exec_simps Let_def row_simps
      roles_in_def split: option.split)

lemma find_code_upd:
  assumes "distinct (map g_id rows)" and "distinct (map g_invite_code rows)" and "r \<in> set rows"
    and "\<And>x. x \<in> set rows \<Longrightarrow> g_id x \<noteq> g_id r \<Longrightarrow> g_invite_code x \<noteq> c"
  shows "find (\<lambda>x. g_invite_code x = c)
      (map (\<lambda>x. if g_id x = g_id r then x\<lparr>g_invite_code := c, g_updated_at := t\<rparr> else x) rows)
    = Some (r\<lparr>g_invite_code := c, g_updated_at := t\<rparr>)"
  using assms by (induction rows) (auto simp: image_iff)

lemma find_code_gone:
  assumes "distinct (map g_invite_code rows)" and "r \<in> set rows" and "c \<noteq> g_invite_code r"
  shows "find (\<lambda>x. g_invite_code x = g_invite_code r)
      (map (\<lambda>x. if g_id x = g_id r then x\<lparr>g_invite_code := c, g_updated_at := t\<rparr> else x) rows) = None"
proof -
  have "g_invite_code x \<noteq> g_invite_code r" if "x \<in> set rows" "g_id x \<noteq> g_id r" for x
    using assms(1,2) that by (metis distinct_map inj_onD)
  then have "g_invite_code (if g_id x = g_id r then x\<lparr>g_invite_code := c, g_updated_at := t\<rparr> else x) \<noteq> g_invite_code r"
    if "x \<in> set rows" for x
    using that assms(3) by (cases "g_id x = g_id r") simp_all
  then show ?thesis
    unfolding find_None_conv_ex set_map by blast
qed

lemma reset_effect:
  assumes "calm w" and "resetGroupInvite rand ctx g w = (resp, w1)" and "succeeded resp" and "randomHex rand 12 = Some c"
  obtains e where "upd_invite g c e (wdb w) = Inr ((), wdb w1)"
  using assms that
  by (auto simp: resetGroupInvite_def guard_simps exec_undisturbed split: option.splits if_splits sum.splits)

lemma upd_invite_rows:
  assumes "upd_invite (g_id r) c e d = Inr ((), d')" and "r \<in> set (groups d)"
  shows "groups d' = map (\<lambda>x. if g_id x = g_id r then x\<lparr>g_invite_code := c, g_updated_at := pg_now e\<rparr> else x) (groups d)"
    and "\<And>x. x \<in> set (groups d) \<Longrightarrow> g_id x \<noteq> g_id r \<Longrightarrow> g_invite_code x \<noteq> c"
  using assms by (auto simp: upd_invite_def upd_group_where_def split: if_splits)

text \<open>
  Resetting an invite retires the old code and arms the new one: afterwards nobody joins by
  the old code, and whoever sends the new one becomes a member of that group.
\<close>

theorem reset_retires_code:
  assumes "calm w" and "r \<in> set (groups (wdb w))" and "g_invite_code r = old"
    and "serve_group ctx (Reset_invite rand (g_id r)) w = (resp, w1)" and "succeeded resp"
    and "randomHex rand 12 = Some new" and "new \<noteq> old"
    and "trim_space old = old" and "old \<noteq> []" and "trim_space new = new" and "new \<noteq> []" and "signed_in ctx' u"
  shows "resp_code (fst (serve_group ctx' (Join_by_invite (invite_body old)) w1)) = 400 \<and>
    roles_in (snd (serve_group ctx' (Join_by_invite (invite_body new)) w1)) (g_id r) u \<noteq> None"
proof -
  have "calm w1"
    using calm_serve[OF assms(1), of ctx "Reset_invite rand (g_id r)"] assms(4) by simp
  have "resetGroupInvite rand ctx (g_id r) w = (resp, w1)"
    using assms(4) by simp
  then obtain e where upd: "upd_invite (g_id r) new e (wdb w) = Inr ((), wdb w1)"
    using reset_effect assms(1,5,6) by blast
  note rows = upd_invite_rows(1)[OF upd assms(2)] and free = upd_invite_rows(2)[OF upd assms(2)]
  have ok: "distinct (map g_id (groups (wdb w)))" "distinct (map g_invite_code (groups (wdb w)))"
    using db_ok_keys(8,9) assms(1) by simp_all
  have "find (\<lambda>x. g_invite_code x = old) (groups (wdb w1)) = None"
    unfolding rows using find_code_gone[OF ok(2) assms(2)] assms(3,7) by simp
  moreover have "find (\<lambda>x. g_invite_code x = new) (groups (wdb w1)) = Some (r\<lparr>g_invite_code := new, g_updated_at := pg_now e\<rparr>)"
    unfolding rows using find_code_upd[OF ok assms(2)] free by blast
  ultimately show ?thesis
    using joins_by_code[OF \<open>calm w1\<close> assms(12,8,9)] joins_by_code[OF \<open>calm w1\<close> assms(12,10,11)]
    by (simp add: abs_enroll_def)
qed

definition sevens :: "nat \<Rightarrow> 8 word list option" where
  "sevens n = Some (replicate n 7)"

lemma sevens_code: "randomHex sevens 12 = Some (concat (replicate 12 ''07''))"
  by code_simp

theorem reset_retires_code_witness:
  "resp_code (fst (serve_group (signed ''bob'') (Join_by_invite (invite_body ''c''))
     (snd (serve_group (signed ''ann'') (Reset_invite sevens ''g'') (calm_world (ann_and_bob ''member'')))))) = 400"
proof -
  let ?w = "calm_world (ann_and_bob ''member'')"
  let ?r = "hd (groups (ann_and_bob ''member''))"
  have row: "?r \<in> set (groups (wdb ?w))" "g_id ?r = ''g''" "g_invite_code ?r = ''c''"
    by (simp_all add: ann_and_bob_def no_rows_def)
  have ok: "succeeded (fst (serve_group (signed ''ann'') (Reset_invite sevens ''g'') ?w))"
    by (simp add: resetGroupInvite_def guard_simps sevens_code exec_undisturbed upd_invite_def)
      (simp add: ann_and_bob_def no_rows_def)
  have new: "trim_space (concat (replicate 12 ''07'')) = concat (replicate 12 ''07'')"
    by (rule trim_space_printable) (simp_all add: printable_def numeral_eq_Suc)
  have "resp_code (fst (serve_group (signed ''bob'') (Join_by_invite (invite_body ''c''))
     (snd (serve_group (signed ''ann'') (Reset_invite sevens (g_id ?r)) ?w)))) = 400"
    using reset_retires_code[OF _ row(1,3) prod.collapse[symmetric] _ sevens_code _ _ _ new, of "signed ''ann''" "signed ''bob''" "''bob''"] ok
    unfolding row(2) by (simp add: signed_in_def trim_space_printable printable_def numeral_eq_Suc)
  then show ?thesis
    unfolding row(2) .
qed

section \<open>Past the guard\<close>

text \<open>The request of another session, served entirely before call \<open>k\<close> of this one.\<close>

definition interleaved :: "nat \<Rightarrow> (world \<Rightarrow> response \<times> world) \<Rightarrow> db \<Rightarrow> world" where
  "interleaved k other d =
     (calm_world d)\<lparr>wenv := (\<lambda>n d. if n = k then wdb (snd (other (calm_world d))) else d)\<rparr>"

lemma interleaved_simps [simp]:
  "wdb (interleaved k f d) = d" "wtick (interleaved k f d) = 0" "wfault (interleaved k f d) n = Served"
  "wenv (interleaved k f d) n d' = (if n = k then wdb (snd (f (calm_world d'))) else d')"
  by (simp_all add: interleaved_def calm_world_def)

lemma served_call:
  assumes "wfault w (wtick w) = Served" and "wenv w (wtick w) (wdb w) = d'"
  shows "exec (reading f) w = (Inr (f d'), next_call d' w)"
    "exec (writing h) w = (Inr (), next_call (h (wpg w (wtick w)) d') w)"
  using assms by (simp_all add: exec_def reading_def writing_def advance_def next_call_def Let_def)

lemma demote_interleaved:
  assumes "db_ok d" and "signed_in ctx a" and "role_of d g a = Some ''admin''" and "role_of d g b = Some ''admin''"
    and "1 < card (admins (role_of d g))"
  shows "\<exists>w'. demoteGroupAdmin ctx g b (interleaved 3 f d) = (writeJSON 200 ok_body, w') \<and>
    role_of (wdb w') = (role_of (wdb (snd (f (calm_world d)))))(g := abs_assign b ''member'' (role_of (wdb (snd (f (calm_world d)))) g))"
proof -
  let ?w = "interleaved 3 f d" and ?d = "wdb (snd (f (calm_world d)))"
  have admin: "(\<exists>r\<in>set (group_members d). member_row g p r \<and> gm_role r = ''admin'') \<longleftrightarrow> role_of d g p = Some ''admin''" for p
    using table_is_admin_role[OF assms(1)] by (simp add: table_is_admin_def)
  have total: "length (filter (\<lambda>r. gm_group_id r = g \<and> gm_role r = ''admin'') (group_members d)) = card (admins (role_of d g))"
    using table_admins_card[OF assms(1), of g] by (simp add: table_admins_def)
  let ?e = "wpg ?w 3" and ?e' = "wpg ?w 4"
  have "demoteGroupAdmin ctx g b ?w = (writeJSON 200 ok_body,
      next_call (run (touch_group g) ?e' (run (upd_role g b ''member'') ?e ?d))
        (next_call (run (upd_role g b ''member'') ?e ?d) (next_call d (next_call d (next_call d ?w)))))"
    using assms(2-5)
    by (simp add: demoteGroupAdmin_def signed_in_def isGroupAdmin_def adminCount_def sel_is_admin_def sel_admin_count_def
        served_call admin total upd_role_def touch_group_def eval_nat_numeral)
  then show ?thesis
    by (simp add: row_simps)
qed

text \<open>
  C29. The last-admin guard of \<^verbatim>\<open>demoteGroupAdmin\<close> does not survive interleaving: where a group has
  two admins and each demotes the other, the second request served between the first one's check
  and its update, both answer 200 and the group is left without an admin.
\<close>

theorem demote_race:
  assumes "db_ok d" and "admins (role_of d g) = {a, b}" and "a \<noteq> b"
    and "signed_in ctx a" and "signed_in ctx' b"
  shows "resp_code (fst (demoteGroupAdmin ctx' g a (calm_world d))) = 200 \<and>
    (let (resp, w') = demoteGroupAdmin ctx g b (interleaved 3 (demoteGroupAdmin ctx' g a) d)
     in resp_code resp = 200 \<and> \<not> led (roles_in w' g))"
proof -
  let ?other = "demoteGroupAdmin ctx' g a (calm_world d)"
  have ab: "role_of d g a = Some ''admin''" "role_of d g b = Some ''admin''" "card (admins (role_of d g)) = 2"
    using assms(2,3) by (auto simp: admins_def)
  have other: "resp_code (fst ?other) = 200" "role_of (wdb (snd ?other)) = (role_of d)(g := abs_assign a ''member'' (role_of d g))"
    using membership_step[of "calm_world d" ctx' b "Demote a" g] assms(1,5) ab
    by (simp_all add: spec_serve_def roles_in_def)
  obtain w' where w': "demoteGroupAdmin ctx g b (interleaved 3 (demoteGroupAdmin ctx' g a) d) = (writeJSON 200 ok_body, w')"
    "role_of (wdb w') = (role_of (wdb (snd ?other)))(g := abs_assign b ''member'' (role_of (wdb (snd ?other)) g))"
    using demote_interleaved[OF assms(1,4) ab(1,2), of "demoteGroupAdmin ctx' g a"] ab(3) by auto
  have "p \<in> {a, b}" if "role_of d g p = Some ''admin''" for p
    using that assms(2) by (auto simp: admins_def)
  then have "\<not> led (abs_assign b ''member'' (abs_assign a ''member'' (role_of d g)))"
    using ab by (auto simp: led_def abs_assign_def split: if_splits)
  then show ?thesis
    using other w' by (simp add: roles_in_def)
qed

theorem demote_race_witness:
  "\<not> led (roles_in (snd (demoteGroupAdmin (signed ''ann'') ''g'' ''bob''
     (interleaved 3 (demoteGroupAdmin (signed ''bob'') ''g'' ''ann'') (ann_and_bob ''admin'')))) ''g'')"
proof -
  have "admins (role_of (ann_and_bob ''admin'') ''g'') = {''ann'', ''bob''}"
    by (auto simp: admins_def split: if_splits)
  from demote_race[OF _ this, of "signed ''ann''" "signed ''bob''"] show ?thesis
    by (simp add: signed_in_def split: prod.splits)
qed

text \<open>
  C30. The guard of \<^verbatim>\<open>removeGroupMember\<close> fails open: when the read that asks whether the target is an
  admin gets no answer, the target goes, even the caller themself as the only admin, and the
  answer is 200.
\<close>

theorem failed_guard_removes:
  assumes "db_ok d" and "signed_in ctx u" and "role_of d g u = Some ''admin''" and "target \<noteq> []"
    and "removeGroupMember ctx g target
       ((calm_world d)\<lparr>wfault := (\<lambda>n. if n = 1 then Request_lost else Served)\<rparr>) = (resp, w')"
  shows "resp_code resp = 200 \<and> roles_in w' g = (role_of d g)(target := None)"
proof -
  define w where "w = (calm_world d)\<lparr>wfault := (\<lambda>n. if n = 1 then Request_lost else Served)\<rparr>"
  have simps: "wdb w = d" "wtick w = 0" "wenv w n x = x" "wfault w n = (if n = 1 then Request_lost else Served)" for n x
    by (simp_all add: w_def calm_world_def)
  have "(\<exists>r\<in>set (group_members d). member_row g u r \<and> gm_role r = ''admin'')"
    using table_is_admin_role[OF assms(1)] assms(3) by (simp add: table_is_admin_def)
  then have "isGroupAdmin g u w = (True, next_call d w)"
    by (simp add: isGroupAdmin_def sel_is_admin_def served_call[of w d] simps)
  moreover have "last_admin g target (next_call d w) = (False, next_call d (next_call d w))"
    by (simp add: last_admin_def isGroupAdmin_def exec_def advance_def next_call_def simps Let_def)
  moreover have "exec (del_member g target) (next_call d (next_call d w)) =
      (Inr (), next_call (run (del_member g target) (wpg w 2) d) (next_call d (next_call d w)))"
    by (simp add: del_member_def served_call simps eval_nat_numeral)
  moreover have "role_of (wdb (snd (exec (touch_group g) (next_call x (next_call d (next_call d w)))))) = role_of x" for x
    by (simp add: touch_group_def served_call simps row_simps)
  ultimately have "removeGroupMember ctx g target w = (writeJSON 200 ok_body, w') \<and>
      role_of (wdb w') = role_of (run (del_member g target) (wpg w 2) d)"
    using assms(2,4) assms(5)[folded w_def] by (simp add: removeGroupMember_def signed_in_def) force
  then show ?thesis
    using assms(5)[folded w_def] by (simp add: roles_in_def row_simps abs_expel_def)
qed

theorem failed_guard_removes_witness:
  "roles_in (snd (removeGroupMember (signed ''ann'') ''g'' ''ann''
     ((calm_world (ann_and_bob ''member''))\<lparr>wfault := (\<lambda>n. if n = 1 then Request_lost else Served)\<rparr>))) ''g'' =
   [''bob'' \<mapsto> ''member'']"
  using failed_guard_removes[of "ann_and_bob ''member''" "signed ''ann''" "''ann''" "''g''" "''ann''", OF _ _ _ _ prod.collapse[symmetric]]
  by (simp add: signed_in_def fun_eq_iff)

section \<open>A listing that is cut off\<close>

text \<open>
  C28. \<^verbatim>\<open>getGroup\<close> takes a list of members that broke off for the whole one: when the connection fails
  after \<open>k\<close> rows the member who asks is answered 200 with the first \<open>k\<close> members, next to the count of all of
  them, as if the reading had gone well (on an otherwise calm store). \<^verbatim>\<open>listGroups\<close> answers 500 to the
  same failure.
\<close>

theorem cut_listing_is_answered:
  assumes "calm w" and "signed_in ctx user" and "g \<noteq> []" and "roles_in w g user \<noteq> None" and "g \<in> group_ids (wdb w)"
  shows "\<exists>row ms. row \<in> set (groups (wdb w)) \<and> g_id row = g \<and>
    mset ms = mset (filter (\<lambda>r. gm_group_id r = g) (group_members (wdb w))) \<and>
    fst (getGroup All_rows ctx g w) = writeJSON 200 (groupResponse row (length ms) ms) \<and>
    fst (getGroup (Cut_after k) ctx g w) = writeJSON 200 (groupResponse row (length ms) (take k ms)) \<and>
    resp_code (fst (listGroups (Cut_after j) ctx w)) = 500"
proof -
  let ?ms = "sort_key gm_created_at (filter (\<lambda>r. gm_group_id r = g) (group_members (wdb w)))"
  obtain row where row: "find (\<lambda>r. g_id r = g) (groups (wdb w)) = Some row"
    using assms(5) by (cases "find (\<lambda>r. g_id r = g) (groups (wdb w))") (auto simp: group_ids_def find_None_iff)
  then have "row \<in> set (groups (wdb w))" "g_id row = g"
    by (auto simp: find_Some_iff)
  moreover have "member_count (wdb w) g = length ?ms"
    by (simp add: member_count_def)
  moreover have "getGroup e ctx g w = (case scan_rows e ?ms of
      Inl _ \<Rightarrow> (writeError 500 ''member scan failed'', next_call (wdb w) (next_call (wdb w) (next_call (wdb w) w)))
    | Inr (ms, _) \<Rightarrow> (writeJSON 200 (groupResponse row (member_count (wdb w) g) ms),
        next_call (wdb w) (next_call (wdb w) (next_call (wdb w) w))))" for e
    using assms row by (auto simp: getGroup_def signed_in_def guard_simps exec_simps sel_group_def sel_members_def
        split: sum.split)
  moreover have "resp_code (fst (listGroups (Cut_after j) ctx w)) = 500"
    using assms(1,2) by (simp add: listGroups_def signed_in_def exec_simps sel_my_groups_def)
  ultimately show ?thesis
    by (intro exI[of _ row] exI[of _ ?ms]) simp
qed

theorem cut_listing_is_answered_witness:
  "\<exists>row. fst (getGroup (Cut_after 0) (signed ''bob'') ''g'' (calm_world (ann_and_bob ''member''))) =
     writeJSON 200 (groupResponse row 2 [])"
proof -
  have "signed_in (signed ''bob'') ''bob''" "''g'' \<in> group_ids (ann_and_bob ''member'')"
    by (simp_all add: signed_in_def group_ids_def)
  then obtain row ms where ms: "mset ms = mset (filter (\<lambda>r. gm_group_id r = ''g'') (group_members (ann_and_bob ''member'')))"
    and got: "fst (getGroup (Cut_after 0) (signed ''bob'') ''g'' (calm_world (ann_and_bob ''member''))) =
      writeJSON 200 (groupResponse row (length ms) [])"
    using cut_listing_is_answered[of "calm_world (ann_and_bob ''member'')" "signed ''bob''" "''bob''" "''g''" 0 0]
    by auto
  have "length ms = 2"
    using mset_eq_length[OF ms] by (simp add: ann_and_bob_def)
  with got show ?thesis
    by auto
qed

end
