(* ===== verification/ChatService.thy ===== *)
theory ChatService
  imports Queries Dedupe "HOL-Library.Char_ord" "HOL-Library.List_Lexorder"
begin

text \<open>
  services/chat-service/cmd/server.go: sending a message, reading the history, the status of a
  message, and the delivery to one recipient. The world of Database is extended by what else the
  service touches: a replica that may lag, the event bus as the list of what it took, and Redis
  (presence keys that other services write, the pub/sub channels as the list of what was
  published, and the offline lists with their expiry).

  Parameters: the struct validator, the text of a database error, the collation, the clock, and
  the order in which the workers of a fan-out get to the recipients (FanOut shows which orders
  there are). A delivery is one step of that order: deliveries to different recipients write
  different keys and rows.
\<close>

section \<open>Messages\<close>

record sendMessageRequest =
  sm_sender_phone :: string
  sm_recipient_phones :: "string list"
  sm_group_id :: string
  sm_body :: string

record sendMessageResponse =
  sr_message_id :: string
  sr_server_ts :: int

record chatMessage =
  c_message_id :: string
  c_sender_phone :: string
  c_recipient_phones :: "string list"
  c_body :: string
  c_status :: string
  c_created_at :: int

record getHistoryRequest =
  hr_conversation_id :: string
  hr_cursor :: string
  hr_limit :: int

record getHistoryResponse =
  hs_messages :: "chatMessage list"
  hs_next_cursor :: string

record markStatusRequest =
  mk_message_id :: string
  mk_user_phone :: string
  mk_status :: string

datatype event = Message_event chatMessage | Status_event markStatusRequest

section \<open>The world of the service\<close>

record chat_world = world +
  replica_view :: "nat \<Rightarrow> db \<Rightarrow> db"
  redis_keys :: "nat \<Rightarrow> string \<Rightarrow> string option"
  bus_log :: "(string \<times> event) list"
  pubsub_log :: "(string \<times> json) list"
  redis_lists :: "string \<Rightarrow> json list"
  redis_ttl :: "string \<Rightarrow> int option"

record chat_cfg =
  cfg_err_text :: "sql_error \<Rightarrow> string"
  cfg_collation :: "string \<Rightarrow> string"

text \<open>A query on the replica reads tables the primary had, as far as replication has come.\<close>

definition exec_replica :: "'r stmt \<Rightarrow> chat_world \<Rightarrow> (sql_error + 'r) \<times> chat_world" where
  "exec_replica stmt w =
     (let w1 = advance w in
      if wfault w (wtick w) \<noteq> Served then (Inl Connection_lost, w1)
      else (case stmt (wpg w (wtick w)) (replica_view w (wtick w) (wdb w1)) of
              Inl e \<Rightarrow> (Inl e, w1)
            | Inr (r, _) \<Rightarrow> (Inr r, w1)))"

text \<open>A call to Redis or the bus that the caller does not wait on twice: lost before or after.\<close>

definition call_out :: "(chat_world \<Rightarrow> chat_world) \<Rightarrow> chat_world \<Rightarrow> bool \<times> chat_world" where
  "call_out f w =
     (let w1 = advance w in
      case wfault w (wtick w) of
        Served \<Rightarrow> (True, f w1)
      | Request_lost \<Rightarrow> (False, w1)
      | Reply_lost \<Rightarrow> (False, f w1))"

definition bus_publish :: "string \<Rightarrow> event \<Rightarrow> chat_world \<Rightarrow> bool \<times> chat_world" where
  "bus_publish stream ev = call_out (\<lambda>w. w\<lparr>bus_log := bus_log w @ [(stream, ev)]\<rparr>)"

definition redis_publish :: "string \<Rightarrow> json \<Rightarrow> chat_world \<Rightarrow> bool \<times> chat_world" where
  "redis_publish channel payload = call_out (\<lambda>w. w\<lparr>pubsub_log := pubsub_log w @ [(channel, payload)]\<rparr>)"

text \<open>The pipeline of \<^verbatim>\<open>LPUSH\<close> and \<^verbatim>\<open>EXPIRE\<close> is one round trip.\<close>

definition redis_push :: "string \<Rightarrow> json \<Rightarrow> int \<Rightarrow> chat_world \<Rightarrow> bool \<times> chat_world" where
  "redis_push key payload ttl = call_out (\<lambda>w.
     w\<lparr>redis_lists := (redis_lists w)(key := payload # redis_lists w key),
       redis_ttl := (redis_ttl w)(key \<mapsto> ttl)\<rparr>)"

definition redis_get :: "string \<Rightarrow> chat_world \<Rightarrow> string option \<times> chat_world" where
  "redis_get key w =
     (if wfault w (wtick w) = Served then redis_keys w (wtick w) key else None, advance w)"

section \<open>Names and lists\<close>

definition maxHistoryLimit :: int where "maxHistoryLimit = 50"

definition groupWorkerCount :: nat where "groupWorkerCount = 20"

definition offlineTTL :: int where "offlineTTL = 24 * 3600 * 1000000000"

definition senderChannel :: "string \<Rightarrow> string" where
  "senderChannel userPhone = ''pod:user:'' @ userPhone"

definition offlineKey :: "string \<Rightarrow> string" where
  "offlineKey userPhone = ''offline:'' @ userPhone"

definition presenceKey :: "string \<Rightarrow> string" where
  "presenceKey userPhone = ''presence:user:'' @ userPhone"

fun recipients_from :: "string list \<Rightarrow> string \<Rightarrow> string list \<Rightarrow> string list" where
  "recipients_from [] senderPhone seen = []"
| "recipients_from (i # ids) senderPhone seen =
     (let i = trim_space i in
      if i = [] \<or> i = senderPhone then recipients_from ids senderPhone seen
      else if i \<in> set seen then recipients_from ids senderPhone seen
      else i # recipients_from ids senderPhone (i # seen))"

definition dedupeRecipients :: "string list \<Rightarrow> string \<Rightarrow> string list" where
  "dedupeRecipients ids senderPhone = recipients_from ids senderPhone []"

definition buildConversationID :: "string \<Rightarrow> string list \<Rightarrow> string \<Rightarrow> string" where
  "buildConversationID sender recipients groupID =
     (if groupID \<noteq> [] then ''group:'' @ groupID
      else case recipients of
             [] \<Rightarrow> ''dm:'' @ sender
           | r # _ \<Rightarrow> (let pair = sort [sender, r] in ''dm:'' @ pair ! 0 @ '':'' @ pair ! 1))"

text \<open>The loop of \<^verbatim>\<open>batchRecipients\<close> from index \<open>i\<close> on.\<close>

function batches_from :: "string list \<Rightarrow> nat \<Rightarrow> nat \<Rightarrow> string list list" where
  "batches_from recipients n i =
     (if n = 0 \<or> length recipients \<le> i then []
      else let e = min (i + n) (length recipients) in
        drop i (take e recipients) # batches_from recipients n (i + n))"
  by auto
termination
  by (relation "measure (\<lambda>(rs, n, i). length rs - i)") auto

declare batches_from.simps [simp del]

definition batchRecipients :: "string list \<Rightarrow> int \<Rightarrow> string list list" where
  "batchRecipients recipients batchSize =
     (let n = (if batchSize \<le> 0 then 64 else nat batchSize) in
      if recipients = [] then [] else batches_from recipients n 0)"

section \<open>Delivery to one recipient\<close>

definition sent_payload :: "chatMessage \<Rightarrow> string \<Rightarrow> json" where
  "sent_payload m userPhone = JObj
     [(''body'', JStr (c_body m)), (''message_id'', JStr (c_message_id m)),
      (''recipient_phone'', JStr userPhone), (''sender_phone'', JStr (c_sender_phone m)),
      (''server_ts'', JTime (c_created_at m)), (''type'', JStr ''msg.sent'')]"

definition isOnline :: "string \<Rightarrow> chat_world \<Rightarrow> bool \<times> chat_world" where
  "isOnline userPhone w =
     (case redis_get (presenceKey userPhone) w of
        (None, w) \<Rightarrow> (False, w)
      | (Some v, w) \<Rightarrow> (equal_fold v ''online'', w))"

definition deliverToRecipient :: "string \<Rightarrow> chatMessage \<Rightarrow> chat_world \<Rightarrow> chat_world" where
  "deliverToRecipient userPhone eventMsg w =
     (let payload = sent_payload eventMsg userPhone in
      case isOnline userPhone w of
        (True, w) \<Rightarrow>
          (case redis_publish (senderChannel userPhone) payload w of
             (_, w) \<Rightarrow> snd (exec (UpsertMessageStatus (c_message_id eventMsg) userPhone ''delivered'') w))
      | (False, w) \<Rightarrow> snd (redis_push (offlineKey userPhone) payload offlineTTL w))"

definition deliver_all :: "string list \<Rightarrow> chatMessage \<Rightarrow> chat_world \<Rightarrow> chat_world" where
  "deliver_all ps eventMsg = fold (\<lambda>p. deliverToRecipient p eventMsg) ps"

text \<open>\<open>schedule\<close> is the order the workers take.\<close>

definition groupFanout :: "(string list list \<Rightarrow> string list) \<Rightarrow> string list \<Rightarrow> chatMessage \<Rightarrow> chat_world \<Rightarrow> chat_world" where
  "groupFanout schedule recipients eventMsg =
     deliver_all (schedule (batchRecipients recipients 64)) eventMsg"

section \<open>Handlers\<close>

record sendMessageInput =
  in_sender :: string
  in_recipients :: "string list"
  in_group :: string
  in_body :: string

definition input_of :: "sendMessageRequest \<Rightarrow> sendMessageInput" where
  "input_of req =
     \<lparr>in_sender = trim_space (sm_sender_phone req), in_recipients = sm_recipient_phones req,
      in_group = trim_space (sm_group_id req), in_body = sm_body req\<rparr>"

definition resolve_recipients :: "chat_cfg \<Rightarrow> sendMessageInput \<Rightarrow> chat_world \<Rightarrow> (rpc_error + string list) \<times> chat_world" where
  "resolve_recipients cfg inp w =
     (if in_group inp \<noteq> [] then
        (case exec_replica (GetGroupMembers (in_group inp)) w of
           (Inl e, w) \<Rightarrow> (Inl (Internal, ''group members read failed: '' @ cfg_err_text cfg e), w)
         | (Inr members, w) \<Rightarrow> (Inr (dedupeRecipients members (in_sender inp)), w))
      else (Inr (dedupeRecipients (in_recipients inp) (in_sender inp)), w))"

definition insert_params :: "sendMessageInput \<Rightarrow> string list \<Rightarrow> string \<Rightarrow> InsertMessageParams" where
  "insert_params inp recipients conversationID =
     \<lparr>i_sender_phone = in_sender inp,
      i_recipient_phone = (if in_group inp \<noteq> [] then None else case recipients of [] \<Rightarrow> None | r # _ \<Rightarrow> Some r),
      i_group_id = (if in_group inp \<noteq> [] then Some (in_group inp) else None),
      i_body_encrypted = in_body inp, i_body_type = ''text'', i_body = in_body inp,
      i_conversation_id = conversationID\<rparr>"

definition event_message :: "message \<Rightarrow> string list \<Rightarrow> chatMessage" where
  "event_message msg recipients =
     \<lparr>c_message_id = m_id msg, c_sender_phone = m_sender_phone msg, c_recipient_phones = recipients,
      c_body = m_body_encrypted msg, c_status = ''sent'', c_created_at = m_server_ts msg\<rparr>"

text \<open>The writes on the primary, then what is announced and delivered, as \<^verbatim>\<open>SendMessage\<close> does them.\<close>

definition store_message :: "chat_cfg \<Rightarrow> sendMessageInput \<Rightarrow> string list \<Rightarrow> chat_world \<Rightarrow> (rpc_error + message) \<times> chat_world" where
  "store_message cfg inp recipients w =
     (let conversationID = buildConversationID (in_sender inp) recipients (in_group inp);
          kind = (if in_group inp \<noteq> [] then ''group'' else ''direct'') in
      case exec (EnsureConversation conversationID kind) w of
        (Inl e, w) \<Rightarrow> (Inl (Internal, ''conversation ensure failed: '' @ cfg_err_text cfg e), w)
      | (Inr _, w) \<Rightarrow>
     (case exec (InsertMessage (insert_params inp recipients conversationID)) w of
        (Inl e, w) \<Rightarrow> (Inl (Internal, ''message insert failed: '' @ cfg_err_text cfg e), w)
      | (Inr msg, w) \<Rightarrow> (Inr msg, w)))"

definition announce ::
  "(string list list \<Rightarrow> string list) \<Rightarrow> sendMessageInput \<Rightarrow> string list \<Rightarrow> message \<Rightarrow> chat_world \<Rightarrow> chat_world" where
  "announce schedule inp recipients msg w =
     (let w = snd (exec (UpsertMessageStatus (m_id msg) (in_sender inp) ''sent'') w);
          eventMsg = event_message msg recipients;
          w = snd (bus_publish ''msg.sent'' (Message_event eventMsg) w)
      in if in_group inp \<noteq> [] then groupFanout schedule recipients eventMsg w
         else deliver_all recipients eventMsg w)"

definition SendMessage ::
  "(sendMessageInput \<Rightarrow> string option) \<Rightarrow> chat_cfg \<Rightarrow> (string list list \<Rightarrow> string list) \<Rightarrow> sendMessageRequest
     \<Rightarrow> chat_world \<Rightarrow> (rpc_error + sendMessageResponse) \<times> chat_world" where
  "SendMessage validate cfg schedule req w =
     (let inp = input_of req in
      case validate inp of
        Some err \<Rightarrow> (Inl (InvalidArgument, ''validation failed: '' @ err), w)
      | None \<Rightarrow>
     (case resolve_recipients cfg inp w of
        (Inl e, w) \<Rightarrow> (Inl e, w)
      | (Inr recipients, w) \<Rightarrow>
      if recipients = [] then (Inl (InvalidArgument, ''no recipients resolved''), w)
      else
     (case store_message cfg inp recipients w of
        (Inl e, w) \<Rightarrow> (Inl e, w)
      | (Inr msg, w) \<Rightarrow>
        (Inr \<lparr>sr_message_id = m_id msg, sr_server_ts = m_server_ts msg\<rparr>, announce schedule inp recipients msg w))))"

definition effective_limit :: "int \<Rightarrow> int" where
  "effective_limit limit =
     (let limit = (if limit \<le> 0 then 20 else limit) in
      if limit > maxHistoryLimit then maxHistoryLimit else limit)"

definition history_message :: "message \<Rightarrow> chatMessage" where
  "history_message row =
     \<lparr>c_message_id = m_id row, c_sender_phone = m_sender_phone row,
      c_recipient_phones = (case m_recipient_phone row of None \<Rightarrow> [] | Some r \<Rightarrow> if r \<noteq> [] then [r] else []),
      c_body = m_body_encrypted row, c_status = [], c_created_at = m_server_ts row\<rparr>"

definition GetHistory :: "chat_cfg \<Rightarrow> getHistoryRequest \<Rightarrow> chat_world \<Rightarrow> (rpc_error + getHistoryResponse) \<times> chat_world" where
  "GetHistory cfg req w =
     (let limit = effective_limit (hr_limit req);
          conversationID = trim_space (hr_conversation_id req) in
      if conversationID = [] then (Inl (InvalidArgument, ''conversation_id is required''), w)
      else
     (case exec_replica (GetMessageHistory (cfg_collation cfg)
             \<lparr>h_conversation_id = conversationID, h_cursor = trim_space (hr_cursor req), h_limit = limit\<rparr>) w of
        (Inl e, w) \<Rightarrow> (Inl (Internal, ''history read failed: '' @ cfg_err_text cfg e), w)
      | (Inr rows, w) \<Rightarrow>
        (Inr \<lparr>hs_messages = map history_message rows,
              hs_next_cursor = (if int (length rows) = limit then m_id (last rows) else [])\<rparr>, w)))"

definition markStatus ::
  "chat_cfg \<Rightarrow> markStatusRequest \<Rightarrow> string \<Rightarrow> string \<Rightarrow> chat_world \<Rightarrow> (rpc_error + bool) \<times> chat_world" where
  "markStatus cfg req statusValue stream w =
     (let msgID = trim_space (mk_message_id req); userPhone = trim_space (mk_user_phone req) in
      if msgID = [] \<or> userPhone = [] then
        (Inl (InvalidArgument, ''message_id and user_phone are required''), w)
      else
     (case exec (UpsertMessageStatus msgID userPhone statusValue) w of
        (Inl e, w) \<Rightarrow> (Inl (Internal, ''status upsert failed: '' @ cfg_err_text cfg e), w)
      | (Inr _, w) \<Rightarrow>
        (Inr True, snd (bus_publish stream
           (Status_event \<lparr>mk_message_id = msgID, mk_user_phone = userPhone, mk_status = statusValue\<rparr>) w))))"

definition MarkDelivered :: "chat_cfg \<Rightarrow> markStatusRequest \<Rightarrow> chat_world \<Rightarrow> (rpc_error + bool) \<times> chat_world" where
  "MarkDelivered cfg req = markStatus cfg req ''delivered'' ''msg.delivered''"

definition MarkRead :: "chat_cfg \<Rightarrow> markStatusRequest \<Rightarrow> chat_world \<Rightarrow> (rpc_error + bool) \<times> chat_world" where
  "MarkRead cfg req = markStatus cfg req ''read'' ''msg.read''"

text \<open>\<open>evt\<close> is the decoded payload, none if it is not a status request; \<open>now\<close> the clock.\<close>

definition handleStatusEvent :: "string \<Rightarrow> markStatusRequest option \<Rightarrow> int \<Rightarrow> chat_world \<Rightarrow> chat_world" where
  "handleStatusEvent stream evt now w =
     (case evt of
        None \<Rightarrow> w
      | Some evt \<Rightarrow>
     (case one_row (exec (GetMessageByID (mk_message_id evt)) w) of
        (Inl _, w) \<Rightarrow> w
      | (Inr msg, w) \<Rightarrow>
        snd (redis_publish (senderChannel (m_sender_phone msg))
          (JObj [(''message_id'', JStr (mk_message_id evt)), (''server_ts'', JTime now),
                 (''status'', JStr (mk_status evt)), (''type'', JStr stream),
                 (''user_phone'', JStr (mk_user_phone evt))]) w)))"

text \<open>\<open>subscribe\<close> is the bus, which may refuse; the service goes on without that stream.\<close>

definition startStatusConsumers :: "(string \<Rightarrow> string \<Rightarrow> 's \<Rightarrow> bool \<times> 's) \<Rightarrow> 's \<Rightarrow> 's" where
  "startStatusConsumers subscribe =
     fold (\<lambda>stream s. snd (subscribe stream ''chat-service-status'' s)) [''msg.delivered'', ''msg.read'']"

end
