(* ===== verification/ChatProps.thy ===== *)
theory ChatProps
  imports ChatService
begin

text \<open>
  What the chat service guarantees: how recipients are resolved, batched and reached, which
  conversation a message lands in, that an error means nobody was sent anything, and what a
  status update does. The reading side is in ChatHistory, the worker pool in FanOut.
\<close>

section \<open>Recipients\<close>

lemma recipients_from_first:
  "recipients_from ids s seen =
     first_seen (filter (\<lambda>i. i \<notin> set seen) (filter (\<lambda>i. \<not> (i = [] \<or> i = s)) (map trim_space ids)))"
proof (induction ids s seen rule: recipients_from.induct)
  case (1 s seen)
  then show ?case by simp
next
  case (2 i ids s seen)
  let ?rest = "filter (\<lambda>i. \<not> (i = [] \<or> i = s)) (map trim_space ids)"
  show ?case
  proof (cases "trim_space i = [] \<or> trim_space i = s")
    case True
    with 2(1)[OF refl] show ?thesis by auto
  next
    case False
    then have kept: "filter (\<lambda>i. \<not> (i = [] \<or> i = s)) (map trim_space (i # ids)) = trim_space i # ?rest"
      by simp
    show ?thesis
      unfolding kept seen_step using False 2(2,3)[OF refl False] by (auto simp: Let_def simp del: filter_filter)
  qed
qed

interpretation recipients: deduper "\<lambda>ids. dedupeRecipients ids s" "\<lambda>i. i = [] \<or> i = s" for s
  by unfold_locales (simp add: dedupeRecipients_def recipients_from_first)

text \<open>
  Resolving recipients twice changes nothing, no phone appears twice, the order is that of
  the request, and the sender is never among them.
\<close>

theorem dedupeRecipients_contract:
  "distinct (dedupeRecipients phones s) \<and> s \<notin> set (dedupeRecipients phones s) \<and>
   set (dedupeRecipients phones s) = trim_space ` set phones - {[], s} \<and>
   subseq (dedupeRecipients phones s) (map trim_space phones) \<and>
   dedupeRecipients (dedupeRecipients phones s) s = dedupeRecipients phones s"
  using recipients.dd_set[of phones s] recipients.dd_distinct[of phones s] recipients.dd_order[of phones s]
    recipients.dd_idem[of phones s] by auto

section \<open>Batches\<close>

lemma concat_batches_from: "0 < n \<Longrightarrow> concat (batches_from rs n i) = drop i rs"
proof (induction rs n i rule: batches_from.induct)
  case (1 rs n i)
  show ?case
  proof (cases "length rs \<le> i")
    case True
    then show ?thesis by (simp add: batches_from.simps)
  next
    case False
    have "drop i (take (min (i + n) (length rs)) rs) @ drop (i + n) rs = drop i rs"
      by (metis add.commute append_take_drop_id drop_drop drop_take min_def nat_le_linear take_all_iff diff_add_inverse)
    with False 1 show ?thesis
      by (subst batches_from.simps) (simp add: Let_def)
  qed
qed

lemma batches_from_sizes:
  "b \<in> set (batches_from rs n i) \<Longrightarrow> b \<noteq> [] \<and> length b \<le> n"
proof (induction rs n i rule: batches_from.induct)
  case (1 rs n i)
  then show ?case
    by (subst (asm) (2) batches_from.simps) (auto simp: Let_def split: if_splits)
qed

text \<open>
  Cutting the recipients into batches loses and reorders nobody: the batches one after the
  other are the recipients, none is empty, and none is longer than the size asked for (64 when
  that is not positive).
\<close>

theorem batchRecipients_partition:
  "concat (batchRecipients rs n) = rs \<and>
   (\<forall>b\<in>set (batchRecipients rs n). b \<noteq> [] \<and> length b \<le> (if n \<le> 0 then 64 else nat n))"
  using concat_batches_from[of "if n \<le> 0 then 64 else nat n" rs 0] batches_from_sizes[of _ rs _ 0]
  by (auto simp: batchRecipients_def Let_def)

theorem batchRecipients_partition_witness:
  "concat (batchRecipients [''a'', ''b'', ''c''] 2) = [''a'', ''b'', ''c'']"
  using batchRecipients_partition[of "[''a'', ''b'', ''c'']" 2] by simp

section \<open>Conversations\<close>

lemma sort_pair: "sort [a, b] = (if a \<le> b then [a, b] else [b, a :: string])"
  by (simp add: insort_key.simps)

lemma direct_conversation:
  "buildConversationID s (r # rs) [] = (if s \<le> r then ''dm:'' @ s @ '':'' @ r else ''dm:'' @ r @ '':'' @ s)"
  by (auto simp: buildConversationID_def Let_def)

text \<open>
  Both ends of a direct chat use the same conversation, and two direct conversations are the
  same only if they have the same two ends (phones hold no colon); a group conversation is never
  a direct one, and belongs to one group.
\<close>

theorem conversation_identity:
  assumes "CHR '':'' \<notin> set a" and "CHR '':'' \<notin> set b" and "CHR '':'' \<notin> set c" and "CHR '':'' \<notin> set e"
  shows "(buildConversationID a [b] [] = buildConversationID c [e] [] \<longleftrightarrow> {a, b} = {c, e}) \<and>
    (g \<noteq> [] \<longrightarrow> buildConversationID a [b] [] \<noteq> buildConversationID c rs g) \<and>
    (g \<noteq> [] \<longrightarrow> h \<noteq> [] \<longrightarrow> buildConversationID a rs g = buildConversationID c rs' h \<longrightarrow> g = h)"
  using assms
  by (auto simp: direct_conversation append_sep_inj doubleton_eq_iff buildConversationID_def[of _ _ g] buildConversationID_def[of _ _ h] split: if_splits)

theorem conversation_identity_witness:
  "buildConversationID ''1'' [''2''] [] = buildConversationID ''2'' [''1''] []"
  using conversation_identity[of "''1''" "''2''" "''2''" "''1''"] by auto

section \<open>Sending\<close>

text \<open>What went out of the service: the bus, the channels, the offline lists.\<close>

definition sent_out :: "chat_world \<Rightarrow> (string \<times> event) list \<times> (string \<times> json) list \<times> (string \<Rightarrow> json list)" where
  "sent_out w = (bus_log w, pubsub_log w, redis_lists w)"

lemma sent_out_advance [simp]: "sent_out (advance w) = sent_out w"
  by (simp add: sent_out_def advance_def)

lemma sent_out_wdb [simp]: "sent_out (w\<lparr>wdb := d\<rparr>) = sent_out w"
  by (simp add: sent_out_def)

lemma sent_out_exec: "exec s w = (r, w') \<Longrightarrow> sent_out w' = sent_out w"
  by (auto simp: exec_def Let_def split: fault.splits sum.splits)

lemma sent_out_replica: "exec_replica s w = (r, w') \<Longrightarrow> sent_out w' = sent_out w"
  by (auto simp: exec_replica_def Let_def split: if_splits sum.splits)

lemma sent_out_resolve: "resolve_recipients cfg inp w = (r, w') \<Longrightarrow> sent_out w' = sent_out w"
  by (auto simp: resolve_recipients_def split: if_splits prod.splits sum.splits dest: sent_out_replica)

lemma sent_out_store: "store_message cfg inp rs w = (r, w') \<Longrightarrow> sent_out w' = sent_out w"
  by (auto simp: store_message_def Let_def split: prod.splits sum.splits dest!: sent_out_exec)

lemma send_error_silent:
  assumes "SendMessage validate cfg schedule req w = (Inl e, w')"
  shows "sent_out w' = sent_out w"
  using assms
  by (auto simp: SendMessage_def Let_def split: option.splits prod.splits sum.splits if_splits
      dest!: sent_out_resolve sent_out_store)

text \<open>
  C26. An error of \<^verbatim>\<open>SendMessage\<close> means that nothing was sent: whatever calls failed and whatever
  other sessions did, the bus, the channels and the offline lists are as they were.
\<close>

theorem failed_send_is_silent:
  assumes "SendMessage validate cfg schedule req w = (Inl e, w')"
  shows "bus_log w' = bus_log w \<and> pubsub_log w' = pubsub_log w \<and> redis_lists w' = redis_lists w"
  using send_error_silent[OF assms] by (simp add: sent_out_def)

subsection \<open>Who gets the message\<close>

definition online :: "(string \<Rightarrow> string option) \<Rightarrow> string \<Rightarrow> bool" where
  "online keys p \<longleftrightarrow> (case keys (presenceKey p) of None \<Rightarrow> False | Some v \<Rightarrow> equal_fold v ''online'')"

text \<open>All calls are served, nobody else writes, and the presence keys stay what they are.\<close>

definition steady :: "(string \<Rightarrow> string option) \<Rightarrow> chat_world \<Rightarrow> bool" where
  "steady keys w \<longleftrightarrow> undisturbed w \<and> (\<forall>n. redis_keys w n = keys)"

lemma steady_next_call [simp]: "steady keys (next_call d w) = steady keys w"
  by (simp add: steady_def next_call_def undisturbed_def)

lemma chat_next_call [simp]:
  "bus_log (next_call d w) = bus_log w" "pubsub_log (next_call d w) = pubsub_log w"
  "redis_lists (next_call d w) = redis_lists w" "redis_keys (next_call d w) = redis_keys w"
  "replica_view (next_call d w) = replica_view w"
  by (simp_all add: next_call_def)

lemma steady_updates [simp]:
  "steady keys (bus_log_update f w) = steady keys w" "steady keys (pubsub_log_update g w) = steady keys w"
  "steady keys (redis_lists_update h w) = steady keys w" "steady keys (redis_ttl_update i w) = steady keys w"
  by (simp_all add: steady_def undisturbed_def)

lemma steady_undisturbed: "steady keys w \<Longrightarrow> undisturbed w"
  by (simp add: steady_def)

lemma steady_exec:
  "steady keys w \<Longrightarrow> exec s w = (case s (wpg w (wtick w)) (wdb w) of
     Inl e \<Rightarrow> (Inl e, next_call (wdb w) w) | Inr (r, d) \<Rightarrow> (Inr r, next_call d w))"
  by (rule exec_undisturbed[OF steady_undisturbed])

lemma steady_call_out: "steady keys w \<Longrightarrow> call_out f w = (True, f (next_call (wdb w) w))"
  by (simp add: call_out_def steady_def undisturbed_advance Let_def)

lemma steady_isOnline: "steady keys w \<Longrightarrow> isOnline p w = (online keys p, next_call (wdb w) w)"
  by (auto simp: isOnline_def redis_get_def online_def steady_def undisturbed_advance split: option.split)

definition delivered_row :: "db \<Rightarrow> string \<Rightarrow> string \<Rightarrow> bool" where
  "delivered_row d mid p \<longleftrightarrow>
     (\<exists>r\<in>set (message_statuses d). ms_message_id r = mid \<and> ms_user_phone r = p \<and> ms_status r = ''delivered'')"

lemma steady_wdb: "steady keys (w\<lparr>wdb := d\<rparr>) = steady keys w"
  by (simp add: steady_def undisturbed_def)

lemma exec_effect:
  assumes "steady keys w"
  shows "snd (exec s w) = next_call (effect_of s (wpg w (wtick w)) (wdb w)) w"
  using steady_exec[OF assms, of s] by (auto simp: effect_of_def split: sum.split)

lemma deliver_online:
  assumes "steady keys w" and "online keys p"
  obtains e where "deliverToRecipient p m w =
    next_call (effect_of (UpsertMessageStatus (c_message_id m) p ''delivered'') e (wdb w))
      ((next_call (wdb w) (next_call (wdb w) w))\<lparr>pubsub_log := pubsub_log w @ [(senderChannel p, sent_payload m p)]\<rparr>)"
proof (rule that)
  let ?w = "(next_call (wdb w) (next_call (wdb w) w))\<lparr>pubsub_log := pubsub_log w @ [(senderChannel p, sent_payload m p)]\<rparr>"
  have "steady keys ?w"
    using assms(1) by simp
  from exec_effect[OF this] show "deliverToRecipient p m w =
    next_call (effect_of (UpsertMessageStatus (c_message_id m) p ''delivered'') (wpg ?w (wtick ?w)) (wdb w)) ?w"
    using assms by (simp add: deliverToRecipient_def Let_def steady_isOnline redis_publish_def steady_call_out)
qed

lemma deliver_offline:
  assumes "steady keys w" and "\<not> online keys p"
  shows "deliverToRecipient p m w = (next_call (wdb w) (next_call (wdb w) w))
    \<lparr>redis_lists := (redis_lists w)(offlineKey p := sent_payload m p # redis_lists w (offlineKey p)),
     redis_ttl := (redis_ttl w)(offlineKey p \<mapsto> offlineTTL)\<rparr>"
  using assms
  by (simp add: deliverToRecipient_def Let_def steady_isOnline redis_push_def steady_call_out)
    (simp add: next_call_def)

lemma upsert_makes:
  assumes "\<And>x. P x \<Longrightarrow> Q (f x)" and "Q r"
  shows "\<exists>x\<in>set (upsert P f r rows). Q x"
proof (cases "\<exists>x\<in>set rows. P x")
  case True
  then obtain x where "x \<in> set rows" "P x" by blast
  then have "f x \<in> set (upsert P f r rows)"
    by (auto simp: upsert_def image_iff)
  with assms(1) \<open>P x\<close> show ?thesis by blast
next
  case False
  with assms(2) show ?thesis by (simp add: upsert_def)
qed

lemma upsert_keeps_other: "x \<in> set rows \<Longrightarrow> \<not> P x \<Longrightarrow> x \<in> set (upsert P f r rows)"
  by (auto simp: upsert_def image_iff)

lemma upsert_status_effect:
  "messages (effect_of (UpsertMessageStatus mid p st) e d) = messages d"
  "mid \<in> m_id ` set (messages d) \<Longrightarrow> delivered_row (effect_of (UpsertMessageStatus mid p ''delivered'') e d) mid p"
  "q \<noteq> p \<Longrightarrow> delivered_row d mid' q \<Longrightarrow> delivered_row (effect_of (UpsertMessageStatus mid p st) e d) mid' q"
proof -
  show "messages (effect_of (UpsertMessageStatus mid p st) e d) = messages d"
    by (simp add: effect_of_def UpsertMessageStatus_def)
  show "delivered_row (effect_of (UpsertMessageStatus mid p ''delivered'') e d) mid p"
    if "mid \<in> m_id ` set (messages d)"
    using that by (simp add: effect_of_def UpsertMessageStatus_def status_values_def delivered_row_def)
      (rule upsert_makes; simp)
  show "delivered_row (effect_of (UpsertMessageStatus mid p st) e d) mid' q"
    if "q \<noteq> p" "delivered_row d mid' q"
    using that by (auto simp: effect_of_def UpsertMessageStatus_def delivered_row_def split: if_splits
        intro!: bexI upsert_keeps_other)
qed

lemma steady_deliver:
  assumes "steady keys w"
  shows "steady keys (deliverToRecipient p m w)" "bus_log (deliverToRecipient p m w) = bus_log w"
    "pubsub_log (deliverToRecipient p m w) =
       pubsub_log w @ (if online keys p then [(senderChannel p, sent_payload m p)] else [])"
    "redis_lists (deliverToRecipient p m w) = (if online keys p then redis_lists w
       else (redis_lists w)(offlineKey p := sent_payload m p # redis_lists w (offlineKey p)))"
    "messages (wdb (deliverToRecipient p m w)) = messages (wdb w)"
    "c_message_id m \<in> m_id ` set (messages (wdb w)) \<Longrightarrow> online keys p \<Longrightarrow>
       delivered_row (wdb (deliverToRecipient p m w)) (c_message_id m) p"
    "q \<noteq> p \<Longrightarrow> delivered_row (wdb w) mid q \<Longrightarrow> delivered_row (wdb (deliverToRecipient p m w)) mid q"
proof -
  show "steady keys (deliverToRecipient p m w)" "bus_log (deliverToRecipient p m w) = bus_log w"
    "pubsub_log (deliverToRecipient p m w) =
       pubsub_log w @ (if online keys p then [(senderChannel p, sent_payload m p)] else [])"
    "redis_lists (deliverToRecipient p m w) = (if online keys p then redis_lists w
       else (redis_lists w)(offlineKey p := sent_payload m p # redis_lists w (offlineKey p)))"
    "messages (wdb (deliverToRecipient p m w)) = messages (wdb w)"
    by (cases "online keys p"; use assms in \<open>auto simp: deliver_offline upsert_status_effect elim!: deliver_online[of _ _ p m]\<close>)+
  show "delivered_row (wdb (deliverToRecipient p m w)) (c_message_id m) p"
    if "c_message_id m \<in> m_id ` set (messages (wdb w))" "online keys p"
    using deliver_online[OF assms that(2), of m] upsert_status_effect(2)[OF that(1)] by (metis next_call_simps(1))
  show "delivered_row (wdb (deliverToRecipient p m w)) mid q" if "q \<noteq> p" "delivered_row (wdb w) mid q"
  proof (cases "online keys p")
    case True
    then show ?thesis
      using deliver_online[OF assms True, of m] upsert_status_effect(3)[OF that] by (metis next_call_simps(1))
  next
    case False
    with that assms show ?thesis by (simp add: deliver_offline)
  qed
qed

text \<open>A list of deliveries, each recipient once.\<close>

definition payloads_for :: "(string \<Rightarrow> string option) \<Rightarrow> chatMessage \<Rightarrow> string list \<Rightarrow> (string \<times> json) list" where
  "payloads_for keys m ps = map (\<lambda>p. (senderChannel p, sent_payload m p)) (filter (online keys) ps)"

lemma offlineKey_inj [simp]: "offlineKey p = offlineKey q \<longleftrightarrow> p = q"
  by (simp add: offlineKey_def)

lemma deliver_all_simps [simp]:
  "deliver_all [] m w = w" "deliver_all (p # ps) m w = deliver_all ps m (deliverToRecipient p m w)"
  by (simp_all add: deliver_all_def)

lemma deliver_all_steady:
  assumes "steady keys w"
  shows "steady keys (deliver_all ps m w)" "bus_log (deliver_all ps m w) = bus_log w"
    "messages (wdb (deliver_all ps m w)) = messages (wdb w)"
    "pubsub_log (deliver_all ps m w) = pubsub_log w @ payloads_for keys m ps"
  using assms by (induction ps arbitrary: w) (auto simp: steady_deliver payloads_for_def)

lemma deliver_all_lists:
  assumes "steady keys w" and "distinct ps"
  shows "redis_lists (deliver_all ps m w) (offlineKey p) =
    (if p \<in> set ps \<and> \<not> online keys p then sent_payload m p # redis_lists w (offlineKey p) else redis_lists w (offlineKey p))"
  using assms by (induction ps arbitrary: w) (auto simp: steady_deliver)

lemma deliver_all_keeps_row:
  assumes "steady keys w" and "q \<notin> set ps" and "delivered_row (wdb w) mid q"
  shows "delivered_row (wdb (deliver_all ps m w)) mid q"
  using assms by (induction ps arbitrary: w) (auto simp: steady_deliver)

lemma deliver_all_rows:
  assumes "steady keys w" and "distinct ps" and "c_message_id m \<in> m_id ` set (messages (wdb w))"
    and "p \<in> set ps" and "online keys p"
  shows "delivered_row (wdb (deliver_all ps m w)) (c_message_id m) p"
  using assms
proof (induction ps arbitrary: w)
  case Nil
  then show ?case by simp
next
  case (Cons a ps)
  show ?case
  proof (cases "a = p")
    case True
    have "delivered_row (wdb (deliverToRecipient p m w)) (c_message_id m) p"
      by (rule steady_deliver(6)[OF Cons.prems(1,3,5)])
    with True Cons.prems(2) deliver_all_keeps_row[OF steady_deliver(1)[OF Cons.prems(1)]] show ?thesis
      by simp
  next
    case False
    with Cons.prems show ?thesis
      by (auto intro!: Cons.IH simp: steady_deliver)
  qed
qed

text \<open>The delivery as a whole: who is online got it on the channel, who is not finds it in the list.\<close>

definition reached :: "(string \<Rightarrow> string option) \<Rightarrow> chatMessage \<Rightarrow> chat_world \<Rightarrow> chat_world \<Rightarrow> string list \<Rightarrow> bool" where
  "reached keys m w w' ps \<longleftrightarrow>
     mset (pubsub_log w') = mset (pubsub_log w) + mset (payloads_for keys m ps) \<and>
     (\<forall>p. redis_lists w' (offlineKey p) =
        (if p \<in> set ps \<and> \<not> online keys p then [sent_payload m p] else []) @ redis_lists w (offlineKey p)) \<and>
     (\<forall>p\<in>set ps. online keys p \<longrightarrow> delivered_row (wdb w') (c_message_id m) p)"

lemma deliver_all_reached:
  assumes "steady keys w" and "distinct ps" and "mset qs = mset ps"
    and "c_message_id m \<in> m_id ` set (messages (wdb w))"
  shows "reached keys m w (deliver_all qs m w) ps"
proof -
  have qs: "distinct qs" "set qs = set ps"
    using assms(2,3) by (metis mset_eq_imp_distinct_iff, metis mset_eq_setD)
  have "mset (payloads_for keys m qs) = mset (payloads_for keys m ps)"
    using assms(3) by (simp add: payloads_for_def)
  then show ?thesis
    unfolding reached_def
    using deliver_all_lists[OF assms(1) qs(1), of m] deliver_all_rows[OF assms(1) qs(1) assms(4)] qs(2)
    by (simp add: deliver_all_steady[OF assms(1)])
qed

text \<open>The orders a fan-out can take hand every batch element to \<^verbatim>\<open>deliverToRecipient\<close> once.\<close>

definition fair_schedule :: "(string list list \<Rightarrow> string list) \<Rightarrow> bool" where
  "fair_schedule schedule \<longleftrightarrow> (\<forall>bs. mset (schedule bs) = mset (concat bs))"

lemma batches_concat: "concat (batchRecipients rs n) = rs"
  using concat_batches_from[of "if n \<le> 0 then 64 else nat n" rs 0] by (simp add: batchRecipients_def Let_def)

definition resolved :: "sendMessageInput \<Rightarrow> chat_world \<Rightarrow> string list" where
  "resolved inp w =
     (if in_group inp \<noteq> [] then
        dedupeRecipients (map gm_user_phone (sort_key gm_created_at
          (filter (\<lambda>r. gm_group_id r = in_group inp) (group_members (replica_view w (wtick w) (wdb w)))))) (in_sender inp)
      else dedupeRecipients (in_recipients inp) (in_sender inp))"

lemma steady_resolve:
  assumes "steady keys w"
  shows "resolve_recipients cfg inp w = (Inr (resolved inp w), if in_group inp \<noteq> [] then next_call (wdb w) w else w)"
  using steady_undisturbed[OF assms]
  by (simp add: resolve_recipients_def resolved_def exec_replica_def GetGroupMembers_def reading_def undisturbed_advance Let_def)

lemma insert_message_effect:
  assumes "exec (InsertMessage arg) w = (Inr msg, w')" and "undisturbed w"
  shows "w' = next_call (wdb w') w \<and> msg \<in> set (messages (wdb w')) \<and> (\<exists>e. msg = new_message arg e)"
  using assms
  by (auto simp: exec_undisturbed InsertMessage_def insert_message_row_def split: sum.splits if_splits)

lemma steady_after: "steady keys w \<Longrightarrow> exec s w = (r, w') \<Longrightarrow> steady keys w'"
  by (auto simp: steady_exec split: sum.splits prod.splits)

lemma store_effect:
  assumes "steady keys w" and "store_message cfg inp rs w = (Inr msg, w')"
  shows "steady keys w'" and "msg \<in> set (messages (wdb w'))" and "sent_out w' = sent_out w"
    and "m_sender_phone msg = in_sender inp" and "m_body_encrypted msg = in_body inp"
    and "m_conversation_id msg = buildConversationID (in_sender inp) rs (in_group inp)"
proof -
  let ?cid = "buildConversationID (in_sender inp) rs (in_group inp)"
  obtain u w1 where first: "exec (EnsureConversation ?cid (if in_group inp \<noteq> [] then ''group'' else ''direct'')) w = (Inr u, w1)"
    and second: "exec (InsertMessage (insert_params inp rs ?cid)) w1 = (Inr msg, w')"
    using assms(2) by (auto simp: store_message_def Let_def split: prod.splits sum.splits)
  have s1: "steady keys w1"
    by (rule steady_after[OF assms(1) first])
  from insert_message_effect[OF second steady_undisturbed[OF s1]] obtain e where
    e: "msg \<in> set (messages (wdb w'))" "msg = new_message (insert_params inp rs ?cid) e"
    by blast
  show "steady keys w'" "msg \<in> set (messages (wdb w'))" "sent_out w' = sent_out w"
    using steady_after[OF s1 second] e(1) sent_out_exec[OF first] sent_out_exec[OF second] by simp_all
  show "m_sender_phone msg = in_sender inp" "m_body_encrypted msg = in_body inp" "m_conversation_id msg = ?cid"
    unfolding e(2) new_message_def insert_params_def by simp_all
qed

lemma stored_fields:
  assumes "store_message cfg inp rs w = (Inr msg, w')"
  shows "m_sender_phone msg = in_sender inp" "m_body_encrypted msg = in_body inp"
  using assms
  by (auto simp: store_message_def Let_def exec_def InsertMessage_def insert_message_row_def new_message_def insert_params_def
      split: prod.splits sum.splits fault.splits if_splits)

lemma store_appends:
  assumes "undisturbed v" and "store_message cfg inp rs v = (Inr msg, w)"
  shows "messages (wdb w) = messages (wdb v) @ [msg] \<and> (\<exists>n. m_created_at msg = pg_now (wpg v n))"
  using assms
  by (auto simp: store_message_def Let_def exec_undisturbed EnsureConversation_def writing_def InsertMessage_def
      insert_message_row_def new_message_def intro!: exI[of _ "Suc (wtick v)"] split: sum.splits if_splits)

lemma announce_effect:
  assumes "steady keys w" and "fair_schedule schedule" and "distinct rs" and "msg \<in> set (messages (wdb w))"
    and w'_def: "w' = announce schedule inp rs msg w" and ev_def: "ev = event_message msg rs"
  shows "reached keys ev w w' rs" and "messages (wdb w') = messages (wdb w)"
    and "bus_log w' = bus_log w @ [(''msg.sent'', Message_event ev)]"
proof -
  define w1 where "w1 = snd (exec (UpsertMessageStatus (m_id msg) (in_sender inp) ''sent'') w)"
  have s1: "steady keys w1" "messages (wdb w1) = messages (wdb w)" "sent_out w1 = sent_out w"
    using assms(1) by (simp_all add: w1_def exec_effect upsert_status_effect sent_out_def)
  define w2 where "w2 = snd (bus_publish ''msg.sent'' (Message_event ev) w1)"
  have w2: "w2 = (next_call (wdb w1) w1)\<lparr>bus_log := bus_log w1 @ [(''msg.sent'', Message_event ev)]\<rparr>"
    by (simp add: w2_def bus_publish_def steady_call_out[OF s1(1)])
  have s2: "steady keys w2" "messages (wdb w2) = messages (wdb w)" "redis_lists w2 = redis_lists w"
    "pubsub_log w2 = pubsub_log w" "bus_log w2 = bus_log w @ [(''msg.sent'', Message_event ev)]"
    using s1 by (simp_all add: w2 sent_out_def)
  define qs where "qs = (if in_group inp \<noteq> [] then schedule (batchRecipients rs 64) else rs)"
  have qs: "mset qs = mset rs"
    using assms(2) by (simp add: qs_def fair_schedule_def batches_concat)
  have w': "w' = deliver_all qs ev w2"
    by (simp add: w'_def announce_def Let_def ev_def w1_def[symmetric] w2_def[symmetric, unfolded ev_def] qs_def groupFanout_def)
  have "c_message_id ev \<in> m_id ` set (messages (wdb w2))"
    using assms(4) s2(2) by (simp add: ev_def event_message_def)
  from deliver_all_reached[OF s2(1) assms(3) qs this] show "reached keys ev w w' rs"
    by (simp add: w' reached_def s2)
  show "messages (wdb w') = messages (wdb w)" "bus_log w' = bus_log w @ [(''msg.sent'', Message_event ev)]"
    by (simp_all add: w' deliver_all_steady[OF s2(1)] s2)
qed

lemma send_effect:
  assumes "steady keys w" and "fair_schedule schedule"
    and "SendMessage validate cfg schedule req w = (Inr resp, w')"
    and "rs = resolved (input_of req) w"
  shows "\<exists>msg. msg \<in> set (messages (wdb w')) \<and> m_id msg = sr_message_id resp \<and>
      m_sender_phone msg = trim_space (sm_sender_phone req) \<and> m_body_encrypted msg = sm_body req \<and>
      m_conversation_id msg = buildConversationID (trim_space (sm_sender_phone req)) rs (trim_space (sm_group_id req)) \<and>
      rs \<noteq> [] \<and> bus_log w' = bus_log w @ [(''msg.sent'', Message_event (event_message msg rs))] \<and>
      reached keys (event_message msg rs) w w' rs"
proof -
  let ?inp = "input_of req"
  define w1 where "w1 = (if in_group ?inp \<noteq> [] then next_call (wdb w) w else w)"
  have s1: "steady keys w1" "sent_out w1 = sent_out w"
    using assms(1) by (simp_all add: w1_def sent_out_def)
  obtain msg w2 where store: "store_message cfg ?inp rs w1 = (Inr msg, w2)" and "rs \<noteq> []"
    and resp: "resp = \<lparr>sr_message_id = m_id msg, sr_server_ts = m_server_ts msg\<rparr>" "w' = announce schedule ?inp rs msg w2"
    using assms(3) by (auto simp: SendMessage_def Let_def steady_resolve[OF assms(1)] w1_def[symmetric] assms(4)[symmetric]
        split: option.splits if_splits prod.splits sum.splits)
  note stored = store_effect[OF s1(1) store]
  have "distinct rs"
    by (simp add: assms(4) resolved_def recipients.dd_distinct)
  from announce_effect[OF stored(1) assms(2) this stored(2) resp(2) refl] resp stored s1(2) \<open>rs \<noteq> []\<close>
  show ?thesis
    by (intro exI[of _ msg]) (auto simp: input_of_def reached_def sent_out_def)
qed

text \<open>
  C8. While every call is served, nobody else writes and the presence keys stay what they are, a send that
  answers with an id has stored the message in the conversation of its ends and reached everybody: each
  resolved recipient once, whoever is online on their channel with a row that says delivered, everybody
  else at the head of their offline list; one event is on the bus. (The answer alone does not say so:
  ChatFaults has the sends whose deliveries fail.)
\<close>

theorem send_reaches_everybody:
  assumes "steady keys w" and "fair_schedule schedule"
    and "SendMessage validate cfg schedule req w = (Inr resp, w')"
    and "rs = resolved (input_of req) w"
  shows "\<exists>msg. msg \<in> set (messages (wdb w')) \<and> m_id msg = sr_message_id resp \<and>
      m_sender_phone msg = trim_space (sm_sender_phone req) \<and> m_body_encrypted msg = sm_body req \<and>
      m_conversation_id msg = buildConversationID (trim_space (sm_sender_phone req)) rs (trim_space (sm_group_id req)) \<and>
      rs \<noteq> [] \<and> bus_log w' = bus_log w @ [(''msg.sent'', Message_event (event_message msg rs))] \<and>
      reached keys (event_message msg rs) w w' rs"
  using assms by (rule send_effect)

section \<open>A small world\<close>

definition chat_of :: "db \<Rightarrow> (string \<Rightarrow> string option) \<Rightarrow> chat_world" where
  "chat_of d keys = \<lparr>wdb = d, wtick = 0, wfault = (\<lambda>_. Served), wenv = (\<lambda>_ d. d),
     wpg = (\<lambda>n. \<lparr>pg_now = int n, pg_uuid = decimal_nat n\<rparr>), replica_view = (\<lambda>_ d. d), redis_keys = (\<lambda>_. keys),
     bus_log = [], pubsub_log = [], redis_lists = (\<lambda>_. []), redis_ttl = Map.empty\<rparr>"

lemma chat_of_simps [simp]:
  "wdb (chat_of d keys) = d" "steady keys (chat_of d keys)" "undisturbed (chat_of d keys)" "pubsub_log (chat_of d keys) = []"
  "wtick (chat_of d keys) = 0" "wpg (chat_of d keys) n = \<lparr>pg_now = int n, pg_uuid = decimal_nat n\<rparr>"
  "replica_view (chat_of d keys) n d' = d'"
  by (simp_all add: chat_of_def steady_def undisturbed_def)

definition plain_cfg :: chat_cfg where
  "plain_cfg = \<lparr>cfg_err_text = (\<lambda>_. []), cfg_collation = (\<lambda>s. s)\<rparr>"

definition hello :: sendMessageRequest where
  "hello = \<lparr>sm_sender_phone = ''1'', sm_recipient_phones = [''2''], sm_group_id = [], sm_body = ''hi''\<rparr>"

lemma digits_trim [simp]: "trim_space ''1'' = ''1''" "trim_space ''2'' = ''2''" "trim_space ''3'' = ''3''"
  by (simp_all add: trim_space_printable printable_def)

lemma hello_input: "input_of hello = \<lparr>in_sender = ''1'', in_recipients = [''2''], in_group = [], in_body = ''hi''\<rparr>"
  by (simp add: input_of_def hello_def)

lemma hello_resolved: "resolved (input_of hello) w = [''2'']"
  by (simp add: hello_input resolved_def dedupeRecipients_def Let_def)

lemma first_uuid [simp]: "decimal_nat (Suc 0) = ''1''"
  by code_simp

lemma hello_sent:
  "\<exists>w'. SendMessage (\<lambda>_. None) plain_cfg concat hello (chat_of no_rows keys) = (Inr \<lparr>sr_message_id = ''1'', sr_server_ts = 1\<rparr>, w')"
  by (simp add: SendMessage_def Let_def steady_resolve[where keys = keys] hello_resolved)
    (simp add: hello_input store_message_def Let_def exec_undisturbed EnsureConversation_def writing_def upsert_def
      InsertMessage_def insert_message_row_def new_message_def insert_params_def no_rows_def )

theorem send_reaches_everybody_witness:
  "\<exists>w'. SendMessage (\<lambda>_. None) plain_cfg concat hello (chat_of no_rows (\<lambda>_. None)) = (Inr \<lparr>sr_message_id = ''1'', sr_server_ts = 1\<rparr>, w')
     \<and> length (redis_lists w' (offlineKey ''2'')) = 1"
proof -
  obtain w' where w': "SendMessage (\<lambda>_. None) plain_cfg concat hello (chat_of no_rows (\<lambda>_. None)) =
      (Inr \<lparr>sr_message_id = ''1'', sr_server_ts = 1\<rparr>, w')"
    using hello_sent by blast
  have "fair_schedule concat"
    by (simp add: fair_schedule_def)
  from send_reaches_everybody[OF chat_of_simps(2) this w' hello_resolved[symmetric]] w' show ?thesis
    by (auto simp: reached_def online_def chat_of_def)
qed

theorem failed_send_is_silent_witness:
  "pubsub_log (snd (SendMessage (\<lambda>_. Some ''bad'') plain_cfg concat hello (chat_of no_rows (\<lambda>_. None)))) = []"
  using failed_send_is_silent[of "\<lambda>_. Some ''bad''" plain_cfg concat hello "chat_of no_rows (\<lambda>_. None)"]
  by (simp add: SendMessage_def Let_def)

section \<open>Status updates\<close>

definition status_of :: "db \<Rightarrow> string \<Rightarrow> string \<Rightarrow> string option" where
  "status_of d mid p = map_option ms_status (find (\<lambda>r. ms_message_id r = mid \<and> ms_user_phone r = p) (message_statuses d))"

lemma status_of_upsert:
  assumes "mid \<in> m_id ` set (messages d)" and "st \<in> set status_values"
  shows "\<exists>d'. UpsertMessageStatus mid p st e d = Inr ((), d') \<and> messages d' = messages d \<and>
    status_of d' m q = (if m = mid \<and> q = p then Some st else status_of d m q)"
proof (cases "m = mid \<and> q = p")
  case True
  with assms show ?thesis
    by (simp add: UpsertMessageStatus_def status_of_def find_upsert_hit split: option.split)
next
  case False
  then have "find (\<lambda>r. ms_message_id r = m \<and> ms_user_phone r = q)
      (upsert (\<lambda>r. ms_message_id r = mid \<and> ms_user_phone r = p) (\<lambda>r. r\<lparr>ms_status := st, ms_updated_at := pg_now e\<rparr>)
        \<lparr>ms_message_id = mid, ms_user_phone = p, ms_status = st, ms_updated_at = pg_now e\<rparr> (message_statuses d)) =
      find (\<lambda>r. ms_message_id r = m \<and> ms_user_phone r = q) (message_statuses d)"
    by (intro find_upsert_other) auto
  with False assms show ?thesis
    by (auto simp: UpsertMessageStatus_def status_of_def)
qed

lemma mark_effect:
  assumes "undisturbed w" and "st \<in> set status_values" and "trim_space (mk_message_id req) = mid" and "mid \<noteq> []"
    and "trim_space (mk_user_phone req) = p" and "p \<noteq> []"
  shows "if mid \<in> m_id ` set (messages (wdb w))
    then fst (markStatus cfg req st stream w) = Inr True \<and> undisturbed (snd (markStatus cfg req st stream w)) \<and>
      messages (wdb (snd (markStatus cfg req st stream w))) = messages (wdb w) \<and>
      status_of (wdb (snd (markStatus cfg req st stream w))) m q = (if m = mid \<and> q = p then Some st else status_of (wdb w) m q)
    else fst (markStatus cfg req st stream w) = Inl (Internal, ''status upsert failed: '' @ cfg_err_text cfg Reference_violation)
      \<and> wdb (snd (markStatus cfg req st stream w)) = wdb w"
proof (cases "mid \<in> m_id ` set (messages (wdb w))")
  case True
  obtain d' where d': "UpsertMessageStatus mid p st (wpg w (wtick w)) (wdb w) = Inr ((), d')" "messages d' = messages (wdb w)"
    "status_of d' m q = (if m = mid \<and> q = p then Some st else status_of (wdb w) m q)"
    using status_of_upsert[OF True assms(2)] by blast
  have pub: "snd (bus_publish stream ev (next_call d' w)) =
      (next_call d' (next_call d' w))\<lparr>bus_log := bus_log w @ [(stream, ev)]\<rparr>" for ev
    using assms(1) by (simp add: bus_publish_def call_out_def undisturbed_advance Let_def)
  show ?thesis
    using assms True d' by (simp add: markStatus_def Let_def exec_undisturbed pub) (simp add: undisturbed_def)
next
  case False
  then show ?thesis
    using assms by (simp add: markStatus_def Let_def exec_undisturbed UpsertMessageStatus_def)
qed

text \<open>
  A status update sets the status of exactly the message and user it names, and fails without
  a change when the message does not exist.
\<close>

theorem mark_sets_status:
  assumes "undisturbed w" and "trim_space (mk_message_id req) \<noteq> []" and "trim_space (mk_user_phone req) \<noteq> []"
    and "MarkRead cfg req w = (res, w')"
  shows "if trim_space (mk_message_id req) \<in> m_id ` set (messages (wdb w))
    then res = Inr True \<and> status_of (wdb w') m q =
      (if m = trim_space (mk_message_id req) \<and> q = trim_space (mk_user_phone req) then Some ''read'' else status_of (wdb w) m q)
    else \<not> is_ok res \<and> wdb w' = wdb w"
  using mark_effect[OF assms(1) _ refl assms(2) refl assms(3), of "''read''" cfg "''msg.read''" m q] assms(4)
  by (auto simp: MarkRead_def status_values_def split: if_splits)

definition one_message :: db where
  "one_message = no_rows\<lparr>messages := [\<lparr>m_id = ''1'', m_conversation_id = ''dm:1:2'', m_sender_phone = ''1'', m_body = ''hi'',
     m_media_url = None, m_created_at = 1, m_recipient_phone = Some ''2'', m_group_id = None, m_body_encrypted = ''hi'',
     m_body_type = ''text'', m_server_ts = 1\<rparr>]\<rparr>"

definition mark_two :: markStatusRequest where
  "mark_two = \<lparr>mk_message_id = ''1'', mk_user_phone = ''2'', mk_status = []\<rparr>"

theorem mark_sets_status_witness:
  "status_of (wdb (snd (MarkRead plain_cfg mark_two (chat_of one_message Map.empty)))) ''1'' ''2'' = Some ''read''"
  using mark_sets_status[OF chat_of_simps(3) _ _ prod.collapse[symmetric], of mark_two one_message Map.empty plain_cfg "''1''" "''2''"]
  by (simp add: mark_two_def one_message_def)

text \<open>
  The status of a message can go backwards: delivered after read leaves delivered, since the
  update does not look at the old value.
\<close>

theorem status_can_regress:
  assumes "undisturbed w" and "trim_space (mk_message_id req) \<in> m_id ` set (messages (wdb w))"
    and "trim_space (mk_message_id req) \<noteq> []" and "trim_space (mk_user_phone req) \<noteq> []"
  shows "status_of (wdb (snd (MarkDelivered cfg req (snd (MarkRead cfg req w))))) (trim_space (mk_message_id req)) (trim_space (mk_user_phone req))
    = Some ''delivered''"
proof -
  let ?w1 = "snd (MarkRead cfg req w)"
  have "undisturbed ?w1 \<and> messages (wdb ?w1) = messages (wdb w)"
    using mark_effect[OF assms(1) _ refl assms(3) refl assms(4), of "''read''" cfg "''msg.read''"] assms(2)
    by (simp add: MarkRead_def status_values_def)
  then show ?thesis
    using mark_effect[of ?w1 "''delivered''", OF _ _ refl assms(3) refl assms(4), of cfg "''msg.delivered''"] assms(2)
    by (simp add: MarkDelivered_def status_values_def)
qed

theorem status_can_regress_witness:
  "status_of (wdb (snd (MarkDelivered plain_cfg mark_two (snd (MarkRead plain_cfg mark_two (chat_of one_message Map.empty)))))) ''1'' ''2''
     = Some ''delivered''"
  using status_can_regress[of "chat_of one_message Map.empty" mark_two plain_cfg]
  by (simp add: mark_two_def one_message_def)

end
