(* ===== verification/ChatHistory.thy ===== *)
theory ChatHistory
  imports ChatProps
begin

text \<open>
  Reading a conversation page by page: \<open>read_pages\<close> is the client that follows the cursor of
  \<^verbatim>\<open>GetHistory\<close> until it is empty, with fuel for the number of pages. Where no two messages of
  the conversation carry the same time the pages are the whole conversation; a shared time at
  the end of a page loses messages.
\<close>

section \<open>Following the cursor\<close>

fun read_pages :: "nat \<Rightarrow> chat_cfg \<Rightarrow> string \<Rightarrow> int \<Rightarrow> string \<Rightarrow> chat_world \<Rightarrow> chatMessage list \<times> bool" where
  "read_pages 0 cfg cid limit cursor w = ([], False)"
| "read_pages (Suc n) cfg cid limit cursor w =
     (case GetHistory cfg \<lparr>hr_conversation_id = cid, hr_cursor = cursor, hr_limit = limit\<rparr> w of
        (Inl _, _) \<Rightarrow> ([], False)
      | (Inr page, w') \<Rightarrow>
          if hs_next_cursor page = [] then (hs_messages page, True)
          else (case read_pages n cfg cid limit (hs_next_cursor page) w' of
                  (ms, complete) \<Rightarrow> (hs_messages page @ ms, complete)))"

definition conversation_rows :: "string \<Rightarrow> db \<Rightarrow> message list" where
  "conversation_rows cid d = filter (\<lambda>m. m_conversation_id m = cid) (messages d)"

text \<open>The replica has caught up and stays.\<close>

definition current :: "chat_world \<Rightarrow> bool" where
  "current w \<longleftrightarrow> undisturbed w \<and> (\<forall>n d. replica_view w n d = d)"

lemma current_next_call [simp]: "current (next_call d w) = current w"
  by (simp add: current_def)

lemma effective_limit_bounds: "1 \<le> effective_limit l \<and> effective_limit l \<le> 50"
  by (simp add: effective_limit_def maxHistoryLimit_def Let_def)

lemma newest_first_filter: "newest_first coll (filter P ms) = filter P (newest_first coll ms)"
  by (simp add: newest_first_def filter_sort flip: rev_filter)

lemma set_newest_first [simp]: "set (newest_first coll ms) = set ms"
  by (simp add: newest_first_def)

definition page_rows :: "chat_cfg \<Rightarrow> string \<Rightarrow> int \<Rightarrow> string \<Rightarrow> db \<Rightarrow> message list" where
  "page_rows cfg cid limit cursor d = take (nat (effective_limit limit))
     (filter (before_cursor cursor (messages d)) (newest_first (cfg_collation cfg) (conversation_rows cid d)))"

lemma history_page:
  assumes "current w" and "trim_space cid = cid" and "cid \<noteq> []" and "trim_space cursor = cursor"
    and rows: "rows = page_rows cfg cid limit cursor (wdb w)"
  shows "GetHistory cfg \<lparr>hr_conversation_id = cid, hr_cursor = cursor, hr_limit = limit\<rparr> w =
    (Inr \<lparr>hs_messages = map history_message rows,
          hs_next_cursor = (if int (length rows) = effective_limit limit then m_id (last rows) else [])\<rparr>,
     next_call (wdb w) w)"
proof -
  have "filter (\<lambda>m. m_conversation_id m = cid \<and> before_cursor cursor (messages (wdb w)) m) (messages (wdb w)) =
      filter (before_cursor cursor (messages (wdb w))) (conversation_rows cid (wdb w))"
    by (simp add: conversation_rows_def conj_commute)
  moreover have "\<not> effective_limit limit < 0"
    using effective_limit_bounds[of limit] by simp
  ultimately show ?thesis
    using assms(1-4)
    by (simp add: GetHistory_def exec_replica_def GetMessageHistory_def current_def undisturbed_advance Let_def
        newest_first_filter rows page_rows_def)
qed

text \<open>
  A page holds at most the limit asked for, never more than fifty, and only messages of the
  conversation it was asked for, the newest first.
\<close>

theorem history_page_bounds:
  assumes "current w" and "trim_space cid = cid" and "cid \<noteq> []" and "trim_space cursor = cursor"
    and "GetHistory cfg \<lparr>hr_conversation_id = cid, hr_cursor = cursor, hr_limit = limit\<rparr> w = (Inr page, w')"
  shows "length (hs_messages page) \<le> 50 \<and> (0 < limit \<longrightarrow> int (length (hs_messages page)) \<le> limit) \<and>
    c_message_id ` set (hs_messages page) \<subseteq> m_id ` set (conversation_rows cid (wdb w)) \<and>
    wdb w' = wdb w"
proof -
  let ?L = "filter (before_cursor cursor (messages (wdb w))) (newest_first (cfg_collation cfg) (conversation_rows cid (wdb w)))"
  have page: "hs_messages page = map history_message (take (nat (effective_limit limit)) ?L)" "wdb w' = wdb w"
    using assms(5) unfolding history_page[OF assms(1-4) refl] page_rows_def by auto
  have "nat (effective_limit limit) \<le> 50" "0 < limit \<longrightarrow> effective_limit limit \<le> limit"
    using effective_limit_bounds[of limit] by (auto simp: effective_limit_def maxHistoryLimit_def Let_def)
  moreover have "c_message_id ` set (hs_messages page) \<subseteq> m_id ` set ?L"
    using set_take_subset[of "nat (effective_limit limit)" ?L] by (auto simp: page history_message_def)
  ultimately show ?thesis
    using effective_limit_bounds[of limit] by (auto simp: page)
qed

theorem history_page_bounds_witness:
  "length (hs_messages (projr (fst (GetHistory plain_cfg \<lparr>hr_conversation_id = ''dm'', hr_cursor = [], hr_limit = 0\<rparr>
     (chat_of one_message Map.empty))))) \<le> 50"
proof -
  have "trim_space ''dm'' = ''dm''"
    by (simp add: trim_space_printable printable_def)
  moreover have "current (chat_of one_message Map.empty)"
    by (simp add: current_def)
  ultimately show ?thesis
    using history_page[of "chat_of one_message Map.empty" "''dm''" "[]", OF _ _ _ _ refl, of plain_cfg 0]
      history_page_bounds[of "chat_of one_message Map.empty" "''dm''" "[]" plain_cfg 0]
    by simp
qed

section \<open>All messages, once each\<close>

text \<open>The rows after the cursor, where times are distinct.\<close>

lemma after_cursor:
  assumes "sorted_wrt (\<lambda>a b. m_created_at b < m_created_at a) (pre @ c # rest)"
    and "find (\<lambda>m. m_id m = m_id c) all = Some c" and "m_id c \<noteq> []"
  shows "filter (before_cursor (m_id c) all) (pre @ c # rest) = rest"
proof -
  have "filter (before_cursor (m_id c) all) pre = []" "\<not> before_cursor (m_id c) all c"
    using assms by (auto simp: before_cursor_def filter_empty_conv sorted_wrt_append)
  moreover have "filter (before_cursor (m_id c) all) rest = rest"
    using assms by (auto simp: before_cursor_def sorted_wrt_append intro!: filter_True)
  ultimately show ?thesis by simp
qed

lemma newest_first_strict:
  assumes "inj_on m_created_at (set ms)" and "distinct ms"
  shows "sorted_wrt (\<lambda>a b. m_created_at b < m_created_at a) (newest_first coll ms)"
proof -
  let ?s = "sort_key (\<lambda>m. (m_created_at m, coll (m_id m))) ms"
  have "sorted_wrt (\<lambda>a b. (m_created_at a, coll (m_id a)) \<le> (m_created_at b, coll (m_id b))) ?s"
    using sorted_sort_key[of "\<lambda>m. (m_created_at m, coll (m_id m))" ms] by (simp add: sorted_map)
  then have "sorted_wrt (\<lambda>a b. m_created_at a \<le> m_created_at b) ?s"
    by (rule sorted_wrt_mono_rel[rotated]) auto
  then have "sorted (map m_created_at ?s)"
    by (simp add: sorted_map)
  moreover have "distinct (map m_created_at ?s)"
    using assms by (simp add: distinct_map)
  ultimately have "sorted_wrt (<) (map m_created_at ?s)"
    by (simp add: strict_sorted_iff)
  then show ?thesis
    by (simp add: newest_first_def sorted_wrt_rev sorted_wrt_map)
qed

text \<open>What is still to be read at a cursor.\<close>

definition rest_of :: "message list \<Rightarrow> message list \<Rightarrow> string \<Rightarrow> message list" where
  "rest_of all L cursor = filter (before_cursor cursor all) L"

lemma rest_of_start [simp]: "rest_of all L [] = L"
  by (simp add: rest_of_def before_cursor_def)

lemma find_by_id: "distinct (map m_id ms) \<Longrightarrow> c \<in> set ms \<Longrightarrow> find (\<lambda>m. m_id m = m_id c) ms = Some c"
  by (induction ms) auto

lemma rest_of_last:
  assumes "sorted_wrt (\<lambda>a b. m_created_at b < m_created_at a) L" and "distinct (map m_id all)" and "set L \<subseteq> set all"
    and "L = pre @ rest" and "0 < k" and "k \<le> length rest" and "m_id (last (take k rest)) \<noteq> []"
  shows "rest_of all L (m_id (last (take k rest))) = drop k rest"
proof -
  let ?c = "last (take k rest)"
  have "take k rest = butlast (take k rest) @ [?c]"
    using assms(5,6) by (cases "take k rest = []") auto
  then have split: "L = (pre @ butlast (take k rest)) @ ?c # drop k rest"
    unfolding assms(4) by (metis append.assoc append_Cons append_Nil append_take_drop_id)
  have "find (\<lambda>m. m_id m = m_id ?c) all = Some ?c"
    by (rule find_by_id[OF assms(2)]) (use assms(3) split in auto)
  from after_cursor[OF assms(1)[unfolded split] this assms(7)] show ?thesis
    unfolding rest_of_def by (subst split)
qed

lemma page_is_take:
  "page_rows cfg cid limit cursor d =
   take (nat (effective_limit limit)) (rest_of (messages d) (newest_first (cfg_collation cfg) (conversation_rows cid d)) cursor)"
  by (simp add: page_rows_def rest_of_def)

lemma read_pages_rest:
  assumes "current w" and "trim_space cid = cid" and "cid \<noteq> []"
    and strict: "sorted_wrt (\<lambda>a b. m_created_at b < m_created_at a) L"
    and L: "L = newest_first (cfg_collation cfg) (conversation_rows cid (wdb w))"
    and ids: "distinct (map m_id (messages (wdb w)))" "\<forall>m\<in>set (messages (wdb w)). m_id m \<noteq> [] \<and> trim_space (m_id m) = m_id m"
    and "trim_space cursor = cursor" and "L = pre @ rest" and "rest_of (messages (wdb w)) L cursor = rest" and "length rest < n"
  shows "read_pages n cfg cid limit cursor w = (map history_message rest, True)"
  using assms(1,5-)
proof (induction n arbitrary: w cursor pre rest)
  case 0
  then show ?case by simp
next
  case (Suc n)
  let ?k = "nat (effective_limit limit)"
  let ?w' = "next_call (wdb w) w"
  have k: "0 < ?k" "int ?k = effective_limit limit"
    using effective_limit_bounds[of limit] by auto
  have rows: "take ?k rest = page_rows cfg cid limit cursor (wdb w)"
    using Suc.prems(2,7) by (simp add: page_is_take)
  note page = history_page[OF Suc.prems(1) assms(2,3) Suc.prems(5) rows]
  have sub: "set L \<subseteq> set (messages (wdb w))"
    by (auto simp: Suc.prems(2) conversation_rows_def)
  show ?case
  proof (cases "?k \<le> length rest")
    case False
    then show ?thesis
      using k page by simp
  next
    case True
    let ?c = "last (take ?k rest)"
    have "?c \<in> set (take ?k rest)"
      using True k(1) by (intro last_in_set) auto
    then have "?c \<in> set (messages (wdb w))"
      using sub Suc.prems(6) by (auto dest: in_set_takeD)
    then have c: "m_id ?c \<noteq> []" "trim_space (m_id ?c) = m_id ?c"
      using Suc.prems(4) by auto
    have "read_pages n cfg cid limit (m_id ?c) ?w' = (map history_message (drop ?k rest), True)"
    proof (rule Suc.IH)
      show "L = (pre @ take ?k rest) @ drop ?k rest"
        using Suc.prems(6) by simp
      show "rest_of (messages (wdb ?w')) L (m_id ?c) = drop ?k rest"
        using rest_of_last[OF strict Suc.prems(3) sub Suc.prems(6) k(1) True c(1)] by simp
      show "length (drop ?k rest) < n"
        using Suc.prems(8) True k(1) by simp
    qed (use Suc.prems c in simp_all)
    then show ?thesis
      using True k c page by (simp flip: map_append)
  qed
qed

text \<open>
  C11. Reading a conversation page by page, from an empty cursor to an empty cursor, yields every
  message of it once, newest first, whatever the page size, and ends: with one page more than
  messages at most. This needs that no two messages of the conversation have the same time.
\<close>

theorem pages_are_the_conversation:
  assumes "current w" and "trim_space cid = cid" and "cid \<noteq> []"
    and "distinct (map m_id (messages (wdb w)))"
    and "\<forall>m\<in>set (messages (wdb w)). m_id m \<noteq> [] \<and> trim_space (m_id m) = m_id m"
    and "inj_on m_created_at (set (conversation_rows cid (wdb w)))"
    and "length (conversation_rows cid (wdb w)) < n"
  shows "read_pages n cfg cid limit [] w =
    (map history_message (newest_first (cfg_collation cfg) (conversation_rows cid (wdb w))), True)"
proof -
  have "distinct (conversation_rows cid (wdb w))"
    using assms(4) by (simp add: conversation_rows_def distinct_map)
  note strict = newest_first_strict[OF assms(6) this, of "cfg_collation cfg"]
  show ?thesis
    by (rule read_pages_rest[OF assms(1-3) strict refl assms(4,5), where pre = "[]"])
      (use assms(7) in \<open>simp_all add: newest_first_def\<close>)
qed

definition at_times :: "(string \<times> int) list \<Rightarrow> db" where
  "at_times its = no_rows\<lparr>messages := map (\<lambda>(i, t). \<lparr>m_id = i, m_conversation_id = ''dm'', m_sender_phone = ''1'', m_body = i,
     m_media_url = None, m_created_at = t, m_recipient_phone = Some ''2'', m_group_id = None, m_body_encrypted = i,
     m_body_type = ''text'', m_server_ts = t\<rparr>) its\<rparr>"

lemma current_chat_of [simp]: "current (chat_of d keys)"
  by (simp add: current_def)

lemma dm_trim [simp]: "trim_space ''dm'' = ''dm''"
  by (simp add: trim_space_printable printable_def)

theorem pages_are_the_conversation_witness:
  "map c_message_id (fst (read_pages 4 plain_cfg ''dm'' 1 [] (chat_of (at_times [(''1'', 5), (''2'', 9), (''3'', 7)]) Map.empty)))
     = [''2'', ''3'', ''1'']"
  using pages_are_the_conversation[of "chat_of (at_times [(''1'', 5), (''2'', 9), (''3'', 7)]) Map.empty" "''dm''" 4 plain_cfg 1]
  by (simp add: at_times_def conversation_rows_def newest_first_def history_message_def inj_on_def)

text \<open>
  A message that shares its time with the last one of a page is never shown: of three
  messages, two of them sent at the same moment, a client reading one at a time gets two.
\<close>

theorem shared_time_is_skipped:
  "map c_message_id (fst (read_pages 4 plain_cfg ''dm'' 1 [] (chat_of (at_times [(''1'', 5), (''2'', 9), (''3'', 9)]) Map.empty)))
     = [''3'', ''1'']"
  by (simp add: eval_nat_numeral history_page[OF _ _ _ _ refl] page_rows_def effective_limit_def maxHistoryLimit_def
      before_cursor_def at_times_def conversation_rows_def newest_first_def history_message_def plain_cfg_def)

end
