(* ===== verification/FanOut.thy ===== *)
theory FanOut
  imports ChatProps
begin

text \<open>
  The worker pool of \<^verbatim>\<open>groupFanout\<close> (services/chat-service/cmd/server.go) as a step relation: the
  caller hands batches over an unbuffered channel, closes it and waits; each worker ranges over
  the channel and delivers a batch recipient by recipient. One step is one such event, so every
  interleaving of the workers is a run. The pool cannot get stuck before the caller returns,
  every run is finite, and by then each recipient was served exactly once.
\<close>

datatype worker = Receiving | Delivering "string list" | Finished

record pool =
  p_todo :: "string list list"
  p_closed :: bool
  p_workers :: "worker list"
  p_log :: "string list"
  p_returned :: bool

definition worker_count :: "string list list \<Rightarrow> nat" where
  "worker_count batches =
     (let workers = (if length batches < groupWorkerCount then length batches else groupWorkerCount) in
      if workers < 1 then 1 else workers)"

definition pool_start :: "string list \<Rightarrow> pool" where
  "pool_start recipients =
     (let batches = batchRecipients recipients 64 in
      \<lparr>p_todo = batches, p_closed = False, p_workers = replicate (worker_count batches) Receiving,
       p_log = [], p_returned = False\<rparr>)"

inductive pool_step :: "pool \<Rightarrow> pool \<Rightarrow> bool" where
  hand: "p_todo s = b # bs \<Longrightarrow> i < length (p_workers s) \<Longrightarrow> p_workers s ! i = Receiving \<Longrightarrow>
    pool_step s (s\<lparr>p_todo := bs, p_workers := (p_workers s)[i := Delivering b]\<rparr>)"
| deliver: "i < length (p_workers s) \<Longrightarrow> p_workers s ! i = Delivering (p # ps) \<Longrightarrow>
    pool_step s (s\<lparr>p_workers := (p_workers s)[i := Delivering ps], p_log := p_log s @ [p]\<rparr>)"
| batch_done: "i < length (p_workers s) \<Longrightarrow> p_workers s ! i = Delivering [] \<Longrightarrow>
    pool_step s (s\<lparr>p_workers := (p_workers s)[i := Receiving]\<rparr>)"
| close: "p_todo s = [] \<Longrightarrow> \<not> p_closed s \<Longrightarrow> pool_step s (s\<lparr>p_closed := True\<rparr>)"
| finish: "p_closed s \<Longrightarrow> i < length (p_workers s) \<Longrightarrow> p_workers s ! i = Receiving \<Longrightarrow>
    pool_step s (s\<lparr>p_workers := (p_workers s)[i := Finished]\<rparr>)"
| return: "p_closed s \<Longrightarrow> \<forall>x\<in>set (p_workers s). x = Finished \<Longrightarrow> \<not> p_returned s \<Longrightarrow>
    pool_step s (s\<lparr>p_returned := True\<rparr>)"

inductive_cases pool_stepE: "pool_step s t"

fun pending :: "worker \<Rightarrow> string list" where
  "pending (Delivering ps) = ps"
| "pending _ = []"

definition outstanding :: "pool \<Rightarrow> string multiset" where
  "outstanding s = mset (p_log s) + mset (concat (p_todo s)) + mset (concat (map pending (p_workers s)))"

definition pool_inv :: "string list \<Rightarrow> pool \<Rightarrow> bool" where
  "pool_inv recipients s \<longleftrightarrow>
     outstanding s = mset recipients \<and> p_workers s \<noteq> [] \<and>
     (p_closed s \<longrightarrow> p_todo s = []) \<and> (Finished \<in> set (p_workers s) \<longrightarrow> p_closed s) \<and>
     (p_returned s \<longrightarrow> p_closed s \<and> set (p_workers s) \<subseteq> {Finished})"

fun worker_work :: "worker \<Rightarrow> nat" where
  "worker_work Receiving = 1"
| "worker_work (Delivering ps) = length ps + 2"
| "worker_work Finished = 0"

definition pool_work :: "pool \<Rightarrow> nat" where
  "pool_work s = sum_list (map (\<lambda>b. length b + 3) (p_todo s)) + sum_list (map worker_work (p_workers s))
     + (if p_closed s then 0 else 1) + (if p_returned s then 0 else 1)"

text \<open>Replacing one worker.\<close>

lemma mset_concat_update:
  "i < length ws \<Longrightarrow>
   mset (concat (map f (ws[i := x]))) + mset (f (ws ! i)) = mset (concat (map f ws)) + mset (f x)"
proof (induction ws arbitrary: i)
  case Nil
  then show ?case by simp
next
  case (Cons w ws)
  then show ?case by (cases i) (auto simp: ac_simps)
qed

lemma sum_list_worker_update:
  "i < length ws \<Longrightarrow>
   sum_list (map f (ws[i := x])) + (f (ws ! i) :: nat) = sum_list (map f ws) + f x"
proof (induction ws arbitrary: i)
  case Nil
  then show ?case by simp
next
  case (Cons w ws)
  then show ?case by (cases i) (auto simp: ac_simps)
qed

lemma set_update_elems: "y \<in> set (ws[i := x]) \<Longrightarrow> y = x \<or> y \<in> set ws"
  using set_update_subset_insert by fastforce

lemma outstanding_step: "pool_step s t \<Longrightarrow> outstanding t = outstanding s"
proof (induction rule: pool_step.induct)
  case (hand s b bs i)
  then show ?case
    using mset_concat_update[of i "p_workers s" pending "Delivering b"] by (simp add: outstanding_def ac_simps)
next
  case (deliver i s p ps)
  then show ?case
    using mset_concat_update[of i "p_workers s" pending "Delivering ps"] by (simp add: outstanding_def ac_simps)
next
  case (batch_done i s)
  then show ?case
    using mset_concat_update[of i "p_workers s" pending Receiving] by (simp add: outstanding_def)
next
  case (finish s i)
  then show ?case
    using mset_concat_update[of i "p_workers s" pending Finished] by (simp add: outstanding_def)
qed (simp_all add: outstanding_def)

lemma pool_inv_step: "pool_inv rs s \<Longrightarrow> pool_step s t \<Longrightarrow> pool_inv rs t"
proof -
  assume inv: "pool_inv rs s" and step: "pool_step s t"
  have out: "outstanding t = mset rs"
    using outstanding_step[OF step] inv by (simp add: pool_inv_def)
  from step inv out show "pool_inv rs t"
    by (cases rule: pool_step.cases)
      (auto simp: pool_inv_def dest!: set_update_elems nth_mem)
qed

lemma pool_work_step: "pool_step s t \<Longrightarrow> pool_work t < pool_work s"
proof (induction rule: pool_step.induct)
  case (hand s b bs i)
  then show ?case
    using sum_list_worker_update[of i "p_workers s" worker_work "Delivering b"] by (simp add: pool_work_def)
next
  case (deliver i s p ps)
  then show ?case
    using sum_list_worker_update[of i "p_workers s" worker_work "Delivering ps"] by (simp add: pool_work_def)
next
  case (batch_done i s)
  then show ?case
    using sum_list_worker_update[of i "p_workers s" worker_work Receiving] by (simp add: pool_work_def)
next
  case (finish s i)
  then show ?case
    using sum_list_worker_update[of i "p_workers s" worker_work Finished] by (simp add: pool_work_def)
qed (simp_all add: pool_work_def)

lemma pool_progress:
  assumes "pool_inv rs s" and "\<not> p_returned s"
  shows "\<exists>t. pool_step s t"
proof (cases "\<exists>i ps. i < length (p_workers s) \<and> p_workers s ! i = Delivering ps")
  case True
  then obtain i ps where "i < length (p_workers s)" "p_workers s ! i = Delivering ps" by blast
  then show ?thesis
    by (cases ps) (auto intro: deliver batch_done)
next
  case False
  then have idle: "x = Receiving \<or> x = Finished" if "x \<in> set (p_workers s)" for x
    using that by (metis in_set_conv_nth worker.exhaust)
  show ?thesis
  proof (cases "Receiving \<in> set (p_workers s)")
    case True
    then obtain i where i: "i < length (p_workers s)" "p_workers s ! i = Receiving"
      by (metis in_set_conv_nth)
    show ?thesis
    proof (cases "p_todo s")
      case Nil
      then show ?thesis using i close finish by blast
    next
      case (Cons b bs)
      then show ?thesis using i hand by blast
    qed
  next
    case False
    with idle have all: "\<forall>x\<in>set (p_workers s). x = Finished" by blast
    then have "p_closed s"
      using assms(1) unfolding pool_inv_def by (metis list.set_sel(1))
    with all assms(2) show ?thesis
      using return by blast
  qed
qed

lemma pool_start_inv: "pool_inv recipients (pool_start recipients)"
  by (simp add: pool_inv_def outstanding_def pool_start_def Let_def batches_concat worker_count_def groupWorkerCount_def)

interpretation fanout: terminating_system "\<lambda>s. s = pool_start recipients" pool_step "pool_inv recipients" pool_work p_returned
  for recipients
  by unfold_locales (auto simp: pool_start_inv pool_inv_step pool_work_step pool_progress)

lemma returned_served_all:
  assumes "pool_inv recipients s" and "p_returned s"
  shows "mset (p_log s) = mset recipients"
proof -
  have "concat (map pending (p_workers s)) = []" "p_todo s = []"
    using assms by (auto simp: pool_inv_def)
  with assms(1) show ?thesis
    by (simp add: pool_inv_def outstanding_def)
qed

text \<open>
  C15. The fan-out serves every recipient exactly once and comes back: whatever the workers'
  interleaving, a run that can go no further has returned, its deliveries are a permutation of
  the recipients, and it took at most \<open>pool_work\<close> of the start state many steps.
\<close>

theorem fanout_exactly_once:
  assumes "(pool_step ^^ n) (pool_start recipients) t"
  shows "n \<le> pool_work (pool_start recipients) \<and>
    (\<not> (\<exists>u. pool_step t u) \<longrightarrow> p_returned t \<and> mset (p_log t) = mset recipients)"
proof -
  have run: "pool_step\<^sup>*\<^sup>* (pool_start recipients) t"
    using assms by (rule relpowp_imp_rtranclp)
  have "pool_inv recipients t"
    by (rule fanout.steps_inv[OF run pool_start_inv])
  then show ?thesis
    using fanout.run_bounded[OF assms pool_start_inv] fanout.stuck_is_final[OF pool_start_inv run] returned_served_all
    by auto
qed

text \<open>
  No deadlock: from every state a run of the fan-out can reach, it can come back to its
  caller, with every recipient served.
\<close>

theorem fanout_can_return:
  assumes "pool_step\<^sup>*\<^sup>* (pool_start recipients) s"
  shows "\<exists>t. pool_step\<^sup>*\<^sup>* s t \<and> p_returned t \<and> mset (p_log t) = mset recipients"
proof -
  have inv: "pool_inv recipients s"
    by (rule fanout.steps_inv[OF assms pool_start_inv])
  obtain t where "pool_step\<^sup>*\<^sup>* s t" "p_returned t"
    using fanout.can_finish[OF inv] by blast
  then show ?thesis
    using returned_served_all[OF fanout.steps_inv[OF _ inv]] by blast
qed

theorem fanout_can_return_witness:
  "\<exists>t. pool_step\<^sup>*\<^sup>* (pool_start [''a'', ''b'']) t \<and> p_returned t \<and> mset (p_log t) = {#''a'', ''b''#}"
  using fanout_can_return[of "[''a'', ''b'']" "pool_start [''a'', ''b'']"] by simp

theorem fanout_exactly_once_witness:
  "\<exists>n t. (pool_step ^^ n) (pool_start [''a'', ''b'']) t \<and> p_returned t \<and> \<not> (\<exists>u. pool_step t u) \<and>
     mset (p_log t) = {#''a'', ''b''#} \<and> n \<le> pool_work (pool_start [''a'', ''b''])"
proof -
  obtain t where t: "pool_step\<^sup>*\<^sup>* (pool_start [''a'', ''b'']) t" "p_returned t"
    using fanout_can_return[of "[''a'', ''b'']" "pool_start [''a'', ''b'']"] by blast
  have inv: "pool_inv [''a'', ''b''] t"
    by (rule fanout.steps_inv[OF t(1) pool_start_inv])
  obtain n where n: "(pool_step ^^ n) (pool_start [''a'', ''b'']) t"
    using t(1) by (auto simp: rtranclp_power)
  have "\<not> pool_step t u" for u
    using t(2) inv by (auto simp: pool_inv_def elim!: pool_stepE dest: nth_mem)
  with fanout_exactly_once[OF n] n t(2) show ?thesis
    by auto
qed

end
