(* ===== verification/GatewayHub.thy ===== *)
theory GatewayHub
  imports Middleware
begin

text \<open>
  services/api-gateway/internal/gateway/hub.go: the hub of the WebSocket connections. \<^verbatim>\<open>Run\<close> is one
  goroutine that selects over four channels, a ticker and the epoll descriptor; \<open>hub_step\<close> has a
  rule for each of its branches and for what other goroutines do. A send on an unbuffered
  channel needs a receiver, so a send from inside \<^verbatim>\<open>Run\<close> on a channel only \<^verbatim>\<open>Run\<close> receives from is
  a state of its own (\<open>Blocked_unregister\<close>, \<open>Blocked_broadcast\<close>) that no rule leaves.

  The connections are listed in the order a map iteration takes. Every read event is a step;
  the code runs the events of one \<^verbatim>\<open>EpollWait\<close> in a row, so its runs are among the runs here.
\<close>

section \<open>State\<close>

text \<open>
  \<open>h_subscribing\<close> and \<open>h_subscribed\<close> are the connections whose subscription's goroutine was started, and
  runs; \<open>h_open\<close> the descriptors of sockets that were handed to the hub and are not closed. The remaining
  fields from \<open>h_online\<close> on are what went out: presence keys, events, expiries set, lookups, messages.
\<close>

record connection =
  cn_id :: nat
  cn_fd :: int
  cn_phone :: string
  cn_last_pong :: int

datatype run_state = Looping | Blocked_unregister connection | Blocked_broadcast string | Stopped

record hub =
  h_run :: run_state
  h_conns :: "connection list"
  h_active :: int
  h_registering :: "connection list"
  h_unregistering :: "connection list"
  h_broadcast :: "string list"
  h_groups :: "(string list \<times> string) list"
  h_subscribing :: "nat set"
  h_subscribed :: "nat set"
  h_open :: "int set"
  h_online :: "string set"
  h_offline_events :: "string list"
  h_expires :: "(string \<times> int) list"
  h_lookups :: "(connection \<times> string) list"
  h_sent :: "(nat \<times> string) list"

definition NewHub :: hub where
  "NewHub = \<lparr>h_run = Looping, h_conns = [], h_active = 0, h_registering = [], h_unregistering = [],
     h_broadcast = [], h_groups = [], h_subscribing = {}, h_subscribed = {}, h_open = {},
     h_online = {}, h_offline_events = [], h_expires = [], h_lookups = [], h_sent = []\<rparr>"

text \<open>
  \<^verbatim>\<open>NewConnection\<close>: the connection the handshake gave must let the descriptor be read. \<open>control\<close> is the
  error of \<^verbatim>\<open>SyscallConn\<close> or \<^verbatim>\<open>Control\<close>, or the descriptor; none if the type does not have it.
\<close>

definition NewConnection :: "string \<Rightarrow> (string + int) option \<Rightarrow> nat \<Rightarrow> int \<Rightarrow> string \<Rightarrow> string + connection" where
  "NewConnection type_name control fresh now phone =
     (case control of
        None \<Rightarrow> Inl (''unsupported conn type: '' @ type_name)
      | Some (Inl e) \<Rightarrow> Inl e
      | Some (Inr fd) \<Rightarrow> Inr \<lparr>cn_id = fresh, cn_fd = fd, cn_phone = phone, cn_last_pong = now\<rparr>)"

section \<open>Operations\<close>

text \<open>\<^verbatim>\<open>Connection.Send\<close>: an empty payload is a pong.\<close>

definition send_to :: "connection \<Rightarrow> string \<Rightarrow> hub \<Rightarrow> hub" where
  "send_to c payload h = h\<lparr>h_sent := h_sent h @ [(cn_id c, payload)]\<rparr>"

text \<open>
  \<^verbatim>\<open>add\<close>: the entry under its descriptor, the gauge, the presence key, the goroutine of the subscription,
  which runs later. \<^verbatim>\<open>remove\<close>: the entry, the gauge, the context of the subscription cancelled, the socket
  closed, the key deleted, the event. \<open>set_ok\<close>, \<open>del_ok\<close> and \<open>pub_ok\<close> tell which of the calls to Redis and the
  bus took effect, each on its own; a failure is only logged, or dropped.
\<close>

definition hub_add :: "bool \<Rightarrow> connection \<Rightarrow> hub \<Rightarrow> hub" where
  "hub_add set_ok c h = h\<lparr>h_conns := filter (\<lambda>d. cn_fd d \<noteq> cn_fd c) (h_conns h) @ [c],
     h_active := h_active h + 1,
     h_online := (if set_ok then insert (cn_phone c) (h_online h) else h_online h),
     h_subscribing := insert (cn_id c) (h_subscribing h)\<rparr>"

definition hub_remove :: "bool \<Rightarrow> bool \<Rightarrow> connection \<Rightarrow> hub \<Rightarrow> hub" where
  "hub_remove del_ok pub_ok c h = h\<lparr>h_conns := filter (\<lambda>d. cn_fd d \<noteq> cn_fd c) (h_conns h),
     h_active := h_active h - 1,
     h_subscribing := h_subscribing h - {cn_id c}, h_subscribed := h_subscribed h - {cn_id c},
     h_open := h_open h - {cn_fd c},
     h_online := (if del_ok then h_online h - {cn_phone c} else h_online h),
     h_offline_events := (if pub_ok then h_offline_events h @ [cn_phone c] else h_offline_events h)\<rparr>"

text \<open>The start of \<^verbatim>\<open>subscribeUser\<close>: the subscription is there, or the goroutine returns.\<close>

definition subscribe_starts :: "bool \<Rightarrow> nat \<Rightarrow> hub \<Rightarrow> hub" where
  "subscribe_starts ok i h = h\<lparr>h_subscribing := h_subscribing h - {i},
     h_subscribed := (if ok then insert i (h_subscribed h) else h_subscribed h)\<rparr>"

definition deliver_to :: "string list \<Rightarrow> connection list \<Rightarrow> connection list" where
  "deliver_to targets conns =
     (if targets = [] then conns
      else concat (map (\<lambda>t. filter (\<lambda>c. cn_phone c = t) conns) targets))"

definition hub_deliver :: "string \<Rightarrow> string list \<Rightarrow> hub \<Rightarrow> hub" where
  "hub_deliver payload targets h = fold (\<lambda>c. send_to c payload) (deliver_to targets (h_conns h)) h"

text \<open>\<^verbatim>\<open>checkHeartbeats\<close> in the iteration order \<open>cs\<close>: pings write nothing the model keeps.\<close>

fun check_heartbeats :: "int \<Rightarrow> connection list \<Rightarrow> hub \<Rightarrow> hub" where
  "check_heartbeats now [] h = h"
| "check_heartbeats now (c # cs) h =
     (if now - cn_last_pong c > 40 * 1000000000 then h\<lparr>h_run := Blocked_unregister c\<rparr>
      else check_heartbeats now cs h)"

datatype opcode = Op_text | Op_binary | Op_continuation | Op_close | Op_ping | Op_pong

text \<open>What the socket holds: no frame, or a header with a payload that may fail to read.\<close>

datatype incoming = No_frame | Frame opcode "string option"

definition readMessage :: "int \<Rightarrow> incoming \<Rightarrow> connection \<Rightarrow> hub \<Rightarrow> string option \<times> hub" where
  "readMessage now inc c h =
     (case inc of
        No_frame \<Rightarrow> (None, h)
      | Frame Op_pong _ \<Rightarrow>
          (Some [], h\<lparr>h_conns := map (\<lambda>d. if cn_id d = cn_id c then d\<lparr>cn_last_pong := now\<rparr> else d) (h_conns h)\<rparr>)
      | Frame Op_ping _ \<Rightarrow> (Some [], send_to c [] h)
      | Frame Op_close _ \<Rightarrow> (None, h)
      | Frame _ data \<Rightarrow> (data, h))"

text \<open>\<^verbatim>\<open>Broadcast\<close> from \<^verbatim>\<open>Run\<close> itself: the channel holds 128.\<close>

definition broadcast_cap :: nat where "broadcast_cap = 128"

definition groups_cap :: nat where "groups_cap = 32"

definition broadcast_from_run :: "string \<Rightarrow> hub \<Rightarrow> hub" where
  "broadcast_from_run payload h =
     (if length (h_broadcast h) < broadcast_cap then h\<lparr>h_broadcast := h_broadcast h @ [payload]\<rparr>
      else h\<lparr>h_run := Blocked_broadcast payload\<rparr>)"

text \<open>
  \<open>counter\<close> is what \<^verbatim>\<open>INCR\<close> answered for the user's key of this minute, \<open>now\<close> the clock in nanoseconds; the
  first message of the minute sets the key's expiry, whose failure is dropped.
\<close>

definition allowWSMessage :: "int \<Rightarrow> int option \<Rightarrow> string \<Rightarrow> hub \<Rightarrow> bool \<times> hub" where
  "allowWSMessage now counter phone h =
     (let key = ''rl_ws:'' @ phone @ '':'' @ decimal (now div 1000000000 div 60) in
      case counter of
        None \<Rightarrow> (False, h)
      | Some n \<Rightarrow> (n \<le> 60, if n = 1 then h\<lparr>h_expires := h_expires h @ [(key, 60 * 1000000000)]\<rparr> else h))"

definition handleRead :: "int \<Rightarrow> incoming \<Rightarrow> int option \<Rightarrow> connection \<Rightarrow> hub \<Rightarrow> hub" where
  "handleRead now inc counter c h =
     (case readMessage now inc c h of
        (None, h) \<Rightarrow> h\<lparr>h_run := Blocked_unregister c\<rparr>
      | (Some data, h) \<Rightarrow>
          if data = [] then h
          else (let raw = trim_space data in
            if has_prefix raw ''lookup:'' then
              h\<lparr>h_lookups := h_lookups h @ [(c, trim_space (trim_prefix raw ''lookup:''))]\<rparr>
            else (case allowWSMessage now counter (cn_phone c) h of
                (False, h) \<Rightarrow> h
              | (True, h) \<Rightarrow> broadcast_from_run data h)))"

section \<open>The machine\<close>

text \<open>
  A connection that is registered is a new object, on a descriptor that the system gives out only while
  no open socket has it. Only a connection that is listed, in whatever version of its last pong, is
  unregistered, and not again while it waits.
\<close>

inductive hub_step :: "hub \<Rightarrow> hub \<Rightarrow> bool" where
  registered: "h_run h = Looping \<Longrightarrow> h_registering h = c # cs \<Longrightarrow>
    hub_step h (hub_add set_ok c (h\<lparr>h_registering := cs\<rparr>))"
| unregistered: "h_run h = Looping \<Longrightarrow> h_unregistering h = c # cs \<Longrightarrow>
    hub_step h (hub_remove del_ok pub_ok c (h\<lparr>h_unregistering := cs\<rparr>))"
| broadcasted: "h_run h = Looping \<Longrightarrow> h_broadcast h = p # ps \<Longrightarrow>
    hub_step h (hub_deliver p [] (h\<lparr>h_broadcast := ps\<rparr>))"
| grouped: "h_run h = Looping \<Longrightarrow> h_groups h = (ts, p) # gs \<Longrightarrow>
    hub_step h (hub_deliver p ts (h\<lparr>h_groups := gs\<rparr>))"
| ticked: "h_run h = Looping \<Longrightarrow> mset cs = mset (h_conns h) \<Longrightarrow> hub_step h (check_heartbeats now cs h)"
| readable: "h_run h = Looping \<Longrightarrow> c \<in> set (h_conns h) \<Longrightarrow> hub_step h (handleRead now inc counter c h)"
| stopped: "h_run h = Looping \<Longrightarrow> hub_step h (h\<lparr>h_run := Stopped\<rparr>)"
| call_register: "cn_fd c \<notin> h_open h \<Longrightarrow> cn_id c \<notin> cn_id ` set (h_conns h @ h_registering h) \<Longrightarrow>
    hub_step h (h\<lparr>h_open := insert (cn_fd c) (h_open h), h_registering := h_registering h @ [c]\<rparr>)"
| call_unregister: "d \<in> set (h_conns h) \<Longrightarrow> cn_id c = cn_id d \<Longrightarrow> cn_fd c = cn_fd d \<Longrightarrow>
    cn_id c \<notin> cn_id ` set (h_unregistering h) \<Longrightarrow>
    hub_step h (h\<lparr>h_unregistering := h_unregistering h @ [c]\<rparr>)"
| subscribe: "i \<in> h_subscribing h \<Longrightarrow> hub_step h (subscribe_starts ok i h)"
| call_broadcast: "length (h_broadcast h) < broadcast_cap \<Longrightarrow> hub_step h (h\<lparr>h_broadcast := h_broadcast h @ [p]\<rparr>)"
| call_group: "length (h_groups h) < groups_cap \<Longrightarrow> hub_step h (h\<lparr>h_groups := h_groups h @ [(ts, p)]\<rparr>)"
| looked_up: "h_lookups h = (c, ph) # ls \<Longrightarrow> hub_step h (send_to c answer (h\<lparr>h_lookups := ls\<rparr>))"
| subscription: "cn_id c \<in> h_subscribed h \<Longrightarrow> hub_step h (send_to c payload h)"

inductive_cases hub_stepE: "hub_step h h'"

section \<open>Delivery\<close>

lemma fold_send_to: "fold (\<lambda>c. send_to c p) cs h = h\<lparr>h_sent := h_sent h @ map (\<lambda>c. (cn_id c, p)) cs\<rparr>"
  by (induction cs arbitrary: h) (simp_all add: send_to_def)

lemma hub_deliver_sent:
  "hub_deliver p ts h = h\<lparr>h_sent := h_sent h @ map (\<lambda>c. (cn_id c, p)) (deliver_to ts (h_conns h))\<rparr>"
  by (simp add: hub_deliver_def fold_send_to)

lemma count_filter_list: "count_list (filter P xs) x = (if P x then count_list xs x else 0)"
  by (induction xs) auto

lemma count_deliver_to:
  "ts \<noteq> [] \<Longrightarrow> count_list (deliver_to ts cs) c = count_list ts (cn_phone c) * count_list cs c"
proof (induction ts)
  case Nil
  then show ?case by simp
next
  case (Cons t ts)
  then show ?case
    by (cases "ts = []") (auto simp: deliver_to_def count_filter_list)
qed

text \<open>
  A group message goes to each connection of each target, once per mention of its phone, and
  to nobody else; with an empty list of targets it goes to everybody.
\<close>

theorem group_delivery:
  "hub_deliver p ts h = h\<lparr>h_sent := h_sent h @ map (\<lambda>c. (cn_id c, p)) (deliver_to ts (h_conns h))\<rparr> \<and>
   count_list (deliver_to ts (h_conns h)) c =
     (if ts = [] then 1 else count_list ts (cn_phone c)) * count_list (h_conns h) c"
  by (cases "ts = []") (simp_all add: hub_deliver_sent count_deliver_to, simp add: deliver_to_def)

text \<open>
  C40. While the hub loops and has nothing else to broadcast, whatever text a client sends within its
  rate, other than a lookup, goes out to every connection of the gateway, whoever it belongs to.
\<close>

theorem client_text_reaches_everyone:
  assumes "h_run h = Looping" and "h_broadcast h = []" and "data \<noteq> []" and "\<not> has_prefix (trim_space data) ''lookup:''"
    and "n \<le> 60"
  shows "\<exists>h'. hub_step (handleRead now (Frame Op_text (Some data)) (Some n) c h) h' \<and>
    h_sent h' = h_sent h @ map (\<lambda>d. (cn_id d, data)) (h_conns h)"
proof -
  let ?h = "handleRead now (Frame Op_text (Some data)) (Some n) c h"
  have read: "h_run ?h = Looping" "h_broadcast ?h = [data]" "h_sent ?h = h_sent h" "h_conns ?h = h_conns h"
    using assms by (simp_all add: handleRead_def readMessage_def Let_def allowWSMessage_def broadcast_from_run_def broadcast_cap_def)
  from broadcasted[OF read(1,2)] show ?thesis
    using read(3,4) by (auto simp: hub_deliver_sent deliver_to_def)
qed

definition phone_a :: connection where
  "phone_a = \<lparr>cn_id = 1, cn_fd = 7, cn_phone = ''1'', cn_last_pong = 0\<rparr>"

definition phone_b :: connection where
  "phone_b = \<lparr>cn_id = 2, cn_fd = 8, cn_phone = ''2'', cn_last_pong = 0\<rparr>"

definition two_phones :: hub where
  "two_phones = subscribe_starts True 2 (subscribe_starts True 1
     (hub_add True phone_b (hub_add True phone_a (NewHub\<lparr>h_open := {7, 8}\<rparr>))))"

theorem client_text_reaches_everyone_witness:
  "\<exists>h'. hub_step (handleRead 0 (Frame Op_text (Some ''hi'')) (Some 1) phone_a two_phones) h' \<and>
     h_sent h' = [(1, ''hi''), (2, ''hi'')]"
  using client_text_reaches_everyone[of two_phones "''hi''" 1 0 phone_a]
  by (simp add: two_phones_def subscribe_starts_def hub_add_def NewHub_def phone_a_def phone_b_def trim_space_printable printable_def has_prefix_def)

text \<open>
  One device going offline takes its user offline: after a connection is removed the presence
  key of its phone is gone although another connection of the same phone is still registered.
\<close>

theorem second_device_goes_dark:
  assumes "d \<in> set (h_conns h)" and "cn_phone d = cn_phone c" and "cn_fd d \<noteq> cn_fd c"
  shows "d \<in> set (h_conns (hub_remove True True c h)) \<and> cn_phone d \<notin> h_online (hub_remove True True c h) \<and>
    last (h_offline_events (hub_remove True True c h)) = cn_phone d"
  using assms by (simp add: hub_remove_def)

theorem second_device_goes_dark_witness:
  "''1'' \<notin> h_online (hub_remove True True phone_a (hub_add True (phone_a\<lparr>cn_id := 3, cn_fd := 9\<rparr>) two_phones))"
  using second_device_goes_dark[of "phone_a\<lparr>cn_id := 3, cn_fd := 9\<rparr>" "hub_add True (phone_a\<lparr>cn_id := 3, cn_fd := 9\<rparr>) two_phones" phone_a]
  by (simp add: phone_a_def hub_add_def)

section \<open>Invariant\<close>

abbreviation tag :: "connection \<Rightarrow> nat \<times> int" where
  "tag c \<equiv> (cn_id c, cn_fd c)"

text \<open>
  What the tables owe each other. The sockets that are open are those of the listed connections and of
  the ones that wait to be listed, each on a descriptor of its own; the gauge counts the listed ones; only
  a listed connection has a subscription or waits to be removed.
\<close>

definition hub_inv :: "hub \<Rightarrow> bool" where
  "hub_inv h \<longleftrightarrow>
     length (h_broadcast h) \<le> broadcast_cap \<and> length (h_groups h) \<le> groups_cap \<and>
     distinct (map cn_fd (h_conns h @ h_registering h)) \<and> distinct (map cn_id (h_conns h @ h_registering h)) \<and>
     h_open h = cn_fd ` set (h_conns h @ h_registering h) \<and> h_active h = int (length (h_conns h)) \<and>
     h_subscribing h \<union> h_subscribed h \<subseteq> cn_id ` set (h_conns h) \<and>
     tag ` set (h_unregistering h) \<subseteq> tag ` set (h_conns h) \<and> distinct (map cn_id (h_unregistering h))"

lemma check_heartbeats_keeps:
  "\<exists>r. check_heartbeats now cs h = h\<lparr>h_run := r\<rparr>"
proof (induction now cs h rule: check_heartbeats.induct)
  case (1 now h)
  then show ?case by (auto intro: exI[of _ "h_run h"])
qed auto

lemma hub_inv_run [simp]: "hub_inv (h\<lparr>h_run := r\<rparr>) = hub_inv h"
  by (simp add: hub_inv_def)

lemma map_pong [simp]:
  "map cn_fd (map (\<lambda>d. if P d then d\<lparr>cn_last_pong := t\<rparr> else d) cs) = map cn_fd cs"
  "map cn_id (map (\<lambda>d. if P d then d\<lparr>cn_last_pong := t\<rparr> else d) cs) = map cn_id cs"
  "map tag (map (\<lambda>d. if P d then d\<lparr>cn_last_pong := t\<rparr> else d) cs) = map tag cs"
  by (induction cs) auto

lemma hub_inv_maps:
  "hub_inv h \<longleftrightarrow>
     length (h_broadcast h) \<le> broadcast_cap \<and> length (h_groups h) \<le> groups_cap \<and>
     distinct (map cn_fd (h_conns h) @ map cn_fd (h_registering h)) \<and>
     distinct (map cn_id (h_conns h) @ map cn_id (h_registering h)) \<and>
     h_open h = set (map cn_fd (h_conns h)) \<union> set (map cn_fd (h_registering h)) \<and>
     h_active h = int (length (map cn_fd (h_conns h))) \<and>
     h_subscribing h \<union> h_subscribed h \<subseteq> set (map cn_id (h_conns h)) \<and>
     set (map tag (h_unregistering h)) \<subseteq> set (map tag (h_conns h)) \<and> distinct (map cn_id (h_unregistering h))"
  unfolding hub_inv_def by (simp add: image_Un)

lemma hub_inv_pong:
  "hub_inv h \<Longrightarrow> hub_inv (h\<lparr>h_conns := map (\<lambda>d. if P d then d\<lparr>cn_last_pong := t\<rparr> else d) (h_conns h)\<rparr>)"
  unfolding hub_inv_maps by (simp del: map_map set_map list.set_map length_map)

lemma allow_inv: "hub_inv (snd (allowWSMessage now counter phone h)) = hub_inv h"
  by (auto simp: allowWSMessage_def Let_def hub_inv_def split: option.split)

lemma broadcast_inv: "hub_inv h \<Longrightarrow> hub_inv (broadcast_from_run p h)"
  by (simp add: hub_inv_def broadcast_from_run_def)

lemma readMessage_inv: "hub_inv h \<Longrightarrow> hub_inv (snd (readMessage now inc c h))"
proof -
  assume inv: "hub_inv h"
  then have "hub_inv (send_to c [] h)"
    by (simp add: hub_inv_def send_to_def)
  with inv hub_inv_pong[OF inv] show ?thesis
    by (auto simp: readMessage_def simp del: map_map split: incoming.split opcode.split)
qed

lemma handleRead_inv:
  assumes "hub_inv h"
  shows "hub_inv (handleRead now inc counter c h)"
proof -
  obtain d h1 where r: "readMessage now inc c h = (d, h1)" by force
  with readMessage_inv[OF assms, of now inc c] have "hub_inv h1" by simp
  moreover from this have "hub_inv (h1\<lparr>h_lookups := ls\<rparr>)" for ls
    by (simp add: hub_inv_def)
  moreover obtain ok h2 where a: "allowWSMessage now counter (cn_phone c) h1 = (ok, h2)" by force
  moreover from this calculation(1) have "hub_inv h2"
    using allow_inv[of now counter "cn_phone c" h1] by simp
  ultimately show ?thesis
    by (auto simp: handleRead_def r a Let_def broadcast_inv split: option.split bool.split)
qed

text \<open>No waiting connection shares its descriptor with a listed one, so \<^verbatim>\<open>add\<close> replaces nobody.\<close>

lemma hub_add_inv:
  assumes "hub_inv h" and "h_registering h = c # cs"
  shows "hub_inv (hub_add set_ok c (h\<lparr>h_registering := cs\<rparr>))"
proof -
  have "cn_fd c \<notin> cn_fd ` set (h_conns h)"
    using assms by (simp add: hub_inv_def)
  then have "filter (\<lambda>d. cn_fd d \<noteq> cn_fd c) (h_conns h) = h_conns h"
    by (metis (mono_tags, lifting) filter_True image_eqI)
  with assms show ?thesis
    by (auto simp: hub_inv_def hub_add_def)
qed

lemma filter_out_one:
  assumes "distinct (map f xs)" and "x \<in> set xs"
  shows "set (filter (\<lambda>y. f y \<noteq> f x) xs) = set xs - {x}" "Suc (length (filter (\<lambda>y. f y \<noteq> f x) xs)) = length xs"
proof -
  from assms show s: "set (filter (\<lambda>y. f y \<noteq> f x) xs) = set xs - {x}"
    by (auto simp: distinct_map inj_on_def)
  have "distinct xs" using assms(1) by (simp add: distinct_map)
  moreover from this have "length (filter (\<lambda>y. f y \<noteq> f x) xs) = card (set xs - {x})"
    using s by (metis distinct_card distinct_filter)
  ultimately show "Suc (length (filter (\<lambda>y. f y \<noteq> f x) xs)) = length xs"
    using assms(2) by (metis card.remove distinct_card finite_set)
qed

lemma image_without: "distinct (map f xs) \<Longrightarrow> x \<in> set xs \<Longrightarrow> f ` (set xs - {x}) = f ` set xs - {f x}"
  by (auto simp: distinct_map inj_on_def)

lemma hub_remove_inv:
  assumes inv: "hub_inv h" and c: "h_unregistering h = c # cs"
  shows "hub_inv (hub_remove del_ok pub_ok c (h\<lparr>h_unregistering := cs\<rparr>))"
proof -
  obtain d where d: "d \<in> set (h_conns h)" "cn_fd d = cn_fd c" "cn_id d = cn_id c"
    using inv c by (auto simp: hub_inv_def)
  let ?cs = "filter (\<lambda>e. cn_fd e \<noteq> cn_fd c) (h_conns h)"
  have fds: "distinct (map cn_fd (h_conns h))" and ids: "distinct (map cn_id (h_conns h))"
    using inv by (auto simp: hub_inv_def)
  from ids have tags: "distinct (map tag (h_conns h))" by (auto simp: distinct_map inj_on_def)
  have left: "set ?cs = set (h_conns h) - {d}" "Suc (length ?cs) = length (h_conns h)"
    using filter_out_one[OF fds d(1)] d(2) by simp_all
  have images: "cn_fd ` set ?cs = cn_fd ` set (h_conns h) - {cn_fd c}" "cn_id ` set ?cs = cn_id ` set (h_conns h) - {cn_id c}"
    "tag ` set ?cs = tag ` set (h_conns h) - {tag c}"
    using image_without[OF fds d(1)] image_without[OF ids d(1)] image_without[OF tags d(1)] d(2,3)
    unfolding left(1) by simp_all
  have waiting: "tag ` set cs \<subseteq> tag ` set ?cs"
    using inv c unfolding images by (auto simp: hub_inv_def image_iff)
  have apart: "cn_fd c \<notin> cn_fd ` set (h_registering h)"
    using inv d by (auto simp: hub_inv_def)
  have "distinct (map cn_fd (?cs @ h_registering h))" "distinct (map cn_id (?cs @ h_registering h))"
    using inv by (auto simp: hub_inv_def distinct_map_filter_rows)
  moreover have "h_open h - {cn_fd c} = cn_fd ` set (?cs @ h_registering h)"
    using inv apart unfolding set_append image_Un images by (auto simp: hub_inv_def)
  moreover have "h_subscribing h - {cn_id c} \<union> (h_subscribed h - {cn_id c}) \<subseteq> cn_id ` set ?cs"
    using inv unfolding images by (auto simp: hub_inv_def)
  moreover have "h_active h - 1 = int (length ?cs)"
    using inv left(2) by (simp add: hub_inv_def)
  ultimately show ?thesis
    using inv c waiting by (simp add: hub_inv_def hub_remove_def)
qed

lemma hub_inv_step: "hub_step h h' \<Longrightarrow> hub_inv h \<Longrightarrow> hub_inv h'"
proof (induction rule: hub_step.induct)
  case (ticked h cs now)
  then show ?case using check_heartbeats_keeps[of now cs h] by auto
next
  case (call_unregister d h c)
  then show ?case by (auto simp: hub_inv_def)
qed (simp_all add: handleRead_inv hub_add_inv hub_remove_inv, auto simp: hub_inv_def hub_deliver_sent send_to_def subscribe_starts_def)

interpretation gateway: safe_system "\<lambda>h. h = NewHub" hub_step hub_inv
  by unfold_locales (auto simp: hub_inv_step, simp add: hub_inv_def NewHub_def)

text \<open>
  C18. Through any run of the hub the sockets that are open are exactly those it lists and those that wait
  to be listed, each on a descriptor of its own; the gauge is the number of connections listed; and no
  subscription outlives its connection: one that was removed is not listed, closed, and uncounted.
\<close>

theorem hub_tables_consistent:
  assumes "hub_step\<^sup>*\<^sup>* NewHub h"
  shows "h_open h = cn_fd ` set (h_conns h @ h_registering h) \<and>
    distinct (map cn_fd (h_conns h @ h_registering h)) \<and> h_active h = int (length (h_conns h)) \<and>
    h_subscribing h \<union> h_subscribed h \<subseteq> cn_id ` set (h_conns h)"
  using gateway.steps_inv[OF assms gateway.init_inv] by (simp add: hub_inv_def)

text \<open>A run in which two connections come, one subscribes, and the other is removed.\<close>

definition one_left :: hub where
  "one_left = hub_remove True True phone_a (subscribe_starts True 2 (hub_add True phone_b (hub_add True phone_a
     (NewHub\<lparr>h_open := {7, 8}\<rparr>))))"

lemma one_left_reached: "hub_step\<^sup>*\<^sup>* NewHub one_left"
proof -
  let ?h1 = "NewHub\<lparr>h_open := {7}, h_registering := [phone_a]\<rparr>"
  let ?h2 = "NewHub\<lparr>h_open := {8, 7}, h_registering := [phone_a, phone_b]\<rparr>"
  let ?h3 = "hub_add True phone_a (NewHub\<lparr>h_open := {8, 7}, h_registering := [phone_b]\<rparr>)"
  let ?h4 = "hub_add True phone_b (hub_add True phone_a (NewHub\<lparr>h_open := {8, 7}\<rparr>))"
  let ?h5 = "subscribe_starts True 2 ?h4"
  let ?h6 = "?h5\<lparr>h_unregistering := [phone_a]\<rparr>"
  note ds = NewHub_def phone_a_def phone_b_def hub_add_def subscribe_starts_def hub_remove_def
  have "hub_step\<^sup>*\<^sup>* NewHub NewHub" by simp
  also have "hub_step NewHub ?h1" using call_register[of phone_a NewHub] by (simp add: ds)
  also have "hub_step ?h1 ?h2" using call_register[of phone_b ?h1] by (simp add: ds)
  also have "hub_step ?h2 ?h3" using registered[of ?h2 phone_a "[phone_b]" True] by (simp add: ds)
  also have "hub_step ?h3 ?h4" using registered[of ?h3 phone_b "[]" True] by (simp add: ds)
  also have "hub_step ?h4 ?h5" using subscribe[of 2 ?h4 True] by (simp add: ds)
  also have "hub_step ?h5 ?h6" using call_unregister[of phone_a ?h5 phone_a] by (simp add: ds)
  also have "hub_step ?h6 one_left"
    using unregistered[of ?h6 phone_a "[]" True True] by (simp add: ds one_left_def insert_commute)
  finally show ?thesis .
qed

theorem hub_tables_consistent_witness:
  "h_open one_left = {8} \<and> h_active one_left = 1 \<and> h_subscribed one_left \<subseteq> {2} \<and> map cn_phone (h_conns one_left) = [''2'']"
proof -
  have "h_conns one_left = [phone_b]" "h_registering one_left = []"
    by (simp_all add: one_left_def hub_remove_def subscribe_starts_def hub_add_def NewHub_def phone_a_def phone_b_def)
  with hub_tables_consistent[OF one_left_reached] show ?thesis
    by (auto simp: phone_b_def)
qed

section \<open>The hub freezes\<close>

text \<open>What no step changes once \<^verbatim>\<open>Run\<close> waits for itself.\<close>

definition frozen :: "hub \<Rightarrow> hub \<Rightarrow> bool" where
  "frozen h h' \<longleftrightarrow> h_run h' = h_run h \<and> h_conns h' = h_conns h \<and> prefix (h_registering h) (h_registering h')
     \<and> h_online h' = h_online h \<and> h_offline_events h' = h_offline_events h"

lemma failed_read:
  "fst (readMessage now inc c h) = None \<Longrightarrow> h1 = handleRead now inc counter c h \<Longrightarrow> h1 = h\<lparr>h_run := Blocked_unregister c\<rparr>"
  by (auto simp: handleRead_def readMessage_def split: incoming.splits opcode.splits)

lemma frozen_step:
  assumes "hub_step h h'" and "h_run h \<noteq> Looping"
  shows "frozen h h'"
  using assms by (cases rule: hub_step.cases) (auto simp: frozen_def send_to_def subscribe_starts_def)

lemma frozen_steps: "hub_step\<^sup>*\<^sup>* h h' \<Longrightarrow> h_run h \<noteq> Looping \<Longrightarrow> frozen h h'"
proof (induction rule: rtranclp_induct)
  case base
  then show ?case by (simp add: frozen_def)
next
  case (step h1 h2)
  then have "frozen h h1" "h_run h1 \<noteq> Looping"
    by (auto simp: frozen_def)
  with frozen_step[OF step(2)] show ?case
    unfolding frozen_def using prefix_order.trans by metis
qed

text \<open>
  C19. The first connection whose socket fails freezes the hub for good: when reading from it gives an
  error, \<^verbatim>\<open>handleRead\<close> is a step of the hub after which \<^verbatim>\<open>Run\<close> waits to send on its own \<^verbatim>\<open>unregister\<close>
  channel, and whatever happens afterwards it stays there, so the dead connection stays listed and online,
  and nobody who waits to register is ever admitted.
\<close>

theorem disconnect_freezes:
  assumes "h_run h = Looping" and "c \<in> set (h_conns h)" and "fst (readMessage now inc c h) = None"
    and "h1 = handleRead now inc counter c h"
  shows "hub_step h h1 \<and> h_run h1 = Blocked_unregister c \<and>
    (\<forall>h2. hub_step\<^sup>*\<^sup>* h1 h2 \<longrightarrow> h_run h2 = Blocked_unregister c \<and> h_conns h2 = h_conns h \<and>
       set (h_registering h) \<subseteq> set (h_registering h2) \<and> h_online h2 = h_online h)"
proof -
  have h1: "h1 = h\<lparr>h_run := Blocked_unregister c\<rparr>"
    using assms(3,4) by (rule failed_read)
  have "hub_step h h1"
    unfolding assms(4) by (rule readable[OF assms(1,2)])
  moreover have "h_run h2 = Blocked_unregister c \<and> h_conns h2 = h_conns h \<and>
      set (h_registering h) \<subseteq> set (h_registering h2) \<and> h_online h2 = h_online h" if "hub_step\<^sup>*\<^sup>* h1 h2" for h2
    using frozen_steps[OF that] by (auto simp: h1 frozen_def set_mono_prefix)
  ultimately show ?thesis
    using h1 by simp
qed

theorem disconnect_freezes_witness:
  "h_run (handleRead 5 (Frame Op_close None) None phone_a two_phones) = Blocked_unregister phone_a \<and>
   hub_step two_phones (handleRead 5 (Frame Op_close None) None phone_a two_phones)"
  using disconnect_freezes[of two_phones phone_a 5 "Frame Op_close None" _ None]
  by (auto simp: two_phones_def subscribe_starts_def hub_add_def NewHub_def phone_a_def phone_b_def readMessage_def)

end
