(* ===== verification/WsHub.thy ===== *)
theory WsHub
  imports Http
begin

text \<open>
  pkg/ws: the hub of hub.go with the connections of conn.go, and the frames of frame.go. \<^verbatim>\<open>Run\<close> is
  one goroutine (\<open>run_step\<close>); \<open>env_step\<close> is what the goroutines of the connections and the callers
  do. A connection belongs to one user for good, so the map from users to sets of connections is
  the list of the registered connections, looked up by owner; its order stands for the order of
  a map iteration. A send on a closed channel, and closing it twice, is a panic (\<open>w_panic\<close>).
\<close>

section \<open>Frames\<close>

record frame =
  f_type :: string
  f_trace_id :: string
  f_user_id :: string
  f_payload :: "(string \<times> json) list"

text \<open>
  The protobuf struct of a frame, as the JSON value it stands for. Its keys are a map: the list
  holds them in order, without repetition. \<open>marshal\<close> and \<open>unmarshal\<close> are the protobuf library.
\<close>

definition envelope :: "frame \<Rightarrow> json" where
  "envelope f = JObj [(''payload'', JObj (f_payload f)), (''trace_id'', JStr (f_trace_id f)),
     (''type'', JStr (f_type f)), (''user_id'', JStr (f_user_id f))]"

definition MarshalFrame :: "(json \<Rightarrow> 'b option) \<Rightarrow> frame \<Rightarrow> 'b option" where
  "MarshalFrame marshal f = marshal (envelope f)"

definition str_member :: "(string \<rightharpoonup> json) \<Rightarrow> string \<Rightarrow> string" where
  "str_member raw k = (case raw k of Some (JStr s) \<Rightarrow> s | _ \<Rightarrow> [])"

definition UnmarshalFrame :: "('b \<Rightarrow> json option) \<Rightarrow> 'b \<Rightarrow> frame option" where
  "UnmarshalFrame unmarshal data =
     (case unmarshal data of
        Some (JObj ms) \<Rightarrow>
          Some \<lparr>f_type = str_member (map_of ms) ''type'', f_trace_id = str_member (map_of ms) ''trace_id'',
                f_user_id = str_member (map_of ms) ''user_id'',
                f_payload = (case map_of ms ''payload'' of Some (JObj p) \<Rightarrow> p | _ \<Rightarrow> [])\<rparr>
      | _ \<Rightarrow> None)"

text \<open>
  A frame survives the wire: with a protobuf library that reads back what it wrote, decoding
  an encoded frame gives the frame.
\<close>

theorem frame_roundtrip:
  assumes "\<And>j b. marshal j = Some b \<Longrightarrow> unmarshal b = Some j" and "MarshalFrame marshal f = Some b"
  shows "UnmarshalFrame unmarshal b = Some f"
  using assms by (simp add: MarshalFrame_def UnmarshalFrame_def envelope_def str_member_def)

theorem frame_roundtrip_witness:
  "UnmarshalFrame Some (the (MarshalFrame Some \<lparr>f_type = ''t'', f_trace_id = [], f_user_id = ''u'', f_payload = [(''k'', JNum 1)]\<rparr>))
     = Some \<lparr>f_type = ''t'', f_trace_id = [], f_user_id = ''u'', f_payload = [(''k'', JNum 1)]\<rparr>"
  using frame_roundtrip[of Some Some "\<lparr>f_type = ''t'', f_trace_id = [], f_user_id = ''u'', f_payload = [(''k'', JNum 1)]\<rparr>"]
  by (simp add: MarshalFrame_def)

section \<open>State and operations\<close>

record whub =
  w_running :: bool
  w_owner :: "nat \<Rightarrow> string"
  w_known :: "nat list"
  w_clients :: "nat list"
  w_closed :: "nat set"
  w_buf :: "nat \<Rightarrow> string list"
  w_registering :: "nat list"
  w_unregistering :: "nat list"
  w_broadcast :: "(string list \<times> string) list"
  w_offline :: "string list"
  w_panic :: bool

definition ws_NewHub :: whub where
  "ws_NewHub = \<lparr>w_running = True, w_owner = (\<lambda>_. []), w_known = [], w_clients = [], w_closed = {}, w_buf = (\<lambda>_. []),
     w_registering = [], w_unregistering = [], w_broadcast = [], w_offline = [], w_panic = False\<rparr>"

definition send_cap :: nat where "send_cap = 64"

definition ws_broadcast_cap :: nat where "ws_broadcast_cap = 256"

text \<open>\<^verbatim>\<open>select\<close> with a default: a full buffer drops the message, a closed channel panics.\<close>

definition offer :: "string \<Rightarrow> nat \<Rightarrow> whub \<Rightarrow> whub" where
  "offer data c h =
     (if c \<in> w_closed h then h\<lparr>w_panic := True\<rparr>
      else if length (w_buf h c) < send_cap then h\<lparr>w_buf := (w_buf h)(c := w_buf h c @ [data])\<rparr>
      else h)"

definition close_chan :: "nat \<Rightarrow> whub \<Rightarrow> whub" where
  "close_chan c h = (if c \<in> w_closed h then h\<lparr>w_panic := True\<rparr> else h\<lparr>w_closed := insert c (w_closed h)\<rparr>)"

definition clients_of :: "whub \<Rightarrow> string \<Rightarrow> nat list" where
  "clients_of h u = filter (\<lambda>c. w_owner h c = u) (w_clients h)"

definition ws_register :: "nat \<Rightarrow> whub \<Rightarrow> whub" where
  "ws_register c h = (if c \<in> set (w_clients h) then h else h\<lparr>w_clients := w_clients h @ [c]\<rparr>)"

definition ws_unregister :: "nat \<Rightarrow> whub \<Rightarrow> whub" where
  "ws_unregister c h =
     (if clients_of h (w_owner h c) = [] then h
      else let h1 = (if c \<in> set (w_clients h) then close_chan c (h\<lparr>w_clients := remove1 c (w_clients h)\<rparr>) else h)
        in if clients_of h1 (w_owner h c) = [] then h1\<lparr>w_offline := w_offline h1 @ [w_owner h c]\<rparr> else h1)"

definition ws_deliver :: "string list \<Rightarrow> string \<Rightarrow> whub \<Rightarrow> whub" where
  "ws_deliver targets data h =
     (if targets = [] then fold (offer data) (w_clients h) h
      else fold (\<lambda>u h. fold (offer data) (clients_of h u) h) targets h)"

definition closeAll :: "whub \<Rightarrow> whub" where
  "closeAll h = fold close_chan (w_clients h) h"

definition ActiveConnections :: "whub \<Rightarrow> nat" where
  "ActiveConnections h = length (w_clients h)"

section \<open>Steps\<close>

inductive run_step :: "whub \<Rightarrow> whub \<Rightarrow> bool" where
  take_register: "w_running h \<Longrightarrow> w_registering h = c # cs \<Longrightarrow> run_step h (ws_register c (h\<lparr>w_registering := cs\<rparr>))"
| take_unregister: "w_running h \<Longrightarrow> w_unregistering h = c # cs \<Longrightarrow> run_step h (ws_unregister c (h\<lparr>w_unregistering := cs\<rparr>))"
| take_broadcast: "w_running h \<Longrightarrow> w_broadcast h = (ts, p) # os \<Longrightarrow> run_step h (ws_deliver ts p (h\<lparr>w_broadcast := os\<rparr>))"
| ctx_done: "w_running h \<Longrightarrow> run_step h ((closeAll h)\<lparr>w_running := False\<rparr>)"

text \<open>
  Around it: a connection is made and registers (once, \<^verbatim>\<open>Serve\<close>), its pumps clean up after it was
  registered, the write pump takes a message, anybody broadcasts, and \<^verbatim>\<open>Conn.Send\<close> is called on a
  connection somebody still holds.
\<close>

inductive env_step :: "whub \<Rightarrow> whub \<Rightarrow> bool" where
  serve: "c \<notin> set (w_known h) \<Longrightarrow>
    env_step h (h\<lparr>w_known := w_known h @ [c], w_owner := (w_owner h)(c := u), w_registering := w_registering h @ [c]\<rparr>)"
| cleanup: "c \<in> set (w_known h) \<Longrightarrow> c \<notin> set (w_registering h) \<Longrightarrow>
    env_step h (h\<lparr>w_unregistering := w_unregistering h @ [c]\<rparr>)"
| write_pump: "w_buf h c = m # ms \<Longrightarrow> env_step h (h\<lparr>w_buf := (w_buf h)(c := ms)\<rparr>)"
| broadcast: "length (w_broadcast h) < ws_broadcast_cap \<Longrightarrow> env_step h (h\<lparr>w_broadcast := w_broadcast h @ [(ts, p)]\<rparr>)"
| conn_send: "c \<in> set (w_known h) \<Longrightarrow> env_step h (offer data c h)"

definition ws_step :: "whub \<Rightarrow> whub \<Rightarrow> bool" where
  "ws_step h h' \<longleftrightarrow> run_step h h' \<or> env_step h h'"

section \<open>Invariant\<close>

definition ws_inv :: "whub \<Rightarrow> bool" where
  "ws_inv h \<longleftrightarrow>
     distinct (w_clients h @ w_registering h) \<and> set (w_clients h @ w_registering h) \<subseteq> set (w_known h) \<and>
     (w_running h \<longrightarrow> set (w_clients h @ w_registering h) \<inter> w_closed h = {}) \<and>
     w_closed h \<subseteq> set (w_known h) \<and> set (w_registering h) \<inter> w_closed h = {} \<and>
     (\<forall>c. length (w_buf h c) \<le> send_cap)"

lemma offer_fields [simp]:
  "w_running (offer d c h) = w_running h" "w_owner (offer d c h) = w_owner h" "w_known (offer d c h) = w_known h"
  "w_clients (offer d c h) = w_clients h" "w_closed (offer d c h) = w_closed h"
  "w_registering (offer d c h) = w_registering h" "clients_of (offer d c h) u = clients_of h u"
  by (simp_all add: offer_def clients_of_def)

lemma fold_offer_fields [simp]:
  "w_running (fold (offer d) cs h) = w_running h" "w_owner (fold (offer d) cs h) = w_owner h"
  "w_known (fold (offer d) cs h) = w_known h" "w_clients (fold (offer d) cs h) = w_clients h"
  "w_closed (fold (offer d) cs h) = w_closed h" "w_registering (fold (offer d) cs h) = w_registering h"
  by (induction cs arbitrary: h) simp_all

lemma fold_offers_fields [simp]:
  "w_running (fold (\<lambda>u h. fold (offer d) (clients_of h u) h) us h) = w_running h"
  "w_known (fold (\<lambda>u h. fold (offer d) (clients_of h u) h) us h) = w_known h"
  "w_clients (fold (\<lambda>u h. fold (offer d) (clients_of h u) h) us h) = w_clients h"
  "w_closed (fold (\<lambda>u h. fold (offer d) (clients_of h u) h) us h) = w_closed h"
  "w_registering (fold (\<lambda>u h. fold (offer d) (clients_of h u) h) us h) = w_registering h"
  by (induction us arbitrary: h) simp_all

lemma ws_deliver_fields [simp]:
  "w_running (ws_deliver ts d h) = w_running h" "w_known (ws_deliver ts d h) = w_known h"
  "w_clients (ws_deliver ts d h) = w_clients h" "w_closed (ws_deliver ts d h) = w_closed h"
  "w_registering (ws_deliver ts d h) = w_registering h"
  by (simp_all add: ws_deliver_def)

text \<open>What \<open>offer\<close> keeps, any sequence of offers keeps.\<close>

lemma fold_offer_keeps: "(\<And>c h. P h \<Longrightarrow> P (offer d c h)) \<Longrightarrow> P h \<Longrightarrow> P (fold (offer d) cs h)"
  by (induction cs arbitrary: h) auto

lemma ws_deliver_keeps:
  assumes "\<And>c h. P h \<Longrightarrow> P (offer d c h)" and "P h"
  shows "P (ws_deliver ts d h)"
proof -
  have "P (fold (\<lambda>u h. fold (offer d) (clients_of h u) h) us h)" for us
    using assms(2) by (induction us arbitrary: h) (auto intro: fold_offer_keeps assms(1))
  then show ?thesis
    using fold_offer_keeps[of P d, OF assms(1)] assms(2) by (simp add: ws_deliver_def)
qed

lemma offer_buf: "\<forall>c. length (w_buf h c) \<le> send_cap \<Longrightarrow> \<forall>c. length (w_buf (offer d c' h) c) \<le> send_cap"
  by (auto simp: offer_def send_cap_def)

lemma ws_deliver_buf: "\<forall>c. length (w_buf h c) \<le> send_cap \<Longrightarrow> \<forall>c. length (w_buf (ws_deliver ts d h) c) \<le> send_cap"
  by (rule ws_deliver_keeps[where P = "\<lambda>h. \<forall>c. length (w_buf h c) \<le> send_cap"]) (auto simp: offer_buf)

lemma fold_close_fields:
  "w_clients (fold close_chan cs h) = w_clients h" "w_known (fold close_chan cs h) = w_known h"
  "w_registering (fold close_chan cs h) = w_registering h" "w_buf (fold close_chan cs h) = w_buf h"
  "w_closed (fold close_chan cs h) = w_closed h \<union> set cs"
  by (induction cs arbitrary: h) (auto simp: close_chan_def)

lemma run_step_inv: "run_step h h' \<Longrightarrow> ws_inv h \<Longrightarrow> ws_inv h'"
proof (induction rule: run_step.induct)
  case (take_register h c cs)
  then show ?case by (auto simp: ws_inv_def ws_register_def)
next
  case (take_unregister h c cs)
  then show ?case
    by (auto simp: ws_inv_def ws_unregister_def close_chan_def Let_def dest: in_set_remove1[THEN iffD1, rotated] notin_set_remove1)
next
  case (take_broadcast h ts p os)
  then show ?case
    using ws_deliver_buf[of "h\<lparr>w_broadcast := os\<rparr>"] by (simp add: ws_inv_def)
next
  case (ctx_done h)
  then show ?case by (auto simp: ws_inv_def closeAll_def fold_close_fields)
qed

lemma env_step_inv: "env_step h h' \<Longrightarrow> ws_inv h \<Longrightarrow> ws_inv h'"
proof (induction rule: env_step.induct)
  case (write_pump h c m ms)
  then have "length ms \<le> send_cap"
    unfolding ws_inv_def by (metis Suc_leD length_Cons)
  with write_pump show ?case by (simp add: ws_inv_def)
next
  case (conn_send c h data)
  then show ?case
    using offer_buf[of h data c] by (simp add: ws_inv_def)
qed (auto simp: ws_inv_def)

interpretation wsys: safe_system "\<lambda>h. h = ws_NewHub" ws_step ws_inv
proof
  show "ws_inv h" if "h = ws_NewHub" for h
    using that by (simp add: ws_inv_def ws_NewHub_def)
  show "ws_inv h'" if "ws_inv h" "ws_step h h'" for h h'
    using that run_step_inv env_step_inv unfolding ws_step_def by blast
qed

text \<open>
  The hub's tables are sound in every reachable state: a connection is registered at most
  once, while the hub runs every registered connection can still be written to, and no buffer
  holds more than 64 messages.
\<close>

theorem ws_tables_sound:
  assumes "ws_step\<^sup>*\<^sup>* ws_NewHub h"
  shows "distinct (w_clients h) \<and> (w_running h \<longrightarrow> set (w_clients h) \<inter> w_closed h = {}) \<and>
    (\<forall>c. length (w_buf h c) \<le> 64)"
  using wsys.steps_inv[OF assms wsys.init_inv[OF refl]] by (auto simp: ws_inv_def send_cap_def)

theorem ws_tables_sound_witness: "distinct (w_clients ws_NewHub)"
  using ws_tables_sound[of ws_NewHub] by simp

section \<open>Panics\<close>

lemma offer_quiet: "c \<notin> w_closed h \<Longrightarrow> w_panic (offer d c h) = w_panic h"
  by (simp add: offer_def)

lemma fold_offer_quiet: "set cs \<inter> w_closed h = {} \<Longrightarrow> w_panic (fold (offer d) cs h) = w_panic h"
  by (induction cs arbitrary: h) (auto simp: offer_quiet)

lemma ws_deliver_quiet:
  assumes "set (w_clients h) \<inter> w_closed h = {}"
  shows "w_panic (ws_deliver ts d h) = w_panic h"
proof -
  have "w_panic (fold (\<lambda>u h. fold (offer d) (clients_of h u) h) us h) = w_panic h" for us
    using assms
  proof (induction us arbitrary: h)
    case Nil
    then show ?case by simp
  next
    case (Cons u us)
    then have "set (clients_of h u) \<inter> w_closed h = {}"
      by (auto simp: clients_of_def)
    with Cons show ?case by (simp add: fold_offer_quiet)
  qed
  with assms show ?thesis
    by (simp add: ws_deliver_def fold_offer_quiet)
qed

lemma close_all_quiet: "distinct cs \<Longrightarrow> set cs \<inter> w_closed h = {} \<Longrightarrow> w_panic (fold close_chan cs h) = w_panic h"
  by (induction cs arbitrary: h) (auto simp: close_chan_def)

text \<open>
  C17. The hub goroutine never panics: in a reachable state none of its steps sends on a closed
  channel or closes one twice.
\<close>

theorem ws_run_never_panics:
  assumes "ws_step\<^sup>*\<^sup>* ws_NewHub h" and "run_step h h'" and "\<not> w_panic h"
  shows "\<not> w_panic h'"
proof -
  have inv: "ws_inv h"
    by (rule wsys.steps_inv[OF assms(1) wsys.init_inv[OF refl]])
  from assms(2) inv assms(3) show ?thesis
  proof (induction rule: run_step.induct)
    case (take_register h c cs)
    then show ?case by (simp add: ws_register_def)
  next
    case (take_unregister h c cs)
    then show ?case by (auto simp: ws_unregister_def close_chan_def ws_inv_def Let_def)
  next
    case (take_broadcast h ts p os)
    then show ?case by (subst ws_deliver_quiet) (auto simp: ws_inv_def)
  next
    case (ctx_done h)
    then show ?case by (simp add: closeAll_def ws_inv_def close_all_quiet inf_sup_distrib2)
  qed
qed

theorem ws_run_never_panics_witness:
  "\<not> w_panic ((closeAll ws_NewHub)\<lparr>w_running := False\<rparr>)"
  using ws_run_never_panics[of ws_NewHub, OF _ ctx_done] by (simp add: ws_NewHub_def)

text \<open>One user with one registered connection.\<close>

definition one_client :: whub where
  "one_client = ws_NewHub\<lparr>w_known := [1], w_owner := (\<lambda>_. [])(1 := ''u''), w_clients := [1]\<rparr>"

lemma one_client_reachable: "ws_step\<^sup>*\<^sup>* ws_NewHub one_client"
proof -
  let ?h = "ws_NewHub\<lparr>w_known := [1], w_owner := (\<lambda>_. [])(1 := ''u''), w_registering := [1]\<rparr>"
  have "ws_step ws_NewHub ?h"
    using serve[of 1 ws_NewHub "''u''"] by (simp add: ws_step_def ws_NewHub_def)
  moreover have "ws_step ?h one_client"
    using take_register[of ?h 1 "[]"] by (simp add: ws_step_def ws_NewHub_def ws_register_def one_client_def)
  ultimately show ?thesis
    by (meson converse_rtranclp_into_rtranclp rtranclp.rtrancl_refl)
qed

text \<open>
  A caller can panic: \<^verbatim>\<open>Conn.Send\<close> on a connection the hub has unregistered sends on a closed
  channel, and such a run exists.
\<close>

theorem send_after_unregister_panics:
  "\<exists>h. ws_step\<^sup>*\<^sup>* ws_NewHub h \<and> \<not> w_panic h \<and> env_step h (offer data 1 h) \<and> w_panic (offer data 1 h)"
proof -
  let ?h1 = "one_client\<lparr>w_unregistering := [1]\<rparr>"
  let ?h2 = "one_client\<lparr>w_clients := [], w_closed := {1}, w_offline := [''u'']\<rparr>"
  have "ws_step one_client ?h1"
    using cleanup[of 1 one_client] by (simp add: ws_step_def one_client_def ws_NewHub_def)
  moreover have "ws_step ?h1 ?h2"
    using take_unregister[of ?h1 1 "[]"]
    by (simp add: ws_step_def one_client_def ws_NewHub_def ws_unregister_def clients_of_def close_chan_def Let_def)
  ultimately have "ws_step\<^sup>*\<^sup>* ws_NewHub ?h2"
    using one_client_reachable by (meson rtranclp.rtrancl_into_rtrancl)
  then show ?thesis
    using conn_send[of 1 ?h2 data] by (intro exI[of _ ?h2]) (simp add: offer_def one_client_def ws_NewHub_def)
qed

text \<open>
  A user goes offline exactly when their last connection does: unregistering a registered
  connection reports the user if and only if no other connection of theirs is left.
\<close>

theorem offline_on_last_connection:
  assumes "ws_step\<^sup>*\<^sup>* ws_NewHub h" and "w_running h" and "c \<in> set (w_clients h)"
  shows "w_offline (ws_unregister c h) =
      (if \<exists>d\<in>set (w_clients h). d \<noteq> c \<and> w_owner h d = w_owner h c then w_offline h
       else w_offline h @ [w_owner h c]) \<and>
    set (w_clients (ws_unregister c h)) = set (w_clients h) - {c} \<and> c \<in> w_closed (ws_unregister c h)"
proof -
  have inv: "ws_inv h"
    by (rule wsys.steps_inv[OF assms(1) wsys.init_inv[OF refl]])
  then have "c \<notin> w_closed h" "distinct (w_clients h)"
    using assms(2,3) by (auto simp: ws_inv_def)
  moreover have "clients_of h (w_owner h c) \<noteq> []"
    using assms(3) by (auto simp: clients_of_def filter_empty_conv)
  ultimately show ?thesis
    using assms(3) by (auto simp: ws_unregister_def close_chan_def Let_def clients_of_def filter_empty_conv)
qed

theorem offline_on_last_connection_witness:
  "w_offline (ws_unregister 1 one_client) = [''u'']"
  using offline_on_last_connection[OF one_client_reachable, of 1] by (simp add: one_client_def ws_NewHub_def)

end
