(* ===== verification/Pumps.thy ===== *)
theory Pumps
  imports WsHub
begin

text \<open>
  The goroutines at the ends of a socket: \<^verbatim>\<open>readPump\<close> and \<^verbatim>\<open>writePump\<close> of pkg/ws/conn.go with the
  counters of pkg/ws/metrics.go, and of the gateway's hub the subscription of a connection to its
  user's channel (\<^verbatim>\<open>subscribeUser\<close>) and the answer to a lookup (\<^verbatim>\<open>respondLookup\<close>). Each is a function
  from what it meets, in order, to what it does; a prefix of the events is a run that is still
  going on.
\<close>

section \<open>Reading\<close>

text \<open>A read gives bytes or fails; only a failure ends the loop, as a malformed frame is counted.\<close>

record ws_counters =
  total_messages :: nat
  total_errors :: nat

definition RecordMessage :: "ws_counters \<Rightarrow> ws_counters" where
  "RecordMessage c = c\<lparr>total_messages := total_messages c + 1\<rparr>"

definition RecordError :: "ws_counters \<Rightarrow> ws_counters" where
  "RecordError c = c\<lparr>total_errors := total_errors c + 1\<rparr>"

fun readPump :: "('b \<Rightarrow> json option) \<Rightarrow> 'b option list \<Rightarrow> ws_counters \<Rightarrow> frame list \<times> ws_counters" where
  "readPump unmarshal [] c = ([], c)"
| "readPump unmarshal (None # reads) c = ([], c)"
| "readPump unmarshal (Some data # reads) c =
     (case UnmarshalFrame unmarshal data of
        None \<Rightarrow> readPump unmarshal reads (RecordError c)
      | Some f \<Rightarrow> (let (fs, c) = readPump unmarshal reads (RecordMessage c) in (f # fs, c)))"

section \<open>Staying alive\<close>

text \<open>
  The deadline of the reads, in nanoseconds: set when the pump starts and by every pong, and by nothing
  else. \<open>timed_reads d es\<close> is the deadline after the arrivals \<open>es\<close>, none if one came too late.
\<close>

definition pongWait :: int where "pongWait = 40 * 1000000000"

definition pingPeriod :: int where "pingPeriod = 30 * 1000000000"

datatype arrival = Pong | Data

fun timed_reads :: "int \<Rightarrow> (int \<times> arrival) list \<Rightarrow> int option" where
  "timed_reads d [] = Some d"
| "timed_reads d ((t, a) # es) =
     (if d \<le> t then None
      else timed_reads (case a of Pong \<Rightarrow> t + pongWait | Data \<Rightarrow> d) es)"

text \<open>The pongs of a peer that answers the ping of each period before the next ten seconds are over.\<close>

definition answers_pings :: "int \<Rightarrow> int list \<Rightarrow> bool" where
  "answers_pings start pongs \<longleftrightarrow>
     (\<forall>i<length pongs. start + (int i + 1) * pingPeriod \<le> pongs ! i \<and>
        pongs ! i < start + (int i + 1) * pingPeriod + (pongWait - pingPeriod))"

lemma timed_pongs:
  assumes "\<And>i. i < length ps \<Longrightarrow> ps ! i < (if i = 0 then d else ps ! (i - 1) + pongWait)"
  shows "timed_reads d (map (\<lambda>t. (t, Pong)) ps) = Some (if ps = [] then d else last ps + pongWait)"
  using assms
proof (induction ps arbitrary: d)
  case (Cons p ps)
  have "p < d"
    using Cons.prems[of 0] by simp
  moreover have "ps ! i < (if i = 0 then p + pongWait else ps ! (i - 1) + pongWait)" if "i < length ps" for i
    using Cons.prems[of "Suc i"] that by (cases i) simp_all
  ultimately show ?case
    using Cons.IH[of "p + pongWait"] by simp
qed simp

lemma answering_peer_stays:
  assumes "answers_pings start ps"
  shows "timed_reads (start + pongWait) (map (\<lambda>t. (t, Pong)) ps) =
    Some (if ps = [] then start + pongWait else last ps + pongWait)"
proof (rule timed_pongs)
  fix i
  assume i: "i < length ps"
  then have late: "ps ! i < start + (int i + 1) * pingPeriod + (pongWait - pingPeriod)"
    using assms by (simp add: answers_pings_def)
  show "ps ! i < (if i = 0 then start + pongWait else ps ! (i - 1) + pongWait)"
  proof (cases i)
    case (Suc j)
    then have "start + (int j + 1) * pingPeriod \<le> ps ! j"
      using assms i by (simp add: answers_pings_def)
    then show ?thesis
      using late Suc by (simp add: pingPeriod_def pongWait_def)
  qed (use late in \<open>simp add: pingPeriod_def pongWait_def\<close>)
qed

text \<open>Messages do not keep a peer alive: one that sends and never answers a ping is cut off.\<close>

lemma busy_peer_is_cut:
  assumes "d \<le> t" and "\<forall>x\<in>set es. snd x = Data"
  shows "timed_reads d (es @ [(t, Data)]) = None"
  using assms(2)
proof (induction es)
  case (Cons e es)
  then show ?case
    by (cases e) simp
qed (use assms(1) in simp)

section \<open>Writing\<close>

text \<open>What the select of the loop meets, and whether the write it makes succeeds.\<close>

datatype write_event = Context_done | Queued string bool | Channel_closed | Ping_due bool

datatype written = Binary_frame string | Close_frame | Ping_frame

fun writePump :: "write_event list \<Rightarrow> written list" where
  "writePump [] = []"
| "writePump (Context_done # es) = []"
| "writePump (Queued msg ok # es) = Binary_frame msg # (if ok then writePump es else [])"
| "writePump (Channel_closed # es) = [Close_frame]"
| "writePump (Ping_due ok # es) = Ping_frame # (if ok then writePump es else [])"

section \<open>The gateway's ends\<close>

definition subscribed_channel :: "string \<Rightarrow> string" where
  "subscribed_channel phone = ''pod:user:'' @ phone"

datatype sub_event = Cancelled | Sub_closed | Received string

fun subscribeUser :: "sub_event list \<Rightarrow> string list" where
  "subscribeUser [] = []"
| "subscribeUser (Cancelled # es) = []"
| "subscribeUser (Sub_closed # es) = []"
| "subscribeUser (Received payload # es) = payload # subscribeUser es"

text \<open>The members of the map in the order of their keys; \<open>found\<close> is the lookup's answer or error.\<close>

definition respondLookup :: "string \<Rightarrow> string + bool \<Rightarrow> json" where
  "respondLookup phone found =
     JObj ((case found of Inl e \<Rightarrow> [(''error'', JStr e)] | Inr _ \<Rightarrow> [])
       @ [(''exists'', JBool (case found of Inl _ \<Rightarrow> False | Inr b \<Rightarrow> b)),
          (''phone'', JStr phone), (''type'', JStr ''lookup'')])"

section \<open>From one end to the other\<close>

lemma writePump_queued:
  "\<forall>e\<in>set es. \<exists>m. e = Queued m True \<Longrightarrow>
   writePump es = map Binary_frame (map (\<lambda>e. case e of Queued m _ \<Rightarrow> m | _ \<Rightarrow> []) es)"
  by (induction es) auto

lemma writePump_takes_in_order:
  "subseq (List.map_filter (\<lambda>x. case x of Binary_frame m \<Rightarrow> Some m | _ \<Rightarrow> None) (writePump es))
     (List.map_filter (\<lambda>e. case e of Queued m _ \<Rightarrow> Some m | _ \<Rightarrow> None) es)"
  by (induction es rule: writePump.induct) (auto simp: List.map_filter_def)

text \<open>Every read is a frame handled or an error counted, up to the first failed read.\<close>

lemma readPump_counts:
  "readPump unmarshal reads c = (fs, c') \<Longrightarrow>
   total_messages c' = total_messages c + length fs \<and>
   total_messages c' + total_errors c' =
     total_messages c + total_errors c + length (takeWhile (\<lambda>r. r \<noteq> None) reads)"
proof (induction unmarshal reads c arbitrary: fs c' rule: readPump.induct)
  case (3 unmarshal data reads c)
  show ?case
  proof (cases "UnmarshalFrame unmarshal data")
    case None
    with 3 show ?thesis
      by (fastforce simp: RecordError_def)
  next
    case (Some f)
    obtain gs c1 where rest: "readPump unmarshal reads (RecordMessage c) = (gs, c1)"
      by fastforce
    from 3(2)[OF Some rest] 3(3) Some rest show ?thesis
      by (auto simp: RecordMessage_def)
  qed
qed auto

text \<open>
  Frames that are encoded, written and read back are handled as they were, in order, whatever the
  counters were: the socket is faithful in both directions.
\<close>

lemma frames_arrive:
  assumes "\<And>j b. marshal j = Some b \<Longrightarrow> unmarshal b = Some j"
    and "those (map (MarshalFrame marshal) fs) = Some bs"
  shows "fst (readPump unmarshal (map Some bs) c) = fs"
  using assms(2)
proof (induction fs arbitrary: bs c)
  case (Cons f fs)
  then obtain b bs' where b: "MarshalFrame marshal f = Some b" "those (map (MarshalFrame marshal) fs) = Some bs'"
    "bs = b # bs'"
    by (auto split: option.splits)
  have "UnmarshalFrame unmarshal b = Some f"
    using b(1) assms(1) by (simp add: MarshalFrame_def UnmarshalFrame_def envelope_def str_member_def)
  with Cons.IH[OF b(2)] b(3) show ?case
    by (auto simp: split_beta)
qed simp

end
