(* ===== verification/GoUrl.thy ===== *)
theory GoUrl
  imports GoStrings
begin

text \<open>
  The parts of Go's \<^verbatim>\<open>net/url\<close>, \<^verbatim>\<open>path\<close> and \<^verbatim>\<open>time\<close> the media service builds its addresses with:
  percent escapes of a path segment and of a query, \<^verbatim>\<open>Values.Encode\<close>, \<^verbatim>\<open>path.Join\<close> with
  \<^verbatim>\<open>path.Clean\<close>, and the two basic formats of a UTC time. Escaping is shown to be invertible, and
  a joined path of ordinary segments to be left alone.
\<close>

section \<open>Percent escapes\<close>

definition unreserved :: "char \<Rightarrow> bool" where
  "unreserved c \<longleftrightarrow>
     (let n = of_char c :: nat in
      48 \<le> n \<and> n \<le> 57 \<or> 65 \<le> n \<and> n \<le> 90 \<or> 97 \<le> n \<and> n \<le> 122 \<or> c \<in> set ''-_.~'')"

definition upper_hex :: "nat \<Rightarrow> char" where
  "upper_hex d = (if d < 10 then char_of (48 + d) else char_of (55 + d))"

definition percent :: "char \<Rightarrow> string" where
  "percent c = (let n = of_char c :: nat in [CHR ''%'', upper_hex (n div 16), upper_hex (n mod 16)])"

definition path_escape_char :: "char \<Rightarrow> string" where
  "path_escape_char c = (if unreserved c \<or> c \<in> set ''$&+:=@'' then [c] else percent c)"

definition path_escape :: "string \<Rightarrow> string" where
  "path_escape s = concat (map path_escape_char s)"

definition query_escape_char :: "char \<Rightarrow> string" where
  "query_escape_char c = (if unreserved c then [c] else if c = CHR '' '' then ''+'' else percent c)"

definition query_escape :: "string \<Rightarrow> string" where
  "query_escape s = concat (map query_escape_char s)"

text \<open>\<^verbatim>\<open>Values.Set\<close> and \<^verbatim>\<open>Values.Encode\<close>, for one value per key.\<close>

definition values_set :: "string \<Rightarrow> string \<Rightarrow> (string \<times> string) list \<Rightarrow> (string \<times> string) list" where
  "values_set k v kvs = filter (\<lambda>(k', _). k' \<noteq> k) kvs @ [(k, v)]"

definition values_encode :: "(string \<times> string) list \<Rightarrow> string" where
  "values_encode kvs =
     join_with ''&'' (map (\<lambda>(k, v). query_escape k @ ''='' @ query_escape v) (sort_key fst kvs))"

text \<open>A server reads a path back by resolving the escapes.\<close>

definition hex_value :: "char \<Rightarrow> nat" where
  "hex_value c = (let n = of_char c :: nat in if n < 65 then n - 48 else n - 55)"

fun unescape :: "string \<Rightarrow> string" where
  "unescape (c # x # y # s) =
     (if c = CHR ''%'' then char_of (16 * hex_value x + hex_value y) # unescape s
      else c # unescape (x # y # s))"
| "unescape s = s"

lemma hex_value_upper: "d < 16 \<Longrightarrow> hex_value (upper_hex d) = d"
  by (auto simp: hex_value_def upper_hex_def Let_def of_char_of)

lemma unescape_percent: "unescape (percent c @ s) = c # unescape s"
proof -
  have "(of_char c :: nat) < 256"
    by (metis range_nat_of_char atLeastLessThan_iff rangeI)
  then have "(of_char c :: nat) div 16 < 16"
    by (intro less_mult_imp_div_less) simp
  then show ?thesis
    by (simp add: percent_def Let_def hex_value_upper)
qed

lemma unescape_plain: "c \<noteq> CHR ''%'' \<Longrightarrow> unescape (c # s) = c # unescape s"
  by (cases s; cases "tl s") auto

lemma unescape_escape_char: "unescape (path_escape_char c @ s) = c # unescape s"
proof (cases "c = CHR ''%''")
  case True
  then show ?thesis
    by (simp add: path_escape_char_def unescape_percent unreserved_def Let_def)
next
  case False
  then show ?thesis
    by (simp add: path_escape_char_def unescape_percent unescape_plain)
qed

lemma unescape_path_escape [simp]: "unescape (path_escape s) = s"
  unfolding path_escape_def by (induction s) (auto simp: unescape_escape_char)

lemma unescape_split: "unescape (path_escape s @ CHR ''/'' # t) = s @ CHR ''/'' # unescape t"
  unfolding path_escape_def by (induction s) (auto simp: unescape_escape_char unescape_plain)

text \<open>No escape holds a slash, so the segments of an escaped path are the escaped segments.\<close>

lemma upper_hex_slash: "d < 16 \<Longrightarrow> upper_hex d \<noteq> CHR ''/''"
  by (auto simp: upper_hex_def dest!: arg_cong[where f = "of_char :: char \<Rightarrow> nat"] simp: of_char_of split: if_splits)

lemma percent_slash: "CHR ''/'' \<notin> set (percent c)"
proof -
  have "(of_char c :: nat) < 256"
    by (metis range_nat_of_char atLeastLessThan_iff rangeI)
  then have "(of_char c :: nat) div 16 < 16"
    by (intro less_mult_imp_div_less) simp
  then show ?thesis
    using upper_hex_slash[of "of_char c div 16"] upper_hex_slash[of "of_char c mod 16"] by (auto simp: percent_def Let_def)
qed

lemma path_escape_slash: "CHR ''/'' \<notin> set (path_escape s)"
proof -
  have "CHR ''/'' \<notin> set (path_escape_char c)" for c
    using percent_slash[of c] by (auto simp: path_escape_char_def unreserved_def)
  then show ?thesis
    by (simp add: path_escape_def)
qed

section \<open>Paths\<close>

text \<open>\<open>out\<close> holds the segments kept so far, the last one first.\<close>

fun clean_segments :: "bool \<Rightarrow> string list \<Rightarrow> string list \<Rightarrow> string list" where
  "clean_segments rooted out [] = rev out"
| "clean_segments rooted out (p # ps) =
     (if p = [] \<or> p = ''.'' then clean_segments rooted out ps
      else if p = ''..'' then
        (case out of
           [] \<Rightarrow> (if rooted then clean_segments rooted [] ps else clean_segments rooted [''..''] ps)
         | q # qs \<Rightarrow> (if q = ''..'' then clean_segments rooted (''..'' # out) ps
                     else clean_segments rooted qs ps))
      else clean_segments rooted (p # out) ps)"

definition path_Clean :: "string \<Rightarrow> string" where
  "path_Clean p =
     (if p = [] then ''.''
      else let rooted = (hd p = CHR ''/'');
               out = join_with ''/'' (clean_segments rooted [] (split_on (CHR ''/'') p))
           in if rooted then CHR ''/'' # out else if out = [] then ''.'' else out)"

definition path_Join :: "string list \<Rightarrow> string" where
  "path_Join elems =
     (let es = filter (\<lambda>e. e \<noteq> []) elems in
      if es = [] then [] else path_Clean (join_with ''/'' es))"

definition plain_segment :: "string \<Rightarrow> bool" where
  "plain_segment p \<longleftrightarrow> p \<noteq> [] \<and> p \<noteq> ''.'' \<and> p \<noteq> ''..'' \<and> CHR ''/'' \<notin> set p"

lemma clean_plain: "list_all plain_segment ps \<Longrightarrow> clean_segments rooted out ps = rev out @ ps"
  by (induction ps arbitrary: out) (auto simp: plain_segment_def)

lemma path_Join_plain:
  assumes "list_all plain_segment ps" and "ps \<noteq> []"
  shows "path_Join ps = join_with ''/'' ps"
proof -
  obtain p qs where ps: "ps = p # qs" and "p \<noteq> []" "hd p \<noteq> CHR ''/''"
    using assms by (cases ps) (auto simp: plain_segment_def neq_Nil_conv)
  then have "join_with ''/'' ps \<noteq> []" "hd (join_with ''/'' ps) \<noteq> CHR ''/''"
    by (cases qs; auto)+
  moreover have "filter (\<lambda>e. e \<noteq> []) ps = ps"
    using assms(1) by (auto simp: filter_id_conv list_all_iff plain_segment_def)
  moreover have "split_on (CHR ''/'') (join_with ''/'' ps) = ps"
    using assms by (intro split_join) (auto simp: list_all_iff plain_segment_def)
  ultimately show ?thesis
    using assms by (simp add: path_Join_def path_Clean_def clean_plain)
qed

section \<open>Times\<close>

text \<open>The civil date of a day counted from 1 January 1970, with March as the first month.\<close>

definition civil :: "int \<Rightarrow> int \<times> int \<times> int" where
  "civil days =
     (let z = days + 719468; era = z div 146097; doe = z mod 146097;
          yoe = (doe - doe div 1460 + doe div 36524 - doe div 146096) div 365;
          doy = doe - (365 * yoe + yoe div 4 - yoe div 100);
          mp = (5 * doy + 2) div 153;
          day = doy - (153 * mp + 2) div 5 + 1;
          month = (if mp < 10 then mp + 3 else mp - 9);
          year = yoe + era * 400 + (if month \<le> 2 then 1 else 0)
      in (year, month, day))"

definition padded :: "nat \<Rightarrow> int \<Rightarrow> string" where
  "padded w n = (let s = decimal n in replicate (w - length s) (CHR ''0'') @ s)"

text \<open>The layouts \<^verbatim>\<open>20060102\<close> and \<^verbatim>\<open>20060102T150405Z\<close>; \<open>t\<close> in nanoseconds.\<close>

definition format_day :: "int \<Rightarrow> string" where
  "format_day t =
     (let (y, m, d) = civil (t div 1000000000 div 86400)
      in padded 4 y @ padded 2 m @ padded 2 d)"

definition format_stamp :: "int \<Rightarrow> string" where
  "format_stamp t =
     (let sec = t div 1000000000 mod 86400
      in format_day t @ ''T'' @ padded 2 (sec div 3600) @ padded 2 (sec div 60 mod 60)
           @ padded 2 (sec mod 60) @ ''Z'')"

end
