(* ===== verification/Media.thy ===== *)
theory Media
  imports Queries GoUrl Http
begin

text \<open>
  internal/media/service.go and the media service (services/media-service/cmd): the presigned URL
  a client may upload one object with, and the row that records the object.

  Parameters: \<^verbatim>\<open>HMAC-SHA256\<close> and \<^verbatim>\<open>SHA-256\<close> on byte strings, and the clock, read once for the
  object's name and once for the dates.
\<close>

section \<open>Presigning\<close>

record media_service =
  md_bucket :: string
  md_region :: string
  md_accessKeyID :: string
  md_secretKey :: string
  md_has_repo :: bool

record presignRequest =
  pq_UserPhone :: string
  pq_ObjectKey :: string
  pq_ContentType :: string
  pq_SizeBytes :: int

record presignResponse =
  ps_URL :: string
  ps_Method :: string
  ps_Headers :: "(string \<times> string) list"
  ps_ExpiresAt :: int
  ps_MediaObjectID :: string

record crypto =
  hmac_sha256 :: "string \<Rightarrow> string \<Rightarrow> string"
  sha256 :: "string \<Rightarrow> string"

definition hex_string :: "string \<Rightarrow> string" where
  "hex_string s = hex_encode (map (\<lambda>c. word_of_nat (of_char c)) s)"

definition signingKey :: "crypto \<Rightarrow> media_service \<Rightarrow> string \<Rightarrow> string" where
  "signingKey cr sv date =
     (let kDate = hmac_sha256 cr (''AWS4'' @ md_secretKey sv) date;
          kRegion = hmac_sha256 cr kDate (md_region sv);
          kService = hmac_sha256 cr kRegion ''s3''
      in hmac_sha256 cr kService ''aws4_request'')"

definition newID :: "string \<Rightarrow> int \<Rightarrow> string" where
  "newID pre nano = pre @ ''_'' @ decimal nano"

definition escapeS3Key :: "string \<Rightarrow> string" where
  "escapeS3Key key = join_with ''/'' (map path_escape (split_on (CHR ''/'') key))"

definition upload_key :: "presignRequest \<Rightarrow> string \<Rightarrow> string" where
  "upload_key req objectID =
     (if pq_ObjectKey req = [] then path_Join [''uploads'', pq_UserPhone req, objectID]
      else pq_ObjectKey req)"

definition s3_host :: "media_service \<Rightarrow> string" where
  "s3_host sv = md_bucket sv @ ''.s3.'' @ md_region sv @ ''.amazonaws.com''"

text \<open>The query without the signature, then the signature over the canonical request.\<close>

definition presign_query :: "media_service \<Rightarrow> int \<Rightarrow> (string \<times> string) list" where
  "presign_query sv now =
     (let credentialScope = format_day now @ ''/'' @ md_region sv @ ''/s3/aws4_request'' in
      values_set ''X-Amz-SignedHeaders'' ''host''
     (values_set ''X-Amz-Expires'' (decimal 900)
     (values_set ''X-Amz-Date'' (format_stamp now)
     (values_set ''X-Amz-Credential'' (md_accessKeyID sv @ ''/'' @ credentialScope)
     (values_set ''X-Amz-Algorithm'' ''AWS4-HMAC-SHA256'' [])))))"

definition canonical_request :: "media_service \<Rightarrow> int \<Rightarrow> string \<Rightarrow> string" where
  "canonical_request sv now escapedKey =
     join_with [CHR 0x0A]
       [''PUT'', CHR ''/'' # escapedKey, values_encode (presign_query sv now),
        ''host:'' @ s3_host sv @ [CHR 0x0A], ''host'', ''UNSIGNED-PAYLOAD'']"

definition presign_signature :: "crypto \<Rightarrow> media_service \<Rightarrow> int \<Rightarrow> string \<Rightarrow> string" where
  "presign_signature cr sv now escapedKey =
     (let stringToSign = join_with [CHR 0x0A]
            [''AWS4-HMAC-SHA256'', format_stamp now,
             format_day now @ ''/'' @ md_region sv @ ''/s3/aws4_request'',
             hex_string (sha256 cr (canonical_request sv now escapedKey))]
      in hex_string (hmac_sha256 cr (signingKey cr sv (format_day now)) stringToSign))"

definition presigned_url :: "crypto \<Rightarrow> media_service \<Rightarrow> int \<Rightarrow> string \<Rightarrow> string" where
  "presigned_url cr sv now key =
     (let escapedKey = escapeS3Key key in
      ''https://'' @ s3_host sv @ ''/'' @ escapedKey @ ''?''
        @ values_encode (values_set ''X-Amz-Signature'' (presign_signature cr sv now escapedKey)
            (presign_query sv now)))"

definition PresignUpload ::
  "crypto \<Rightarrow> (sql_error \<Rightarrow> string) \<Rightarrow> media_service \<Rightarrow> int \<Rightarrow> int \<Rightarrow> presignRequest \<Rightarrow> 'x world_scheme
     \<Rightarrow> (string + presignResponse) \<times> 'x world_scheme" where
  "PresignUpload cr err_text sv now nano req w =
     (let objectID = newID ''media'' nano;
          key = upload_key req objectID;
          rawURL = presigned_url cr sv now key;
          resp = \<lparr>ps_URL = rawURL, ps_Method = ''PUT'',
                  ps_Headers = [(''Content-Type'', pq_ContentType req)],
                  ps_ExpiresAt = now + 900 * 1000000000, ps_MediaObjectID = objectID\<rparr>
      in if md_has_repo sv then
           (case exec (InsertMediaObject objectID (pq_UserPhone req) (md_bucket sv) key
                   (pq_ContentType req) (pq_SizeBytes req) ''pending'') w of
              (Inl e, w) \<Rightarrow> (Inl (''media.PresignUpload insert media: '' @ err_text e), w)
            | (Inr _, w) \<Rightarrow> (Inr resp, w))
         else (Inr resp, w))"

section \<open>Service\<close>

record requestUploadURL =
  ru_owner_phone :: string
  ru_content_type :: string
  ru_size :: int

definition RequestUploadURL ::
  "crypto \<Rightarrow> (sql_error \<Rightarrow> string) \<Rightarrow> media_service \<Rightarrow> int \<Rightarrow> int \<Rightarrow> requestUploadURL \<Rightarrow> 'x world_scheme
     \<Rightarrow> (rpc_error + string \<times> (string \<times> string) list \<times> int) \<times> 'x world_scheme" where
  "RequestUploadURL cr err_text sv now nano req w =
     (case PresignUpload cr err_text sv now nano
             \<lparr>pq_UserPhone = ru_owner_phone req, pq_ObjectKey = [],
              pq_ContentType = ru_content_type req, pq_SizeBytes = ru_size req\<rparr> w of
        (Inl e, w) \<Rightarrow> (Inl (Internal, ''presign failed: '' @ e), w)
      | (Inr resp, w) \<Rightarrow> (Inr (ps_URL resp, ps_Headers resp, ps_ExpiresAt resp), w))"

record mediaItem =
  mi_media_id :: string
  mi_owner_phone :: string
  mi_bucket :: string
  mi_object_key :: string
  mi_status :: string
  mi_created_at :: int

definition sel_media :: "string \<Rightarrow> media_object option stmt" where
  "sel_media mediaID = reading (\<lambda>d. find (\<lambda>r. mo_id r = mediaID) (media_objects d))"

definition GetMediaItem :: "string \<Rightarrow> 'x world_scheme \<Rightarrow> (rpc_error + mediaItem) \<times> 'x world_scheme" where
  "GetMediaItem mediaID w =
     (case one_row (exec (sel_media mediaID) w) of
        (Inl _, w) \<Rightarrow> (Inl (NotFound, ''media item not found''), w)
      | (Inr r, w) \<Rightarrow>
          (Inr \<lparr>mi_media_id = mo_id r, mi_owner_phone = mo_owner_phone r, mi_bucket = mo_bucket r,
                mi_object_key = mo_object_key r, mi_status = mo_status r,
                mi_created_at = mo_created_at r\<rparr>, w))"

section \<open>The key in the URL\<close>

lemma unescape_join:
  "unescape (join_with ''/'' (map path_escape ps)) = join_with ''/'' ps"
proof (induction ps)
  case (Cons p ps)
  then show ?case
    by (cases ps) (auto simp: unescape_split)
qed simp

text \<open>
  How S3 encodes a key to check a signature, by its documentation: the unreserved characters and the
  slashes stay, every other byte is written with a percent sign.
\<close>

definition aws_uri_encode :: "string \<Rightarrow> string" where
  "aws_uri_encode key = concat (map (\<lambda>c. if unreserved c \<or> c = CHR ''/'' then [c] else percent c) key)"

lemma escapeS3Key_chars: "escapeS3Key key = concat (map (\<lambda>c. if c = CHR ''/'' then [c] else path_escape_char c) key)"
proof (induction key)
  case (Cons c key)
  obtain p ps where key: "split_on (CHR ''/'') key = p # ps"
    by (metis list.exhaust split_on_nonempty)
  have "join_with ''/'' ((x @ s) # ss) = x @ join_with ''/'' (s # ss)" for x s and ss :: "string list"
    by (cases ss) simp_all
  with Cons key show ?case
    by (auto simp: escapeS3Key_def path_escape_def)
qed (simp add: escapeS3Key_def path_escape_def)

lemma percent_char_only: "\<not> unreserved c \<Longrightarrow> c \<in> set ''$&+:=@'' \<Longrightarrow> c # s \<noteq> percent c @ t"
  by (auto simp: percent_def Let_def)

lemma encodings_agree:
  "concat (map (\<lambda>c. if c = CHR ''/'' then [c] else path_escape_char c) key) = aws_uri_encode key \<longleftrightarrow>
     set key \<inter> set ''$&+:=@'' = {}"
proof (induction key)
  case (Cons c key)
  show ?case
  proof (cases "c \<in> set ''$&+:=@''")
    case True
    then have "\<not> unreserved c" "c \<noteq> CHR ''/''"
      by (auto simp: unreserved_def)
    with True percent_char_only[OF this(1) True] show ?thesis
      by (auto simp: path_escape_char_def aws_uri_encode_def)
  next
    case False
    then have "path_escape_char c = (if unreserved c then [c] else percent c)"
      by (auto simp: path_escape_char_def)
    with Cons False show ?thesis
      by (auto simp: aws_uri_encode_def)
  qed
qed (simp add: aws_uri_encode_def)

text \<open>
  C34. The path of a presigned URL keeps the key's segments, each of them escaped so that resolving the
  escapes gives it back; and it is the path S3 encodes the key to, for which the signature has to be
  made, exactly for the keys without one of \<open>$&+:=@\<close>. Phone numbers with a plus sign are not among these.
\<close>

theorem escaped_key_is_uri_encoding:
  "map unescape (split_on (CHR ''/'') (escapeS3Key key)) = split_on (CHR ''/'') key \<and> unescape (escapeS3Key key) = key \<and>
   (escapeS3Key key = aws_uri_encode key \<longleftrightarrow> set key \<inter> set ''$&+:=@'' = {})"
proof -
  have "split_on (CHR ''/'') (escapeS3Key key) = map path_escape (split_on (CHR ''/'') key)"
    unfolding escapeS3Key_def by (rule split_join) (simp_all add: path_escape_slash)
  then show ?thesis
    by (simp add: comp_def escapeS3Key_chars encodings_agree) (simp add: escapeS3Key_chars[symmetric] escapeS3Key_def unescape_join)
qed

text \<open>The object of a caller whose phone is in the international format.\<close>

lemma international_phone_differs:
  "escapeS3Key (upload_key \<lparr>pq_UserPhone = ''+49'', pq_ObjectKey = [], pq_ContentType = ct, pq_SizeBytes = n\<rparr> ''media_1'') = ''uploads/+49/media_1''"
  "aws_uri_encode ''uploads/+49/media_1'' = ''uploads/%2B49/media_1''"
  by (simp_all add: upload_key_def path_Join_def path_Clean_def) code_simp+

lemma newID_plain: "0 \<le> nano \<Longrightarrow> plain_segment (newID ''media'' nano)"
  using digit_char_range[of "CHR ''/''" "nat nano"]
  by (auto simp: plain_segment_def newID_def decimal_def)

text \<open>
  An upload under a phone number that is one plain path segment gets a key below that user's
  folder, named by the new object.
\<close>

theorem uploads_stay_in_folder:
  assumes "plain_segment (pq_UserPhone req)" and "pq_ObjectKey req = []" and "0 \<le> nano"
  shows "upload_key req (newID ''media'' nano) = ''uploads/'' @ pq_UserPhone req @ ''/media_'' @ decimal nano"
proof -
  have "list_all plain_segment [''uploads'', pq_UserPhone req, newID ''media'' nano]"
    using assms newID_plain[of nano] by (simp add: plain_segment_def)
  then have "path_Join [''uploads'', pq_UserPhone req, newID ''media'' nano] =
      join_with ''/'' [''uploads'', pq_UserPhone req, newID ''media'' nano]"
    by (rule path_Join_plain) simp
  then show ?thesis
    using assms(2) by (simp add: upload_key_def newID_def)
qed

theorem uploads_stay_in_folder_witness:
  "upload_key \<lparr>pq_UserPhone = ''42'', pq_ObjectKey = [], pq_ContentType = [], pq_SizeBytes = 1\<rparr> (newID ''media'' 7)
   = ''uploads/42/media_'' @ decimal 7"
  using uploads_stay_in_folder[of "\<lparr>pq_UserPhone = ''42'', pq_ObjectKey = [], pq_ContentType = [], pq_SizeBytes = 1\<rparr>" 7]
  by (simp add: plain_segment_def)

text \<open>A phone with dots in it leaves the folder: the owner's phone is not checked.\<close>

lemma uploads_escape:
  "upload_key \<lparr>pq_UserPhone = ''../backups'', pq_ObjectKey = [], pq_ContentType = ct, pq_SizeBytes = n\<rparr> ''media_1''
   = ''backups/media_1''"
  by (simp add: upload_key_def path_Join_def path_Clean_def)

section \<open>The recorded object\<close>

lemma find_new: "k \<notin> f ` set rows \<Longrightarrow> find (\<lambda>r. f r = k) (rows @ [r]) = (if f r = k then Some r else None)"
  by (induction rows) auto

text \<open>
  C32. With a repository and a store that answers, a URL is handed out only together with a pending
  row that names the owner and the key the URL was made for, and \<^verbatim>\<open>GetMediaItem\<close> finds it; if the
  object's name is taken the caller gets an error and no row changes.
\<close>

theorem upload_is_recorded:
  assumes "undisturbed w" and "md_has_repo sv"
  shows "let objectID = newID ''media'' nano;
             key = path_Join [''uploads'', ru_owner_phone req, objectID];
             (res, w') = RequestUploadURL cr err_text sv now nano req w
         in if objectID \<in> mo_id ` set (media_objects (wdb w))
            then \<not> is_ok res \<and> wdb w' = wdb w
            else res = Inr (presigned_url cr sv now key, [(''Content-Type'', ru_content_type req)],
                            now + 900 * 1000000000) \<and>
                 fst (GetMediaItem objectID w') =
                   Inr \<lparr>mi_media_id = objectID, mi_owner_phone = ru_owner_phone req,
                        mi_bucket = md_bucket sv, mi_object_key = key, mi_status = ''pending'',
                        mi_created_at = pg_now (wpg w (wtick w))\<rparr>"
  using assms
  by (simp add: RequestUploadURL_def PresignUpload_def exec_undisturbed InsertMediaObject_def upload_key_def
      GetMediaItem_def sel_media_def reading_def find_new Let_def)

definition local_bucket :: media_service where
  "local_bucket = \<lparr>md_bucket = ''b'', md_region = ''r'', md_accessKeyID = ''k'', md_secretKey = ''s'', md_has_repo = True\<rparr>"

definition no_crypto :: crypto where
  "no_crypto = \<lparr>hmac_sha256 = (\<lambda>_ _. []), sha256 = (\<lambda>_. [])\<rparr>"

theorem upload_is_recorded_witness:
  "mi_status (projr (fst (GetMediaItem (newID ''media'' 7)
     (snd (RequestUploadURL no_crypto (\<lambda>_. []) local_bucket 0 7
       \<lparr>ru_owner_phone = ''42'', ru_content_type = [], ru_size = 1\<rparr> (calm_world no_rows)))))) = ''pending''"
proof -
  have "undisturbed (calm_world no_rows)" and "md_has_repo local_bucket"
    by (simp_all add: local_bucket_def)
  from upload_is_recorded[OF this, of 7 "\<lparr>ru_owner_phone = ''42'', ru_content_type = [], ru_size = 1\<rparr>" no_crypto "\<lambda>_. []" 0]
  show ?thesis
    by (auto simp: Let_def split_beta no_rows_def)
qed

end
