(* ===== verification/Calls.thy ===== *)
theory Calls
  imports Http Base64
begin

text \<open>
  internal/call/service.go and the call service (services/call-service/cmd): the table of calls
  in progress, joining one, and TURN credentials. Each handler holds the mutex for its one access
  of the table, so it is a step on it.

  Parameters: the bytes the random source put into the buffer (its error is dropped, the buffer
  keeps its length), the clock, and \<^verbatim>\<open>HMAC-SHA1\<close> on byte strings.
\<close>

section \<open>Credentials\<close>

type_synonym mac = "string \<Rightarrow> string \<Rightarrow> string"

text \<open>\<open>now\<close> and \<open>ttl\<close> in nanoseconds; \<^verbatim>\<open>Unix\<close> rounds down to seconds.\<close>

definition TURNCredential :: "mac \<Rightarrow> string \<Rightarrow> int \<Rightarrow> string \<Rightarrow> int \<Rightarrow> string \<times> string \<times> int" where
  "TURNCredential hmac secret now userID ttl =
     (let expiresAt = now + ttl;
          username = decimal (expiresAt div 1000000000) @ '':'' @ userID
      in (username, std_encode (hmac secret username), expiresAt))"

section \<open>The call table\<close>

type_synonym call_table = "string \<rightharpoonup> int"

definition newCallServer :: call_table where
  "newCallServer = Map.empty"

text \<open>\<open>buf\<close> is the buffer after the read.\<close>

definition call_randHex :: "(nat \<Rightarrow> 8 word list) \<Rightarrow> nat \<Rightarrow> string" where
  "call_randHex buf n = hex_encode (buf n)"

definition InitiateCall :: "(nat \<Rightarrow> 8 word list) \<Rightarrow> int \<Rightarrow> call_table \<Rightarrow> (string \<times> int) \<times> call_table" where
  "InitiateCall buf now t =
     (let callID = ''call_'' @ call_randHex buf 8; started = now in
      ((callID, started), t(callID \<mapsto> started)))"

definition JoinCall :: "(nat \<Rightarrow> 8 word list) \<Rightarrow> int \<Rightarrow> string \<Rightarrow> call_table \<Rightarrow> rpc_error + string \<times> int" where
  "JoinCall buf now call_id t =
     (case t call_id of
        None \<Rightarrow> Inl (Unknown, ''call not found'')
      | Some _ \<Rightarrow> Inr (''join_'' @ call_randHex buf 12, now + 30 * 60 * 1000000000))"

definition EndCall :: "string \<Rightarrow> call_table \<Rightarrow> bool \<times> call_table" where
  "EndCall call_id t = (True, t(call_id := None))"

definition GetTurnCredentials :: "mac \<Rightarrow> string \<Rightarrow> int \<Rightarrow> string \<Rightarrow> string \<times> string \<times> int" where
  "GetTurnCredentials hmac secret now user_phone = TURNCredential hmac secret now user_phone (3600 * 1000000000)"

text \<open>The interface also has \<^verbatim>\<open>StartCall\<close>, which the server does not define.\<close>

definition StartCall :: "rpc_error + string" where
  "StartCall = Inl (Unimplemented, ''method StartCall not implemented'')"

section \<open>Sequences of requests\<close>

datatype call_request =
    Initiate "nat \<Rightarrow> 8 word list" int
  | Join "nat \<Rightarrow> 8 word list" int string
  | End_call string

fun serve_call :: "call_request \<Rightarrow> call_table \<Rightarrow> call_table" where
  "serve_call (Initiate buf now) t = snd (InitiateCall buf now t)"
| "serve_call (Join buf now c) t = t"
| "serve_call (End_call c) t = snd (EndCall c t)"

definition serve_calls :: "call_request list \<Rightarrow> call_table \<Rightarrow> call_table" where
  "serve_calls = fold serve_call"

text \<open>The reference: what a call id met last decides.\<close>

fun concerns :: "string \<Rightarrow> call_request \<Rightarrow> bool" where
  "concerns c (Initiate buf now) \<longleftrightarrow> c = ''call_'' @ call_randHex buf 8"
| "concerns c (Join _ _ _) \<longleftrightarrow> False"
| "concerns c (End_call c') \<longleftrightarrow> c' = c"

fun starts :: "call_request \<Rightarrow> bool" where
  "starts (Initiate _ _) \<longleftrightarrow> True"
| "starts _ \<longleftrightarrow> False"

definition in_progress :: "call_request list \<Rightarrow> string \<Rightarrow> bool" where
  "in_progress rs c =
     (case find (concerns c) (rev rs) of None \<Rightarrow> False | Some r \<Rightarrow> starts r)"

lemma serve_call_at:
  "serve_call r t c \<noteq> None \<longleftrightarrow> (if concerns c r then starts r else t c \<noteq> None)"
  by (cases r) (auto simp: InitiateCall_def EndCall_def Let_def)

lemma serve_calls_at: "serve_calls rs newCallServer c \<noteq> None \<longleftrightarrow> in_progress rs c"
proof (induction rs rule: rev_induct)
  case Nil
  then show ?case by (simp add: serve_calls_def newCallServer_def in_progress_def)
next
  case (snoc r rs)
  then show ?case
    using serve_call_at[of r "serve_calls rs newCallServer" c]
    by (simp add: serve_calls_def in_progress_def split: if_splits)
qed

text \<open>
  C22. Any requests in any order: a call can be joined exactly while it is in progress, that is
  when starting it is the last thing that happened to it; the token then is \<^verbatim>\<open>join_\<close> and 24
  hexadecimal digits, valid for half an hour.
\<close>

theorem join_while_in_progress:
  "JoinCall buf now c (serve_calls rs newCallServer) =
     (if in_progress rs c then Inr (''join_'' @ hex_encode (buf 12), now + 1800 * 1000000000)
      else Inl (Unknown, ''call not found''))"
  using serve_calls_at[of rs c]
  by (auto simp: JoinCall_def call_randHex_def split: option.splits)

text \<open>The expiry and the user can be read back from a credential's name.\<close>

lemma turn_username_inj:
  assumes "0 \<le> now + ttl" and "0 \<le> now' + ttl'"
    and "fst (TURNCredential hmac secret now u ttl) = fst (TURNCredential hmac' secret' now' u' ttl')"
  shows "u = u' \<and> (now + ttl) div 1000000000 = (now' + ttl') div 1000000000"
  using assms by (auto simp: TURNCredential_def Let_def decimal_inj pos_imp_zdiv_nonneg_iff
      dest!: sep_append_inj[THEN iffD1, rotated 2] simp: decimal_no_colon)

end
