(* ===== verification/Presence.thy ===== *)
theory Presence
  imports Http
begin

text \<open>
  internal/presence/presence.go and the presence service (services/presence-service/cmd): who is
  online, kept in Redis under keys that expire. The server is a parameter, the two commands over
  a state of its own; what the properties rely on is \<open>expiring\<close>: a key holds the value last set
  until its time is over, and a command that fails changes nothing.
\<close>

section \<open>Redis keys that expire\<close>

datatype get_error = Redis_nil | Redis_error string

text \<open>Both commands get the time they run at; \<open>Set\<close> returns the error, if there is one.\<close>

record 's kv_if =
  kv_set :: "int \<Rightarrow> string \<Rightarrow> string \<Rightarrow> int \<Rightarrow> 's \<Rightarrow> string option \<times> 's"
  kv_get :: "int \<Rightarrow> string \<Rightarrow> 's \<Rightarrow> (get_error + string) \<times> 's"

text \<open>\<open>view\<close> is the value and the end of life of each key.\<close>

definition expiring :: "'s kv_if \<Rightarrow> ('s \<Rightarrow> string \<Rightarrow> (string \<times> int) option) \<Rightarrow> bool" where
  "expiring kv view \<longleftrightarrow>
     (\<forall>now k v ttl s. case kv_set kv now k v ttl s of
        (None, s') \<Rightarrow> view s' = (view s)(k \<mapsto> (v, now + ttl))
      | (Some _, s') \<Rightarrow> view s' = view s) \<and>
     (\<forall>now k s. case kv_get kv now k s of
        (Inr v, s') \<Rightarrow> view s' = view s \<and> (\<exists>e. view s k = Some (v, e) \<and> now < e)
      | (Inl Redis_nil, s') \<Rightarrow> view s' = view s \<and> (\<forall>v e. view s k = Some (v, e) \<longrightarrow> e \<le> now)
      | (Inl (Redis_error _), s') \<Rightarrow> view s' = view s)"

section \<open>Tracker\<close>

definition prefix_key :: "string \<Rightarrow> string" where
  "prefix_key userPhone = ''presence:user:'' @ userPhone"

definition tracker_ttl :: int where
  "tracker_ttl = 75 * 1000000000"

definition last_seen_key :: "string \<Rightarrow> string" where
  "last_seen_key userPhone = ''presence:user:'' @ userPhone @ '':last_seen''"

definition SetOnline :: "'s kv_if \<Rightarrow> int \<Rightarrow> string \<Rightarrow> 's \<Rightarrow> string option \<times> 's" where
  "SetOnline kv now userPhone s =
     (case kv_set kv now (prefix_key userPhone) ''online'' tracker_ttl s of
        (Some e, s) \<Rightarrow> (Some (''presence.SetOnline: '' @ e), s)
      | (None, s) \<Rightarrow> (None, s))"

definition SetOffline :: "'s kv_if \<Rightarrow> int \<Rightarrow> string \<Rightarrow> 's \<Rightarrow> string option \<times> 's" where
  "SetOffline kv now userPhone s =
     (case kv_set kv now (prefix_key userPhone) ''offline'' tracker_ttl s of
        (Some e, s) \<Rightarrow> (Some (''presence.SetOffline: '' @ e), s)
      | (None, s) \<Rightarrow> (None, s))"

text \<open>\<open>stamp\<close> is the time in the format of RFC 3339.\<close>

definition TouchLastSeen :: "'s kv_if \<Rightarrow> (int \<Rightarrow> string) \<Rightarrow> int \<Rightarrow> string \<Rightarrow> 's \<Rightarrow> string option \<times> 's" where
  "TouchLastSeen kv stamp now userPhone s =
     (case kv_set kv now (last_seen_key userPhone) (stamp now) (24 * 3600 * 1000000000) s of
        (Some e, s) \<Rightarrow> (Some (''presence.TouchLastSeen: '' @ e), s)
      | (None, s) \<Rightarrow> (None, s))"

definition IsOnline :: "'s kv_if \<Rightarrow> int \<Rightarrow> string \<Rightarrow> 's \<Rightarrow> (string + bool) \<times> 's" where
  "IsOnline kv now userPhone s =
     (case kv_get kv now (prefix_key userPhone) s of
        (Inl Redis_nil, s) \<Rightarrow> (Inr False, s)
      | (Inl (Redis_error e), s) \<Rightarrow> (Inl (''presence.IsOnline: '' @ e), s)
      | (Inr value, s) \<Rightarrow> (Inr (value = ''online''), s))"

section \<open>Service\<close>

record presenceRecord =
  p_user_phone :: string
  p_status :: string
  p_last_seen :: int

text \<open>\<open>parse_time\<close> is \<^verbatim>\<open>time.Parse\<close> of that format.\<close>

definition GetPresence ::
  "'s kv_if \<Rightarrow> (string \<Rightarrow> int option) \<Rightarrow> int \<Rightarrow> string \<Rightarrow> 's \<Rightarrow> (rpc_error + presenceRecord) \<times> 's" where
  "GetPresence kv parse_time now user_phone s =
     (let userPhone = trim_space user_phone in
      if userPhone = [] then (Inl (InvalidArgument, ''user_phone required''), s)
      else case IsOnline kv now userPhone s of
        (Inl e, s) \<Rightarrow> (Inl (Internal, ''presence check failed: '' @ e), s)
      | (Inr online, s) \<Rightarrow>
         (let (got, s) = kv_get kv now (last_seen_key userPhone) s;
              lastSeen = (case got of
                 Inl _ \<Rightarrow> now
               | Inr raw \<Rightarrow> (case parse_time raw of None \<Rightarrow> now | Some ts \<Rightarrow> ts))
          in (Inr \<lparr>p_user_phone = userPhone, p_status = (if online then ''online'' else ''offline''),
                   p_last_seen = lastSeen\<rparr>, s)))"

fun GetBulkPresence ::
  "'s kv_if \<Rightarrow> (string \<Rightarrow> int option) \<Rightarrow> int \<Rightarrow> string list \<Rightarrow> 's \<Rightarrow> presenceRecord list \<times> 's" where
  "GetBulkPresence kv parse_time now [] s = ([], s)"
| "GetBulkPresence kv parse_time now (userPhone # phones) s =
     (let (resp, s) = GetPresence kv parse_time now userPhone s;
          (out, s) = GetBulkPresence kv parse_time now phones s
      in (case resp of Inl _ \<Rightarrow> out | Inr r \<Rightarrow> r # out, s))"

section \<open>Histories\<close>

text \<open>What the users of a tracker call, with the time.\<close>

datatype presence_op = Go_online string | Go_offline string | Touch string

fun apply_op :: "'s kv_if \<Rightarrow> (int \<Rightarrow> string) \<Rightarrow> int \<times> presence_op \<Rightarrow> 's \<Rightarrow> string option \<times> 's" where
  "apply_op kv stamp (now, Go_online p) s = SetOnline kv now p s"
| "apply_op kv stamp (now, Go_offline p) s = SetOffline kv now p s"
| "apply_op kv stamp (now, Touch p) s = TouchLastSeen kv stamp now p s"

text \<open>The history a server has served: the operations that did not fail, oldest first.\<close>

fun run_ops :: "'s kv_if \<Rightarrow> (int \<Rightarrow> string) \<Rightarrow> (int \<times> presence_op) list \<Rightarrow> 's
    \<Rightarrow> (int \<times> presence_op) list \<times> 's" where
  "run_ops kv stamp [] s = ([], s)"
| "run_ops kv stamp (x # ops) s =
     (let (err, s) = apply_op kv stamp x s; (ok, s) = run_ops kv stamp ops s
      in (if err = None then x # ok else ok, s))"

text \<open>The reference: the last announcement about a user, and whether it is still fresh.\<close>

fun announces :: "string \<Rightarrow> int \<times> presence_op \<Rightarrow> bool" where
  "announces p (now, Go_online q) \<longleftrightarrow> q = p"
| "announces p (now, Go_offline q) \<longleftrightarrow> q = p"
| "announces p (now, Touch q) \<longleftrightarrow> False"

definition announced_online :: "int \<Rightarrow> string \<Rightarrow> (int \<times> presence_op) list \<Rightarrow> bool" where
  "announced_online now p stored =
     (case find (announces p) (rev stored) of
        Some (t, Go_online _) \<Rightarrow> now < t + tracker_ttl
      | _ \<Rightarrow> False)"

section \<open>Lemmas\<close>

lemma key_simps [simp]:
  "prefix_key p = prefix_key q \<longleftrightarrow> p = q"
  "last_seen_key q = prefix_key p \<longleftrightarrow> p = q @ '':last_seen''"
  "prefix_key p = last_seen_key q \<longleftrightarrow> p = q @ '':last_seen''"
  by (auto simp: prefix_key_def last_seen_key_def)

lemma expiring_set:
  assumes "expiring kv view" and "kv_set kv now k v ttl s = (err, s')"
  shows "view s' = (case err of None \<Rightarrow> (view s)(k \<mapsto> (v, now + ttl)) | Some _ \<Rightarrow> view s)"
proof -
  have "case (err, s') of
          (None, s') \<Rightarrow> view s' = (view s)(k \<mapsto> (v, now + ttl))
        | (Some _, s') \<Rightarrow> view s' = view s"
    unfolding assms(2)[symmetric]
    by (rule assms(1)[unfolded expiring_def, THEN conjunct1, THEN spec, THEN spec, THEN spec, THEN spec, THEN spec])
  then show ?thesis
    by (simp split: option.splits)
qed

lemma expiring_get:
  assumes "expiring kv view" and "kv_get kv now k s = (got, s')"
  shows "view s' = view s"
    and "got = Inr v \<Longrightarrow> \<exists>e. view s k = Some (v, e) \<and> now < e"
    and "got = Inl Redis_nil \<Longrightarrow> view s k = Some (v, e) \<Longrightarrow> e \<le> now"
proof -
  have "case (got, s') of
          (Inr v, s') \<Rightarrow> view s' = view s \<and> (\<exists>e. view s k = Some (v, e) \<and> now < e)
        | (Inl Redis_nil, s') \<Rightarrow> view s' = view s \<and> (\<forall>v e. view s k = Some (v, e) \<longrightarrow> e \<le> now)
        | (Inl (Redis_error _), s') \<Rightarrow> view s' = view s"
    unfolding assms(2)[symmetric]
    by (rule assms(1)[unfolded expiring_def, THEN conjunct2, THEN spec, THEN spec, THEN spec])
  then show "view s' = view s" and "got = Inr v \<Longrightarrow> \<exists>e. view s k = Some (v, e) \<and> now < e"
    and "got = Inl Redis_nil \<Longrightarrow> view s k = Some (v, e) \<Longrightarrow> e \<le> now"
    by (auto split: sum.splits get_error.splits)
qed

text \<open>What an operation leaves under the key of a user.\<close>

fun entry_for :: "int \<times> presence_op \<Rightarrow> string \<times> int" where
  "entry_for (now, Go_online _) = (''online'', now + tracker_ttl)"
| "entry_for (now, _) = (''offline'', now + tracker_ttl)"

lemma apply_op_view:
  assumes "expiring kv view" and "apply_op kv stamp x s = (err, s')" and "\<not> suffix '':last_seen'' p"
  shows "view s' (prefix_key p) = (if err = None \<and> announces p x then Some (entry_for x) else view s (prefix_key p))"
proof -
  obtain now op where x: "x = (now, op)"
    by (cases x)
  show ?thesis
    using assms unfolding x
    by (cases op) (auto simp: SetOnline_def SetOffline_def TouchLastSeen_def suffix_def
        dest: expiring_set[OF assms(1)] split: prod.splits option.splits)
qed

lemma run_ops_view:
  assumes "expiring kv view" and "\<not> suffix '':last_seen'' p"
  shows "run_ops kv stamp ops s = (stored, s') \<Longrightarrow>
    view s' (prefix_key p) =
      (case find (announces p) (rev stored) of Some x \<Rightarrow> Some (entry_for x) | None \<Rightarrow> view s (prefix_key p))"
proof (induction ops arbitrary: s stored s')
  case Nil
  then show ?case by simp
next
  case (Cons x ops)
  obtain err s1 where x: "apply_op kv stamp x s = (err, s1)"
    by fastforce
  obtain ok s2 where ops: "run_ops kv stamp ops s1 = (ok, s2)"
    by fastforce
  show ?case
    using Cons.prems Cons.IH[OF ops] apply_op_view[OF assms(1) x assms(2)]
    by (auto simp: x ops find_append split: option.split if_splits)
qed

lemma announces_online: "find (announces p) xs = Some x \<Longrightarrow> announces p x"
  by (auto simp: find_Some_iff)

text \<open>
  C21. Whatever the tracker was told about whom and whichever calls failed, the presence service
  says a user is online exactly if the last announcement that was stored about that user was that
  it came online, less than 75 seconds ago.
\<close>

theorem presence_is_last_announcement:
  assumes "expiring kv view" and "view s0 = Map.empty" and "\<not> suffix '':last_seen'' (trim_space p)"
    and run: "run_ops kv stamp ops s0 = (stored, s)"
    and asked: "GetPresence kv parse_time now p s = (Inr r, s')"
  shows "p_user_phone r = trim_space p \<and>
    p_status r = (if announced_online now (trim_space p) stored then ''online'' else ''offline'')"
proof -
  let ?p = "trim_space p"
  have seen: "view s (prefix_key ?p) = map_option entry_for (find (announces ?p) (rev stored))"
    using run_ops_view[OF assms(1,3) run] assms(2) by (simp split: option.split)
  obtain b s1 where online: "IsOnline kv now ?p s = (Inr b, s1)"
    and r: "p_user_phone r = ?p" "p_status r = (if b then ''online'' else ''offline'')"
    using asked by (auto simp: GetPresence_def Let_def split: if_splits sum.splits prod.splits)
  obtain got s2 where got: "kv_get kv now (prefix_key ?p) s = (got, s2)"
    by fastforce
  have "b = announced_online now ?p stored"
  proof (cases "find (announces ?p) (rev stored)")
    case None
    with seen have "got \<noteq> Inr v" for v
      using expiring_get(2)[OF assms(1) got, of v] by auto
    with None online got show ?thesis
      by (auto simp: IsOnline_def announced_online_def split: sum.splits get_error.splits)
  next
    case (Some x)
    then show ?thesis
      using online got seen announces_online[OF Some]
        expiring_get(2)[OF assms(1) got] expiring_get(3)[OF assms(1) got]
      by (cases x rule: entry_for.cases)
        (fastforce simp: IsOnline_def announced_online_def split: sum.splits get_error.splits)+
  qed
  with r show ?thesis by simp
qed

definition plain_kv :: "(string \<Rightarrow> (string \<times> int) option) kv_if" where
  "plain_kv =
     \<lparr>kv_set = (\<lambda>now k v ttl s. (None, s(k \<mapsto> (v, now + ttl)))),
      kv_get = (\<lambda>now k s. (case s k of
         Some (v, e) \<Rightarrow> if now < e then Inr v else Inl Redis_nil
       | None \<Rightarrow> Inl Redis_nil, s))\<rparr>"

lemma plain_kv_expires: "expiring plain_kv (\<lambda>s. s)"
  by (auto simp: expiring_def plain_kv_def split: option.split)

theorem presence_is_last_announcement_witness:
  "p_status (projr (fst (GetPresence plain_kv (\<lambda>_. None) 74000000000 ''1''
     (snd (run_ops plain_kv (\<lambda>_. []) [(0, Go_online ''2''), (5, Go_offline ''2''), (6, Go_online ''1'')] Map.empty)))))
   = ''online''"
proof -
  let ?ops = "[(0, Go_online ''2''), (5, Go_offline ''2''), (6, Go_online ''1'')]"
  let ?got = "GetPresence plain_kv (\<lambda>_. None) 74000000000 ''1''
     (snd (run_ops plain_kv (\<lambda>_. []) ?ops Map.empty))"
  have one: "trim_space ''1'' = ''1''"
    by (simp add: trim_space_printable printable_def)
  obtain r s where r: "?got = (Inr r, s)"
    by (simp add: one GetPresence_def IsOnline_def SetOnline_def SetOffline_def plain_kv_def
        tracker_ttl_def Let_def)
  have ran: "run_ops plain_kv (\<lambda>_. []) ?ops Map.empty = (?ops, snd (run_ops plain_kv (\<lambda>_. []) ?ops Map.empty))"
    by (simp add: SetOnline_def SetOffline_def plain_kv_def)
  have "p_user_phone r = trim_space ''1'' \<and> p_status r =
      (if announced_online 74000000000 (trim_space ''1'') ?ops then ''online'' else ''offline'')"
    by (rule presence_is_last_announcement[OF plain_kv_expires refl _ ran r]) (simp add: one suffix_def)
  then have "p_status r = ''online''"
    by (simp add: one announced_online_def tracker_ttl_def)
  then show ?thesis
    by (simp only: r fst_conv sum.sel)
qed

end
