(* ===== verification/Users.thy ===== *)
theory Users
  imports Queries
begin

text \<open>
  The user service (services/user-service/cmd): looking a user up by phone, and two handlers that
  answer without a store (contacts are always empty, blocking is accepted and not recorded).
\<close>

record userInfo =
  us_user_phone :: string
  us_display_name :: string
  us_avatar_url :: string
  us_created_at :: int

definition sel_user :: "string \<Rightarrow> (string \<times> int) option stmt" where
  "sel_user phone =
     reading (\<lambda>d. map_option (\<lambda>u. (phone, u_created_at u)) (find (\<lambda>u. u_phone u = Some phone) (users d)))"

definition GetUser :: "(sql_error \<Rightarrow> string) \<Rightarrow> string \<Rightarrow> 'x world_scheme \<Rightarrow> (rpc_error + userInfo) \<times> 'x world_scheme" where
  "GetUser err_text user_phone w =
     (let phone = trim_space user_phone in
      if phone = [] then (Inl (InvalidArgument, ''user_phone required''), w)
      else
     (case one_row (exec (sel_user phone) w) of
        (Inl No_rows, w) \<Rightarrow> (Inl (NotFound, ''user not found''), w)
      | (Inl e, w) \<Rightarrow> (Inl (Internal, ''db failed: '' @ err_text e), w)
      | (Inr (userPhone, createdAt), w) \<Rightarrow>
          (Inr \<lparr>us_user_phone = userPhone, us_display_name = [], us_avatar_url = [],
                us_created_at = createdAt\<rparr>, w)))"

text \<open>The limit is brought into range and then not used.\<close>

definition GetContacts :: "int \<Rightarrow> (string \<times> string) list \<times> string" where
  "GetContacts limit = (let limit = (if limit \<le> 0 \<or> limit > 200 then 50 else limit) in ([], []))"

definition BlockUser :: "string \<Rightarrow> string \<Rightarrow> 'x world_scheme \<Rightarrow> (rpc_error + bool) \<times> 'x world_scheme" where
  "BlockUser user_phone block_user_phone w =
     (if trim_space user_phone = [] \<or> trim_space block_user_phone = []
      then (Inl (InvalidArgument, ''user_phone and block_user_phone required''), w)
      else (Inr True, w))"

text \<open>\<^verbatim>\<open>Server.UserExists\<close> of the gateway, the lookup its hub answers with.\<close>

definition UserExists :: "string \<Rightarrow> 'x world_scheme \<Rightarrow> (sql_error + bool) \<times> 'x world_scheme" where
  "UserExists phone w =
     (case exec (FindUsersByPhones [phone]) w of
        (Inl e, w) \<Rightarrow> (Inl e, w)
      | (Inr us, w) \<Rightarrow> (Inr (length us > 0), w))"

lemma registered_iff:
  "filter (\<lambda>u. case u_phone u of None \<Rightarrow> False | Some p \<Rightarrow> p \<in> set [phone]) us \<noteq> [] \<longleftrightarrow>
   find (\<lambda>u. u_phone u = Some phone) us \<noteq> None"
  by (induction us) (auto split: option.split)

text \<open>
  The gateway's own lookup and the user service agree on who is registered: on a store that
  answers, a trimmed phone exists for the one exactly if the other finds it.
\<close>

theorem lookups_agree:
  assumes "undisturbed w" and "trim_space phone \<noteq> []"
  shows "fst (UserExists (trim_space phone) w) = Inr (is_ok (fst (GetUser err_text phone w)))"
proof (cases "find (\<lambda>u. u_phone u = Some (trim_space phone)) (users (wdb w))")
  case None
  then have "FindUsersByPhones [trim_space phone] e (wdb w) = Inr ([], wdb w)" for e
    using registered_iff[of "trim_space phone" "users (wdb w)"] by (simp add: FindUsersByPhones_def reading_def)
  with None assms show ?thesis
    by (simp add: UserExists_def GetUser_def exec_undisturbed sel_user_def reading_def Let_def)
next
  case (Some u)
  then obtain x xs where "FindUsersByPhones [trim_space phone] e (wdb w) = Inr (x # xs, wdb w)" for e
    using registered_iff[of "trim_space phone" "users (wdb w)"]
    by (auto simp: FindUsersByPhones_def reading_def neq_Nil_conv)
  with Some assms show ?thesis
    by (simp add: UserExists_def GetUser_def exec_undisturbed sel_user_def reading_def Let_def)
qed

definition one_user :: world where
  "one_user = calm_world (no_rows\<lparr>users := [\<lparr>u_id = ''u'', u_email = [], u_role = ''user'',
     u_created_at = 1, u_updated_at = 1, u_phone = Some ''42''\<rparr>]\<rparr>)"

theorem lookups_agree_witness:
  "fst (UserExists ''42'' one_user) = Inr True"
proof -
  have plain: "trim_space ''42'' = ''42''"
    by (simp add: trim_space_printable printable_def)
  have "undisturbed one_user" and "trim_space ''42'' \<noteq> []"
    by (simp_all add: one_user_def plain)
  then have "fst (UserExists (trim_space ''42'') one_user) = Inr (is_ok (fst (GetUser (\<lambda>_. []) ''42'' one_user)))"
    by (rule lookups_agree)
  moreover have "is_ok (fst (GetUser (\<lambda>_. []) ''42'' one_user))"
    by (simp add: GetUser_def one_user_def exec_undisturbed sel_user_def reading_def plain Let_def)
  ultimately show ?thesis
    by (simp add: plain)
qed

end
