(* ===== verification/GatewayApi.thy ===== *)
theory GatewayApi
  imports GroupHandlers ChatProps Media Calls Presence Users
begin

text \<open>
  The other handlers of services/api-gateway/internal/gateway/server.go: those that pass a request
  on to a service with the caller's phone filled in, and the lookup of users. A gRPC client is a
  parameter \<open>rpc\<close>, from a request and the state behind it to a response or the text of an error;
  \<open>in_process\<close> makes one of a service's handler, for the properties of the composition. The
  handlers get the claims \<^verbatim>\<open>AuthMiddleware\<close> put into the context, and the zero claims without it.
\<close>

type_synonym ('q, 'a, 'w) client = "'q \<Rightarrow> 'w \<Rightarrow> (string + 'a) \<times> 'w"

definition in_process :: "(rpc_error \<Rightarrow> string) \<Rightarrow> ('q \<Rightarrow> 'w \<Rightarrow> (rpc_error + 'a) \<times> 'w) \<Rightarrow> ('q, 'a, 'w) client" where
  "in_process status_text handler q w =
     (case handler q w of (Inl e, w) \<Rightarrow> (Inl (status_text e), w) | (Inr a, w) \<Rightarrow> (Inr a, w))"

definition context_claims :: "claims option \<Rightarrow> claims" where
  "context_claims ctx = (case ctx of None \<Rightarrow> empty_claims | Some c \<Rightarrow> c)"

definition health :: response where
  "health = writeJSON 200 (JObj [(''service'', JStr ''api-gateway''), (''status'', JStr ''ok'')])"

section \<open>Passing requests on\<close>

text \<open>What every such handler does with the client's answer.\<close>

definition forward :: "('a \<Rightarrow> json) \<Rightarrow> ('q, 'a, 'w) client \<Rightarrow> 'q \<Rightarrow> 'w \<Rightarrow> response \<times> 'w" where
  "forward to_json rpc q w =
     (case rpc q w of
        (Inl err, w) \<Rightarrow> (writeError 500 (''grpc failed: '' @ err), w)
      | (Inr resp, w) \<Rightarrow> (writeJSON 200 (to_json resp), w))"

definition message_fields :: "sendMessageRequest field_table" where
  "message_fields =
     [(''sender_phone'', \<lambda>j s. map_option (\<lambda>v. s\<lparr>sm_sender_phone := v\<rparr>) (decode_string j (sm_sender_phone s))),
      (''recipient_phones'', \<lambda>j s. map_option (\<lambda>v. s\<lparr>sm_recipient_phones := v\<rparr>) (decode_strings j (sm_recipient_phones s))),
      (''group_id'', \<lambda>j s. map_option (\<lambda>v. s\<lparr>sm_group_id := v\<rparr>) (decode_string j (sm_group_id s))),
      (''body'', \<lambda>j s. map_option (\<lambda>v. s\<lparr>sm_body := v\<rparr>) (decode_string j (sm_body s))),
      (''trace_id'', \<lambda>j s. map_option (\<lambda>_. s) (decode_string j []))]"

definition no_message :: sendMessageRequest where
  "no_message = \<lparr>sm_sender_phone = [], sm_recipient_phones = [], sm_group_id = [], sm_body = []\<rparr>"

definition sent_json :: "sendMessageResponse \<Rightarrow> json" where
  "sent_json r = JObj (omit_empty ''message_id'' (sr_message_id r) @ [(''server_ts'', timestamp_json (sr_server_ts r))])"

definition createMessage ::
  "(sendMessageRequest, sendMessageResponse, 'w) client \<Rightarrow> claims option \<Rightarrow> json option \<Rightarrow> 'w \<Rightarrow> response \<times> 'w" where
  "createMessage rpc ctx payload w =
     (case decode_body message_fields no_message payload of
        None \<Rightarrow> (writeError 400 ''invalid payload'', w)
      | Some body \<Rightarrow>
          (let body = body\<lparr>sm_sender_phone := cl_phone (context_claims ctx)\<rparr>
           in forward sent_json rpc body w))"

definition history_message_json :: "chatMessage \<Rightarrow> json" where
  "history_message_json m = JObj
     (omit_empty ''message_id'' (c_message_id m) @ omit_empty ''sender_phone'' (c_sender_phone m)
      @ omit_nil ''recipient_phones'' (map JStr (c_recipient_phones m)) @ omit_empty ''body'' (c_body m)
      @ omit_empty ''status'' (c_status m) @ [(''created_at'', timestamp_json (c_created_at m))])"

definition history_json :: "getHistoryResponse \<Rightarrow> json" where
  "history_json r = JObj
     (omit_nil ''messages'' (map history_message_json (hs_messages r)) @ omit_empty ''next_cursor'' (hs_next_cursor r))"

definition getMessage :: "(getHistoryRequest, getHistoryResponse, 'w) client \<Rightarrow> string \<Rightarrow> 'w \<Rightarrow> response \<times> 'w" where
  "getMessage rpc i = forward history_json rpc \<lparr>hr_conversation_id = i, hr_cursor = [], hr_limit = 1\<rparr>"

definition upload_fields :: "requestUploadURL field_table" where
  "upload_fields =
     [(''owner_phone'', \<lambda>j s. map_option (\<lambda>v. s\<lparr>ru_owner_phone := v\<rparr>) (decode_string j (ru_owner_phone s))),
      (''content_type'', \<lambda>j s. map_option (\<lambda>v. s\<lparr>ru_content_type := v\<rparr>) (decode_string j (ru_content_type s))),
      (''size'', \<lambda>j s. map_option (\<lambda>v. s\<lparr>ru_size := v\<rparr>) (decode_int64 j (ru_size s)))]"

definition upload_json :: "string \<times> (string \<times> string) list \<times> int \<Rightarrow> json" where
  "upload_json r =
     (case r of (url, headers, expires) \<Rightarrow> JObj
        (omit_empty ''url'' url
         @ (if headers = [] then [] else [(''headers'', JObj (map (\<lambda>(k, v). (k, JStr v)) (sort_key fst headers)))])
         @ [(''expires_at'', timestamp_json expires)]))"

definition requestUpload ::
  "(requestUploadURL, string \<times> (string \<times> string) list \<times> int, 'w) client \<Rightarrow> claims option \<Rightarrow> json option
     \<Rightarrow> 'w \<Rightarrow> response \<times> 'w" where
  "requestUpload rpc ctx payload w =
     (case decode_body upload_fields \<lparr>ru_owner_phone = [], ru_content_type = [], ru_size = 0\<rparr> payload of
        None \<Rightarrow> (writeError 400 ''invalid payload'', w)
      | Some body \<Rightarrow>
          (let body = body\<lparr>ru_owner_phone := cl_phone (context_claims ctx)\<rparr>
           in forward upload_json rpc body w))"

record initiateCall =
  ic_caller_phone :: string
  ic_callee_phones :: "string list"

definition call_fields :: "initiateCall field_table" where
  "call_fields =
     [(''caller_phone'', \<lambda>j s. map_option (\<lambda>v. s\<lparr>ic_caller_phone := v\<rparr>) (decode_string j (ic_caller_phone s))),
      (''callee_phones'', \<lambda>j s. map_option (\<lambda>v. s\<lparr>ic_callee_phones := v\<rparr>) (decode_strings j (ic_callee_phones s))),
      (''trace_id'', \<lambda>j s. map_option (\<lambda>_. s) (decode_string j []))]"

definition call_json :: "string \<times> int \<Rightarrow> json" where
  "call_json r = JObj (omit_empty ''call_id'' (fst r) @ [(''started_at'', timestamp_json (snd r))])"

definition startCall ::
  "(initiateCall, string \<times> int, 'w) client \<Rightarrow> claims option \<Rightarrow> json option \<Rightarrow> 'w \<Rightarrow> response \<times> 'w" where
  "startCall rpc ctx payload w =
     (case decode_body call_fields \<lparr>ic_caller_phone = [], ic_callee_phones = []\<rparr> payload of
        None \<Rightarrow> (writeError 400 ''invalid payload'', w)
      | Some body \<Rightarrow>
          (let body = body\<lparr>ic_caller_phone := cl_phone (context_claims ctx)\<rparr>
           in forward call_json rpc body w))"

definition user_json :: "userInfo \<Rightarrow> json" where
  "user_json u = JObj [(''user'', JObj
     (omit_empty ''user_phone'' (us_user_phone u) @ omit_empty ''display_name'' (us_display_name u)
      @ omit_empty ''avatar_url'' (us_avatar_url u) @ [(''created_at'', timestamp_json (us_created_at u))]))]"

definition getUser :: "(string, userInfo, 'w) client \<Rightarrow> string \<Rightarrow> 'w \<Rightarrow> response \<times> 'w" where
  "getUser rpc phone = forward user_json rpc phone"

definition presence_json :: "presenceRecord \<Rightarrow> json" where
  "presence_json r = JObj [(''presence'', JObj
     (omit_empty ''user_phone'' (p_user_phone r) @ omit_empty ''status'' (p_status r)
      @ [(''last_seen'', timestamp_json (p_last_seen r))]))]"

definition getPresence :: "(string, presenceRecord, 'w) client \<Rightarrow> string \<Rightarrow> 'w \<Rightarrow> response \<times> 'w" where
  "getPresence rpc phone = forward presence_json rpc phone"

section \<open>Looking users up\<close>

definition lookup_fields :: "string list field_table" where
  "lookup_fields = [(''phones'', \<lambda>j s. decode_strings j s)]"

definition lookup_json :: "string list \<Rightarrow> string list \<Rightarrow> json" where
  "lookup_json registered not_found =
     JObj [(''registered'', JArr (map JStr registered)), (''not_found'', JArr (map JStr not_found))]"

text \<open>The zero response holds two nil slices. \<open>order\<close> is the order the map iteration takes.\<close>

definition lookupUsers ::
  "(string list \<Rightarrow> string list) \<Rightarrow> json option \<Rightarrow> 'x world_scheme \<Rightarrow> response \<times> 'x world_scheme" where
  "lookupUsers order payload w =
     (case decode_body lookup_fields [] payload of
        None \<Rightarrow> (writeError 400 ''invalid payload'', w)
      | Some phones \<Rightarrow>
      if phones = [] then (writeJSON 200 (JObj [(''registered'', JNull), (''not_found'', JNull)]), w)
      else
     (case exec (FindUsersByPhones phones) w of
        (Inl _, w) \<Rightarrow> (writeError 500 ''db failed'', w)
      | (Inr found, w) \<Rightarrow>
          (let registered = List.map_filter (\<lambda>u. u) found;
               phoneSet = filter (\<lambda>p. p \<notin> set registered) (remdups phones);
               notFound = order phoneSet
           in (writeJSON 200 (lookup_json registered notFound), w))))"

section \<open>Token refresh\<close>

text \<open>\<open>build\<close> is whether the URL parses, \<open>upstream\<close> the status, headers and body of the answer.\<close>

definition refresh_target :: "string \<Rightarrow> string" where
  "refresh_target supabaseURL = trim_right_slash supabaseURL @ ''/auth/v1/token?grant_type=refresh_token''"

definition refreshToken ::
  "string \<Rightarrow> (string \<Rightarrow> bool) \<Rightarrow> (string \<Rightarrow> header \<Rightarrow> (nat \<times> string list \<times> header \<times> string) option) \<Rightarrow> header
     \<Rightarrow> header \<Rightarrow> response + nat \<times> header \<times> string" where
  "refreshToken supabaseURL build upstream request_header own_header =
     (let target = refresh_target supabaseURL in
      if \<not> build target then Inl (writeError 502 ''proxy failed'')
      else case upstream target request_header of
             None \<Rightarrow> Inl (writeError 502 ''upstream failed'')
           | Some (code, keys, hdr, body) \<Rightarrow> Inr (code, copyHeader keys own_header hdr, body))"

section \<open>Connecting\<close>

text \<open>\<open>upgraded\<close> and \<open>connected\<close>: the handshake, and wrapping the descriptor, went well.\<close>

definition wsConnect :: "claims option \<Rightarrow> bool \<Rightarrow> bool \<Rightarrow> response + claims" where
  "wsConnect ctx upgraded connected =
     (case ctx of
        None \<Rightarrow> Inl (writeError 401 ''missing claims'')
      | Some c \<Rightarrow>
          (if \<not> upgraded then Inl (writeError 400 ''upgrade failed'')
           else if \<not> connected then Inl (writeError 500 ''connection failed'')
           else Inr c))"

section \<open>Who a message is from\<close>

lemma forward_ok:
  assumes "forward to_json rpc q w = (resp, w')" and "resp_code resp = 200"
  shows "\<exists>a. rpc q w = (Inr a, w') \<and> resp = writeJSON 200 (to_json a)"
  using assms by (auto simp: forward_def split: prod.splits sum.splits)

lemma createMessage_sends:
  assumes "createMessage (in_process status_text (SendMessage validate cfg schedule)) ctx payload w = (resp, w')"
    and "resp_code resp = 200"
  obtains body a where "decode_body message_fields no_message payload = Some body"
    and "SendMessage validate cfg schedule (body\<lparr>sm_sender_phone := cl_phone (context_claims ctx)\<rparr>) w = (Inr a, w')"
    and "resp = writeJSON 200 (sent_json a)"
proof -
  obtain body where body: "decode_body message_fields no_message payload = Some body"
    using assms by (cases "decode_body message_fields no_message payload") (auto simp: createMessage_def)
  then obtain a where "in_process status_text (SendMessage validate cfg schedule)
      (body\<lparr>sm_sender_phone := cl_phone (context_claims ctx)\<rparr>) w = (Inr a, w')" "resp = writeJSON 200 (sent_json a)"
    using assms by (auto simp: createMessage_def dest: forward_ok)
  with body that show ?thesis
    by (auto simp: in_process_def split: prod.splits sum.splits)
qed

lemma createMessage_posts:
  assumes "steady keys w" and "fair_schedule schedule"
    and "createMessage (in_process status_text (SendMessage validate cfg schedule)) ctx payload w = (resp, w')"
    and "resp_code resp = 200"
  shows "\<exists>msg body. decode_body message_fields no_message payload = Some body \<and> msg \<in> set (messages (wdb w')) \<and>
    m_sender_phone msg = trim_space (cl_phone (context_claims ctx)) \<and> m_body_encrypted msg = sm_body body \<and>
    (\<exists>ts. resp = writeJSON 200 (sent_json \<lparr>sr_message_id = m_id msg, sr_server_ts = ts\<rparr>))"
proof -
  obtain body a where body: "decode_body message_fields no_message payload = Some body"
    and send: "SendMessage validate cfg schedule (body\<lparr>sm_sender_phone := cl_phone (context_claims ctx)\<rparr>) w = (Inr a, w')"
    and resp: "resp = writeJSON 200 (sent_json a)"
    by (rule createMessage_sends[OF assms(3,4)])
  from send_effect[OF assms(1,2) send refl] obtain msg where
    "msg \<in> set (messages (wdb w'))" "m_id msg = sr_message_id a"
    "m_sender_phone msg = trim_space (cl_phone (context_claims ctx))" "m_body_encrypted msg = sm_body body"
    by auto
  moreover from this have "a = \<lparr>sr_message_id = m_id msg, sr_server_ts = sr_server_ts a\<rparr>"
    by simp
  ultimately show ?thesis
    using body resp by metis
qed

text \<open>
  Whatever sender the posted body names, a message the gateway reports as sent is stored with
  the caller's phone, the one of the claims, and with the text of the body.
\<close>

theorem posted_message_is_callers:
  assumes "steady keys w" and "fair_schedule schedule"
    and "createMessage (in_process status_text (SendMessage validate cfg schedule)) ctx payload w = (resp, w')"
    and "resp_code resp = 200"
  shows "\<exists>msg body. decode_body message_fields no_message payload = Some body \<and> msg \<in> set (messages (wdb w')) \<and>
    m_sender_phone msg = trim_space (cl_phone (context_claims ctx)) \<and> m_body_encrypted msg = sm_body body \<and>
    (\<exists>ts. resp = writeJSON 200 (sent_json \<lparr>sr_message_id = m_id msg, sr_server_ts = ts\<rparr>))"
  using assms by (rule createMessage_posts)

definition hello_payload :: "json option" where
  "hello_payload = Some (JObj [(''sender_phone'', JStr ''3''), (''recipient_phones'', JArr [JStr ''2'']), (''body'', JStr ''hi'')])"

lemma hello_payload_body:
  "decode_body message_fields no_message hello_payload = Some (hello\<lparr>sm_sender_phone := ''3''\<rparr>)"
  by (simp add: hello_payload_def decode_body_def message_fields_def field_for_def decode_string_def
      decode_strings_def no_message_def hello_def)

definition phone_one :: claims where
  "phone_one = \<lparr>cl_email = [], cl_user_metadata = [], cl_phone = ''1''\<rparr>"

lemma hello_posted:
  "cl_phone c = ''1'' \<Longrightarrow>
   \<exists>w'. createMessage (in_process (\<lambda>_. []) (SendMessage (\<lambda>_. None) plain_cfg concat)) (Some c) hello_payload (chat_of no_rows keys) =
     (writeJSON 200 (sent_json \<lparr>sr_message_id = ''1'', sr_server_ts = 1\<rparr>), w')"
proof -
  assume c: "cl_phone c = ''1''"
  have "hello\<lparr>sm_sender_phone := cl_phone (context_claims (Some c))\<rparr> = hello"
    by (simp add: c context_claims_def hello_def)
  then show ?thesis
    using hello_sent[of keys]
    by (auto simp: createMessage_def hello_payload_body forward_def in_process_def)
qed

theorem posted_message_is_callers_witness:
  "\<exists>w' msg. snd (createMessage (in_process (\<lambda>_. []) (SendMessage (\<lambda>_. None) plain_cfg concat)) (Some phone_one)
       hello_payload (chat_of no_rows (\<lambda>_. None))) = w' \<and> msg \<in> set (messages (wdb w')) \<and> m_sender_phone msg = ''1''"
proof -
  obtain w' where w': "createMessage (in_process (\<lambda>_. []) (SendMessage (\<lambda>_. None) plain_cfg concat)) (Some phone_one)
      hello_payload (chat_of no_rows (\<lambda>_. None)) =
      (writeJSON 200 (sent_json \<lparr>sr_message_id = ''1'', sr_server_ts = 1\<rparr>), w')"
    using hello_posted[of phone_one] by (auto simp: phone_one_def)
  have "fair_schedule concat"
    by (simp add: fair_schedule_def)
  from posted_message_is_callers[OF chat_of_simps(2) this w'] obtain msg where
    "msg \<in> set (messages (wdb w'))" "m_sender_phone msg = ''1''"
    by (auto simp: context_claims_def phone_one_def)
  with w' show ?thesis by auto
qed

text \<open>
  C12. Behind the gateway's middleware a made-up token is enough to speak for anybody: if the text
  has three parts, the middle one decodes to an object with a phone, and the JWT library refuses
  it whatever key it gets (leaving the phone empty, or as the payload has it), a message reported
  as sent is stored as sent by that phone.
\<close>

theorem forged_token_posts:
  assumes "split_on (CHR ''.'') (BearerToken hdr) = [h, p, sig]"
    and "rawurl_decode p = Some txt" and "unmarshal txt = Some (JObj ms)"
    and "map_of (rev ms) ''phone'' = Some (JStr victim)" and "victim \<noteq> []"
    and refused: "\<And>a. \<not> snd (jwt_finish lib (BearerToken hdr) a) \<and>
      cl_phone (fst (jwt_finish lib (BearerToken hdr) a)) \<in> {[], victim}"
    and "steady keys w" and "fair_schedule schedule"
    and served: "fst (AuthMiddleware lib unmarshal fetch now later secret url
        (\<lambda>ctx. createMessage (in_process status_text (SendMessage validate cfg schedule)) ctx payload w) hdr cache)
      = (resp, w')"
    and "resp_code resp = 200"
  shows "\<exists>msg. msg \<in> set (messages (wdb w')) \<and> m_sender_phone msg = trim_space victim \<and>
    (\<exists>ts. resp = writeJSON 200 (sent_json \<lparr>sr_message_id = m_id msg, sr_server_ts = ts\<rparr>))"
proof -
  have "cl_phone (fst (jwt_finish lib (BearerToken hdr) a)) = [] \<or>
      cl_phone (fst (jwt_finish lib (BearerToken hdr) a)) = victim" for a
    using refused[of a] by simp
  then obtain c where
    c: "fst (parseToken lib unmarshal fetch now later secret url (BearerToken hdr) cache) = Inr c" "cl_phone c = victim"
    using unverified_phone[where unmarshal = unmarshal and lib = lib, OF assms(1-5)] by metis
  then have "createMessage (in_process status_text (SendMessage validate cfg schedule)) (Some c) payload w = (resp, w')"
    using served by (simp add: AuthMiddleware_def Let_def split_beta)
  from createMessage_posts[OF assms(7,8) this assms(10)] show ?thesis
    by (auto simp: context_claims_def c(2))
qed

definition forged_header :: string where
  "forged_header = ''bearer'' @ CHR '' '' # ''h.e30.forged''"

lemma forged_header_token: "BearerToken forged_header = ''h.e30.forged''"
proof -
  have "str_fields forged_header = [''bearer'', ''h.e30.forged'']"
    unfolding forged_header_def by (rule fields_two) (simp_all add: printable_def)
  then show ?thesis
    by (simp add: BearerToken_def forged_header_def equal_fold_def kelvin_sign_def long_s_def bytes_def
        ascii_lower_def char_of_def bit_0)
qed

definition one_payload :: "string \<Rightarrow> json option" where
  "one_payload txt = (if txt = ''{}'' then Some (JObj [(''phone'', JStr ''1'')]) else None)"

theorem forged_token_posts_witness:
  "\<exists>w' msg. snd (fst (AuthMiddleware refusing_jwt one_payload (\<lambda>_. Fetch_failed) 0 0 ''secret'' ''https://x''
        (\<lambda>ctx. createMessage (in_process (\<lambda>_. []) (SendMessage (\<lambda>_. None) plain_cfg concat)) ctx hello_payload
          (chat_of no_rows (\<lambda>_. None))) forged_header Map.empty)) = w' \<and>
     msg \<in> set (messages (wdb w')) \<and> m_sender_phone msg = ''1''"
proof -
  let ?parse = "fst (parseToken refusing_jwt one_payload (\<lambda>_. Fetch_failed) 0 0 ''secret'' ''https://x''
      (BearerToken forged_header) Map.empty)"
  let ?post = "\<lambda>ctx. createMessage (in_process (\<lambda>_. []) (SendMessage (\<lambda>_. None) plain_cfg concat)) ctx hello_payload
          (chat_of no_rows (\<lambda>_. None))"
  let ?run = "fst (AuthMiddleware refusing_jwt one_payload (\<lambda>_. Fetch_failed) 0 0 ''secret'' ''https://x''
        ?post forged_header Map.empty)"
  have parts: "split_on (CHR ''.'') (BearerToken forged_header) = [''h'', ''e30'', ''forged'']"
    by (simp add: forged_header_token)
  have decoded: "rawurl_decode ''e30'' = Some ''{}''"
    by code_simp
  have payload: "one_payload ''{}'' = Some (JObj [(''phone'', JStr ''1'')])"
    by (simp add: one_payload_def)
  have phone: "map_of (rev [(''phone'', JStr ''1'')]) ''phone'' = Some (JStr ''1'')"
    by simp
  have refused: "jwt_finish refusing_jwt t a = (empty_claims, False)" for t a
    by (simp add: refusing_jwt_def)
  then have unverified: "\<not> snd (jwt_finish refusing_jwt (BearerToken forged_header) a) \<and>
      cl_phone (fst (jwt_finish refusing_jwt (BearerToken forged_header) a)) \<in> {[], ''1''}" for a
    by (simp add: empty_claims_def)
  obtain c where c: "?parse = Inr c" "cl_phone c = ''1''"
    using unverified_phone[where unmarshal = one_payload and lib = refusing_jwt, OF parts decoded payload phone]
    unfolding refused by (simp add: empty_claims_def) blast
  then have run: "?run = ?post (Some c)"
    by (simp add: AuthMiddleware_def Let_def split_beta)
  obtain w' where w': "?run = (writeJSON 200 (sent_json \<lparr>sr_message_id = ''1'', sr_server_ts = 1\<rparr>), w')"
    using hello_posted[OF c(2), of "\<lambda>_. None"] unfolding run by blast
  have "fair_schedule concat"
    by (simp add: fair_schedule_def)
  from forged_token_posts[where unmarshal = one_payload, OF parts decoded payload phone _ unverified chat_of_simps(2) this w'] obtain msg where
    "msg \<in> set (messages (wdb w'))" "m_sender_phone msg = ''1''"
    by auto
  with w' show ?thesis by auto
qed

section \<open>Looking up\<close>

lemma found_phones:
  "set (List.map_filter (\<lambda>u. u) (map u_phone
     (filter (\<lambda>u. case u_phone u of None \<Rightarrow> False | Some p \<Rightarrow> p \<in> set phones) us))) =
   {p \<in> set phones. \<exists>u\<in>set us. u_phone u = Some p}"
  by (induction us) (auto simp: List.map_filter_def split: option.splits)

text \<open>
  On a store that answers, a lookup tells the phones asked about apart: the registered ones are
  those some user row holds, every other one is listed once as not found, in whatever order.
\<close>

theorem lookup_partitions:
  assumes "undisturbed w" and "\<And>xs. mset (order xs) = mset xs"
    and "decode_body lookup_fields [] payload = Some phones" and "phones \<noteq> []"
  shows "\<exists>registered not_found.
    fst (lookupUsers order payload w) = writeJSON 200 (lookup_json registered not_found) \<and>
    set registered = {p \<in> set phones. \<exists>u\<in>set (users (wdb w)). u_phone u = Some p} \<and>
    set not_found = set phones - set registered \<and> distinct not_found"
proof -
  let ?found = "map u_phone (filter (\<lambda>u. case u_phone u of None \<Rightarrow> False | Some p \<Rightarrow> p \<in> set phones) (users (wdb w)))"
  let ?reg = "List.map_filter (\<lambda>u. u) ?found"
  let ?rest = "filter (\<lambda>p. p \<notin> set ?reg) (remdups phones)"
  have found: "exec (FindUsersByPhones phones) w = (Inr ?found, next_call (wdb w) w)"
    by (simp add: FindUsersByPhones_def exec_reading[OF assms(1)])
  have "set (order ?rest) = set ?rest" and "distinct (order ?rest)"
    using assms(2)[of ?rest] by (metis set_mset_mset, metis distinct_filter distinct_remdups mset_eq_imp_distinct_iff)
  then show ?thesis
    using assms(3,4) found found_phones[of phones "users (wdb w)"]
    by (intro exI[of _ ?reg] exI[of _ "order ?rest"]) (auto simp: lookupUsers_def Let_def)
qed

theorem lookup_partitions_witness:
  "\<exists>registered not_found. fst (lookupUsers rev (Some (JObj [(''phones'', JArr [JStr ''2'', JStr ''2''])])) (calm_world no_rows))
     = writeJSON 200 (lookup_json registered not_found) \<and> set not_found = {''2''}"
proof -
  have "decode_body lookup_fields [] (Some (JObj [(''phones'', JArr [JStr ''2'', JStr ''2''])])) = Some [''2'', ''2'']"
    by (simp add: decode_body_def lookup_fields_def field_for_def decode_strings_def decode_string_def)
  from lookup_partitions[where w = "calm_world no_rows" and order = rev, OF calm_world_simps(2) _ this] show ?thesis
    by (auto simp: no_rows_def)
qed

section \<open>Reading one message\<close>

text \<open>
  \<^verbatim>\<open>GET /messages/{id}\<close> asks for the history of a conversation with that id: for an id no
  conversation of a stored message has, every message's own id included, it answers without
  a message, however many there are.
\<close>

theorem message_by_id_finds_nothing:
  assumes "undisturbed w" and "trim_space i \<noteq> []"
    and none: "\<And>m. m \<in> set (messages (replica_view w (wtick w) (wdb w))) \<Longrightarrow> m_conversation_id m \<noteq> trim_space i"
  shows "fst (getMessage (in_process status_text (GetHistory cfg)) i w) = writeJSON 200 (JObj [])"
proof -
  let ?d = "replica_view w (wtick w) (wdb w)"
  have "filter (\<lambda>m. m_conversation_id m = trim_space i \<and> P m) (messages ?d) = []" for P
    using none by (auto simp: filter_empty_conv)
  then show ?thesis
    using assms(1,2)
    by (simp add: getMessage_def forward_def in_process_def GetHistory_def exec_replica_def undisturbed_advance
        GetMessageHistory_def newest_first_def effective_limit_def maxHistoryLimit_def history_json_def omit_nil_def
        omit_empty_def Let_def)
qed

theorem message_by_id_finds_nothing_witness:
  "fst (getMessage (in_process (\<lambda>_. []) (GetHistory plain_cfg)) ''1'' (chat_of one_message Map.empty)) = writeJSON 200 (JObj [])"
  by (rule message_by_id_finds_nothing) (simp_all add: one_message_def)

end
