(* ===== verification/Routing.thy ===== *)
theory Routing
  imports Middleware
begin

text \<open>
  \<^verbatim>\<open>Server.Routes\<close> of services/api-gateway/internal/gateway/server.go: the table of routes, which of
  them sit behind \<^verbatim>\<open>AuthMiddleware\<close>, and the limiter in front of all (200 requests a minute).
  The router itself is a parameter: given the table, a method and a path, it finds an entry and
  the values of its URL parameters, or none. Tracing and metrics only observe and are left out.
\<close>

datatype endpoint =
    Health | Metrics | Refresh_token | Ws_connect
  | Create_message | Get_message | Request_upload | Start_call | Get_user | Get_presence | Lookup_users
  | Create_group | List_groups | Get_group | Update_group | Add_group_members | Remove_group_member
  | Promote_group_admin | Demote_group_admin | Leave_group | Get_group_invite | Reset_group_invite
  | Join_by_invite

record route =
  ro_method :: string
  ro_pattern :: string
  ro_auth :: bool
  ro_endpoint :: endpoint

definition open_route :: "string \<Rightarrow> string \<Rightarrow> endpoint \<Rightarrow> route" where
  "open_route meth pat ep = \<lparr>ro_method = meth, ro_pattern = pat, ro_auth = False, ro_endpoint = ep\<rparr>"

definition api_route :: "string \<Rightarrow> string \<Rightarrow> endpoint \<Rightarrow> route" where
  "api_route meth pat ep = \<lparr>ro_method = meth, ro_pattern = ''/api/v1'' @ pat, ro_auth = True, ro_endpoint = ep\<rparr>"

definition routes :: "route list" where
  "routes =
     [open_route ''GET'' ''/health'' Health,
      open_route ''GET'' ''/metrics'' Metrics,
      open_route ''POST'' ''/auth/refresh'' Refresh_token,
      \<lparr>ro_method = ''GET'', ro_pattern = ''/ws/connect'', ro_auth = True, ro_endpoint = Ws_connect\<rparr>,
      api_route ''POST'' ''/messages'' Create_message,
      api_route ''GET'' ''/messages/{id}'' Get_message,
      api_route ''POST'' ''/media/upload'' Request_upload,
      api_route ''POST'' ''/calls/start'' Start_call,
      api_route ''GET'' ''/users/{phone}'' Get_user,
      api_route ''GET'' ''/presence/{phone}'' Get_presence,
      api_route ''POST'' ''/users/lookup'' Lookup_users,
      api_route ''POST'' ''/groups'' Create_group,
      api_route ''GET'' ''/groups'' List_groups,
      api_route ''GET'' ''/groups/{id}'' Get_group,
      api_route ''PATCH'' ''/groups/{id}'' Update_group,
      api_route ''POST'' ''/groups/{id}/members'' Add_group_members,
      api_route ''DELETE'' ''/groups/{id}/members/{phone}'' Remove_group_member,
      api_route ''POST'' ''/groups/{id}/admins/{phone}'' Promote_group_admin,
      api_route ''DELETE'' ''/groups/{id}/admins/{phone}'' Demote_group_admin,
      api_route ''POST'' ''/groups/{id}/leave'' Leave_group,
      api_route ''GET'' ''/groups/{id}/invite'' Get_group_invite,
      api_route ''POST'' ''/groups/{id}/invite/reset'' Reset_group_invite,
      api_route ''POST'' ''/groups/join-by-invite'' Join_by_invite]"

text \<open>\<open>auth\<close> is \<^verbatim>\<open>AuthMiddleware\<close> with the server's secret and URL, around one handler.\<close>

definition Routes ::
  "(route list \<Rightarrow> string \<Rightarrow> string \<Rightarrow> (route \<times> string list) option) \<Rightarrow> 's counter_if
     \<Rightarrow> ((claims option \<Rightarrow> 'r) \<Rightarrow> 'r) \<Rightarrow> (endpoint \<Rightarrow> string list \<Rightarrow> claims option \<Rightarrow> 'r) \<Rightarrow> 'r
     \<Rightarrow> int \<Rightarrow> string \<Rightarrow> string \<Rightarrow> http_request \<Rightarrow> 's \<Rightarrow> 'r verdict \<times> 's" where
  "Routes router rc auth handlers not_found unix meth path =
     RateLimitMiddleware rc 200 60
       (\<lambda>_. case router routes meth path of
              None \<Rightarrow> not_found
            | Some (r, params) \<Rightarrow>
                (if ro_auth r then auth (handlers (ro_endpoint r) params)
                 else handlers (ro_endpoint r) params None))
       unix"

text \<open>One method and pattern name one handler.\<close>

lemma routes_distinct: "distinct (map (\<lambda>r. (ro_method r, ro_pattern r)) routes)"
  by (simp add: routes_def open_route_def api_route_def)

text \<open>Only three endpoints can be reached without the middleware.\<close>

lemma open_endpoints:
  "r \<in> set routes \<Longrightarrow> \<not> ro_auth r \<Longrightarrow> ro_endpoint r \<in> {Health, Metrics, Refresh_token}"
  by (auto simp: routes_def open_route_def api_route_def)

text \<open>
  With a router that only finds entries of the table, a request either is refused by the limiter,
  or meets no route, or runs one handler: behind the middleware unless the endpoint is open.
\<close>

lemma routed_request:
  assumes "\<And>tbl m p r ps. router tbl m p = Some (r, ps) \<Longrightarrow> r \<in> set tbl"
  shows "case fst (Routes router rc auth handlers not_found unix meth path rq s) of
      Refused code _ \<Rightarrow> code = 429 \<or> code = 500
    | Passed x \<Rightarrow> x = not_found \<or> (\<exists>ep ps. x = auth (handlers ep ps)) \<or>
        (\<exists>ep\<in>{Health, Metrics, Refresh_token}. \<exists>ps. x = handlers ep ps None)"
proof (cases "router routes meth path")
  case None
  then show ?thesis
    by (auto simp: Routes_def RateLimitMiddleware_def Let_def split: prod.split sum.split)
next
  case (Some found)
  obtain r ps where found: "found = (r, ps)" by force
  have "ro_auth r \<or> ro_endpoint r \<in> {Health, Metrics, Refresh_token}"
    using open_endpoints[OF assms] Some found by metis
  then show ?thesis
    using Some found
    by (auto simp: Routes_def RateLimitMiddleware_def Let_def split: prod.split sum.split)
qed

end
