(* ===== verification/EventBus.thy ===== *)
theory EventBus
  imports GoStrings
begin

text \<open>
  pkg/eventbus: the choice of the driver, publishing, and the two consumers. A consumer is the
  sequence of what it does (calls of the subscriber's function, acknowledgements, sleeps) given
  the sequence of what the broker answers, so a statement about all answers covers every broker.
  The contract both consumers keep is the locale \<open>in_order_consumer\<close>. Waiting for the first Kafka
  producer is a loop that ends only when an attempt succeeds.

  Parameters: \<^verbatim>\<open>proto.Marshal\<close>, the command that appends to a stream, and the broker's answers.
\<close>

section \<open>Driver\<close>

datatype event_bus = RedisStreams | KafkaEventBus "string list"

definition default_brokers :: "string list \<Rightarrow> string list" where
  "default_brokers brokers = (if brokers = [] then [''kafka:9092''] else brokers)"

section \<open>Publishing\<close>

text \<open>\<open>add\<close> is \<^verbatim>\<open>XADD\<close>, or the producer's \<^verbatim>\<open>SendMessage\<close>.\<close>

definition redis_Publish ::
  "('m \<Rightarrow> string + string) \<Rightarrow> (string \<Rightarrow> string \<Rightarrow> 's \<Rightarrow> (string + string) \<times> 's) \<Rightarrow> string \<Rightarrow> 'm \<Rightarrow> 's
     \<Rightarrow> (string + unit) \<times> 's" where
  "redis_Publish marshal add stream msg s =
     (case marshal msg of
        Inl e \<Rightarrow> (Inl (''eventbus publish marshal: '' @ e), s)
      | Inr payload \<Rightarrow>
          (case add stream payload s of
             (Inl e, s) \<Rightarrow> (Inl (''eventbus publish xadd: '' @ e), s)
           | (Inr _, s) \<Rightarrow> (Inr (), s)))"

definition kafka_Publish ::
  "('m \<Rightarrow> string + string) \<Rightarrow> (string \<Rightarrow> string \<Rightarrow> 's \<Rightarrow> (string + string) \<times> 's) \<Rightarrow> string \<Rightarrow> 'm \<Rightarrow> 's
     \<Rightarrow> (string + unit) \<times> 's" where
  "kafka_Publish marshal add topic msg s =
     (case marshal msg of
        Inl e \<Rightarrow> (Inl (''kafka publish marshal: '' @ e), s)
      | Inr payload \<Rightarrow>
          (case add topic payload s of
             (Inl e, s) \<Rightarrow> (Inl (''kafka publish send: '' @ e), s)
           | (Inr _, s) \<Rightarrow> (Inr (), s)))"

section \<open>Consuming\<close>

text \<open>An entry: its payload, if it has one that is a string, and its id.\<close>

record entry =
  en_payload :: "string option"
  en_id :: string

datatype bus_action = Handle string | Acknowledge string | Sleep int

definition entry_actions :: "entry \<Rightarrow> bus_action list" where
  "entry_actions e =
     (case en_payload e of None \<Rightarrow> [] | Some raw \<Rightarrow> [Handle raw]) @ [Acknowledge (en_id e)]"

text \<open>
  The group may exist already. Then the loop: what one turn meets is the context done, a failed
  read (which ends the loop if the context is done by then), or entries per stream.
\<close>

definition group_refusal :: "string option \<Rightarrow> string option" where
  "group_refusal err =
     (case err of
        None \<Rightarrow> None
      | Some e \<Rightarrow> (if sublist ''BUSYGROUP'' e then None else Some (''eventbus subscribe group: '' @ e)))"

datatype turn = Done | Read_failed bool | Entries "entry list list"

fun redis_loop :: "turn list \<Rightarrow> bus_action list" where
  "redis_loop [] = []"
| "redis_loop (Done # ts) = []"
| "redis_loop (Read_failed cancelled # ts) =
     (if cancelled then [] else Sleep (100 * 1000000) # redis_loop ts)"
| "redis_loop (Entries streams # ts) =
     concat (map (\<lambda>entries. concat (map entry_actions entries)) streams) @ redis_loop ts"

definition redis_Subscribe :: "string option \<Rightarrow> turn list \<Rightarrow> string + bus_action list" where
  "redis_Subscribe err ts =
     (case group_refusal err of Some e \<Rightarrow> Inl e | None \<Rightarrow> Inr (redis_loop ts))"

text \<open>Acknowledging: the command's error is wrapped, and dropped by the loop above.\<close>

definition redis_Ack :: "string option \<Rightarrow> string option" where
  "redis_Ack err = map_option (\<lambda>e. ''eventbus ack: '' @ e) err"

definition kafka_Ack :: "string option" where
  "kafka_Ack = None"

text \<open>One claim of a Kafka session: the messages with their offsets.\<close>

fun ConsumeClaim :: "(string \<times> string) list \<Rightarrow> bus_action list" where
  "ConsumeClaim [] = []"
| "ConsumeClaim ((v, offset) # msgs) = Handle v # Acknowledge offset # ConsumeClaim msgs"

text \<open>The loop around the sessions: a session's claims run concurrently, so a session is its actions.\<close>

datatype kafka_turn = Sub_done | Consume_failed | Session "bus_action list"

fun kafka_loop :: "kafka_turn list \<Rightarrow> bus_action list" where
  "kafka_loop [] = []"
| "kafka_loop (Sub_done # ts) = []"
| "kafka_loop (Consume_failed # ts) = Sleep 1000000000 # kafka_loop ts"
| "kafka_loop (Session acts # ts) = acts @ kafka_loop ts"

section \<open>The Kafka bus and its consumers\<close>

text \<open>
  The bus keeps a cancel function for each of its consumers: \<open>kb_cancelled\<close> tells which have been called.
  \<open>refused\<close> is the error of making the consumer group. Closing the producer may fail.
\<close>

record kafka_bus =
  kb_brokers :: "string list"
  kb_cancelled :: "bool list"
  kb_producer :: bool

definition kafka_Subscribe :: "string option \<Rightarrow> kafka_bus \<Rightarrow> string option \<times> kafka_bus" where
  "kafka_Subscribe refused k =
     (case refused of
        Some e \<Rightarrow> (Some (''kafka subscribe consumer group: '' @ e), k)
      | None \<Rightarrow> (None, k\<lparr>kb_cancelled := kb_cancelled k @ [False]\<rparr>))"

definition kafka_Shutdown :: "string option \<Rightarrow> kafka_bus \<Rightarrow> string option \<times> kafka_bus" where
  "kafka_Shutdown close_error k =
     (let k = k\<lparr>kb_cancelled := map (\<lambda>_. True) (kb_cancelled k)\<rparr> in
      if kb_producer k then (close_error, k) else (None, k))"

text \<open>A consumer whose context is done ends at its next turn: what it did is what it did before.\<close>

definition consumer_turns :: "kafka_bus \<Rightarrow> nat \<Rightarrow> kafka_turn list \<Rightarrow> kafka_turn list" where
  "consumer_turns k i ts = (if kb_cancelled k ! i then [Sub_done] else ts)"

lemma shutdown_ends_consumers:
  assumes "i < length (kb_cancelled k)"
  shows "kafka_loop (consumer_turns (snd (kafka_Shutdown e k)) i ts) = []"
  using assms by (simp add: consumer_turns_def kafka_Shutdown_def Let_def)

lemma subscribed_is_live:
  "kafka_Subscribe None k = (None, k') \<Longrightarrow> \<not> last (kb_cancelled k') \<and> length (kb_cancelled k') = Suc (length (kb_cancelled k))"
  by (auto simp: kafka_Subscribe_def)

section \<open>Waiting for a producer\<close>

record backoffCfg =
  bo_max :: int
  bo_current :: int

definition seconds :: "int \<Rightarrow> int" where
  "seconds n = n * 1000000000"

definition NextBackOff :: "backoffCfg \<Rightarrow> int \<times> backoffCfg" where
  "NextBackOff b =
     (let d = bo_current b in
      (d, if bo_current b < bo_max b then b\<lparr>bo_current := bo_current b * 2\<rparr> else b))"

definition backoff2 :: backoffCfg where
  "backoff2 = \<lparr>bo_max = seconds 30, bo_current = seconds 1\<rparr>"

text \<open>\<open>attempt k\<close>: the k-th try to make a producer succeeds. The result is the delays slept.\<close>

partial_function (option) retry ::
  "(nat \<Rightarrow> bool) \<Rightarrow> nat \<Rightarrow> backoffCfg \<Rightarrow> int list \<Rightarrow> int list option" where
  "retry attempt k bo slept =
     (let (d, bo') = NextBackOff bo in
      if attempt k then Some (slept @ [d]) else retry attempt (Suc k) bo' (slept @ [d]))"

definition NewKafkaEventBus :: "string list \<Rightarrow> (nat \<Rightarrow> bool) \<Rightarrow> (event_bus \<times> int list) option" where
  "NewKafkaEventBus brokers attempt =
     map_option (\<lambda>slept. (KafkaEventBus (default_brokers brokers), slept))
       (if attempt 0 then Some [] else retry attempt 1 backoff2 [])"

text \<open>
  \<open>has_client\<close>: a Redis client was given. A missing one is a panic; a call that waits for Kafka
  for ever is \<open>None\<close>. The delays are those slept before the bus was there.
\<close>

definition NewEventBus ::
  "string \<Rightarrow> bool \<Rightarrow> string list \<Rightarrow> (nat \<Rightarrow> bool) \<Rightarrow> (string + event_bus \<times> int list) option" where
  "NewEventBus driver has_client brokers attempt =
     (if equal_fold driver ''kafka'' then map_option Inr (NewKafkaEventBus brokers attempt)
      else if \<not> has_client then Some (Inl ''eventbus redis client is required'')
      else Some (Inr (RedisStreams, [])))"

section \<open>The contract of a consumer\<close>

definition handled :: "bus_action list \<Rightarrow> string list" where
  "handled acts = List.map_filter (\<lambda>a. case a of Handle p \<Rightarrow> Some p | _ \<Rightarrow> None) acts"

definition acknowledged :: "bus_action list \<Rightarrow> string list" where
  "acknowledged acts = List.map_filter (\<lambda>a. case a of Acknowledge i \<Rightarrow> Some i | _ \<Rightarrow> None) acts"

definition payloads :: "entry list \<Rightarrow> string list" where
  "payloads es = List.map_filter en_payload es"

lemma observed_simps [simp]:
  "handled [] = []" "acknowledged [] = []" "payloads [] = []"
  "handled (Handle p # as) = p # handled as" "acknowledged (Handle p # as) = acknowledged as"
  "handled (Acknowledge i # as) = handled as" "acknowledged (Acknowledge i # as) = i # acknowledged as"
  "handled (Sleep t # as) = handled as" "acknowledged (Sleep t # as) = acknowledged as"
  "handled (as @ bs) = handled as @ handled bs"
  "acknowledged (as @ bs) = acknowledged as @ acknowledged bs"
  "payloads (e # es) = (case en_payload e of None \<Rightarrow> payloads es | Some p \<Rightarrow> p # payloads es)"
  by (simp_all add: handled_def acknowledged_def payloads_def List.map_filter_def split: option.split)

text \<open>
  \<open>before es acts\<close>: the actions done so far are those of the first entries of \<open>es\<close>, the last of
  which may be handled and not yet acknowledged.
\<close>

definition in_step :: "entry list \<Rightarrow> bus_action list \<Rightarrow> bool" where
  "in_step es acts \<longleftrightarrow>
     (\<exists>k\<le>length es. acknowledged acts = map en_id (take k es) \<and>
        (handled acts = payloads (take k es) \<or>
         k < length es \<and> handled acts = payloads (take (Suc k) es)))"

definition not_sleep :: "bus_action \<Rightarrow> bool" where
  "not_sleep a = (case a of Sleep _ \<Rightarrow> False | _ \<Rightarrow> True)"

lemma not_sleep_simps [simp]:
  "not_sleep (Handle p)" "not_sleep (Acknowledge i)" "\<not> not_sleep (Sleep t)"
  by (simp_all add: not_sleep_def)

lemma observed_filter [simp]:
  "handled (filter not_sleep as) = handled as" "acknowledged (filter not_sleep as) = acknowledged as"
  by (induction as) (auto simp: not_sleep_def handled_def acknowledged_def List.map_filter_def
      split: bus_action.split)

lemma observed_entries [simp]:
  "handled (concat (map entry_actions es)) = payloads es"
  "acknowledged (concat (map entry_actions es)) = map en_id es"
  by (induction es) (auto simp: entry_actions_def split: option.split)

lemma payloads_none [simp]: "payloads [] = []"
  by (simp add: payloads_def)

lemma in_step_Nil: "in_step es []"
  by (auto simp: in_step_def intro!: exI[of _ 0])

lemma in_step_Cons:
  "in_step es acts \<Longrightarrow> in_step (e # es) (entry_actions e @ acts)"
  unfolding in_step_def
  by (elim exE conjE, rule_tac x = "Suc k" in exI) (auto simp: entry_actions_def split: option.split)

lemma prefix_entry_actions:
  "prefix p (entry_actions e) \<Longrightarrow>
   p = [] \<or> p = entry_actions e \<or> (\<exists>raw. en_payload e = Some raw \<and> p = [Handle raw])"
  by (auto simp: entry_actions_def prefix_Cons split: option.splits)

lemma in_step_prefix: "prefix p (concat (map entry_actions es)) \<Longrightarrow> in_step es p"
proof (induction es arbitrary: p)
  case Nil
  then show ?case by (simp add: in_step_Nil)
next
  case (Cons e es)
  then consider (head) "prefix p (entry_actions e)"
    | (tail) q where "p = entry_actions e @ q" "prefix q (concat (map entry_actions es))"
    by (auto simp: prefix_append)
  then show ?case
  proof cases
    case head
    then consider "p = []" | "p = entry_actions e" | raw where "en_payload e = Some raw" "p = [Handle raw]"
      using prefix_entry_actions by blast
    then show ?thesis
    proof cases
      case 2
      then show ?thesis
        using in_step_Cons[OF in_step_Nil, where es = es and e = e] by simp
    next
      case 3
      then show ?thesis
        by (auto simp: in_step_def intro!: exI[of _ 0])
    qed (simp add: in_step_Nil)
  next
    case tail
    then show ?thesis
      using Cons.IH in_step_Cons by blast
  qed
qed

lemma filter_prefix: "prefix p as \<Longrightarrow> prefix (filter P p) (filter P as)"
  by (auto simp: prefix_def)

locale in_order_consumer =
  fixes run :: "'t list \<Rightarrow> bus_action list"
    and received :: "'t list \<Rightarrow> entry list"
  assumes works: "filter not_sleep (run ts) = concat (map entry_actions (received ts))"
begin

lemma crash: "prefix p (run ts) \<Longrightarrow> in_step (received ts) p"
proof -
  assume "prefix p (run ts)"
  then have "in_step (received ts) (filter not_sleep p)"
    by (rule in_step_prefix[OF filter_prefix[of p "run ts" not_sleep, unfolded works]])
  then show ?thesis
    by (simp add: in_step_def)
qed

lemma completed:
  "handled (run ts) = payloads (received ts)" "acknowledged (run ts) = map en_id (received ts)"
  using works[of ts] observed_filter[of "run ts"] observed_entries by metis+

end

section \<open>Both consumers keep it\<close>

fun redis_received :: "turn list \<Rightarrow> entry list" where
  "redis_received [] = []"
| "redis_received (Done # ts) = []"
| "redis_received (Read_failed cancelled # ts) = (if cancelled then [] else redis_received ts)"
| "redis_received (Entries streams # ts) = concat streams @ redis_received ts"

definition kafka_received :: "(string \<times> string) list \<Rightarrow> entry list" where
  "kafka_received msgs = map (\<lambda>(v, off). \<lparr>en_payload = Some v, en_id = off\<rparr>) msgs"

lemma entry_actions_awake: "filter not_sleep (entry_actions e) = entry_actions e"
  by (auto simp: entry_actions_def split: option.split)

lemma entries_awake:
  "filter not_sleep (concat (map entry_actions es)) = concat (map entry_actions es)"
  by (induction es) (auto simp: entry_actions_awake)

lemma concat_streams:
  "concat (map (\<lambda>es. concat (map f es)) ess) = concat (map f (concat ess))"
  by (induction ess) auto

interpretation redis: in_order_consumer redis_loop redis_received
proof
  fix ts
  show "filter not_sleep (redis_loop ts) = concat (map entry_actions (redis_received ts))"
    by (induction ts rule: redis_loop.induct)
      (auto simp: concat_streams entries_awake)
qed

interpretation kafka: in_order_consumer ConsumeClaim kafka_received
proof
  fix msgs
  show "filter not_sleep (ConsumeClaim msgs) = concat (map entry_actions (kafka_received msgs))"
    by (induction msgs rule: ConsumeClaim.induct)
      (auto simp: kafka_received_def entry_actions_def)
qed

text \<open>
  C20. Wherever a Redis consumer stops, whatever the server answered: what it acknowledged are the
  first entries it received, in order, every one of them was given to the subscriber first, and at
  most one entry was handled and not acknowledged.
\<close>

theorem redis_handles_then_acknowledges:
  "prefix done (redis_loop ts) \<Longrightarrow> in_step (redis_received ts) done"
  by (rule redis.crash)

definition three_turns :: "turn list" where
  "three_turns =
     [Entries [[\<lparr>en_payload = Some ''a'', en_id = ''1''\<rparr>, \<lparr>en_payload = None, en_id = ''2''\<rparr>]],
      Read_failed False, Entries [[\<lparr>en_payload = Some ''b'', en_id = ''3''\<rparr>]], Done]"

theorem redis_handles_then_acknowledges_witness:
  "in_step (redis_received three_turns)
     [Handle ''a'', Acknowledge ''1'', Acknowledge ''2'', Sleep 100000000, Handle ''b'']"
  by (rule redis_handles_then_acknowledges) (simp add: three_turns_def entry_actions_def)

text \<open>
  Wherever a Kafka claim stops, the offsets it marked are those of the first messages of the claim, in
  order, every one of them was given to the subscriber first, and at most one message was handled and
  not marked; a claim that is not stopped hands over and marks all of them.
\<close>

lemma kafka_handles_then_marks:
  "(prefix so_far (ConsumeClaim msgs) \<longrightarrow> in_step (kafka_received msgs) so_far) \<and>
   handled (ConsumeClaim msgs) = map fst msgs \<and> acknowledged (ConsumeClaim msgs) = map snd msgs"
proof -
  have "payloads (kafka_received msgs) = map fst msgs" "map en_id (kafka_received msgs) = map snd msgs"
    by (induction msgs) (auto simp: kafka_received_def)
  then show ?thesis
    by (simp add: kafka.completed kafka.crash)
qed

section \<open>Back-off\<close>

definition delay :: "nat \<Rightarrow> int" where
  "delay k = seconds (min (2 ^ k) 32)"

lemma delay_eq: "delay k = (if k < 5 then seconds (2 ^ k) else seconds 32)"
proof (cases "k < 5")
  case True
  then have "(2 :: int) ^ k \<le> 2 ^ 5"
    by (intro power_increasing) auto
  with True show ?thesis
    by (simp add: delay_def min_def)
next
  case False
  then have "(2 :: int) ^ 5 \<le> 2 ^ k"
    by (intro power_increasing) auto
  with False show ?thesis
    by (simp add: delay_def min_def)
qed

definition backoff_at :: "nat \<Rightarrow> backoffCfg" where
  "backoff_at k = \<lparr>bo_max = seconds 30, bo_current = delay k\<rparr>"

lemma NextBackOff_at: "NextBackOff (backoff_at k) = (delay k, backoff_at (Suc k))"
proof (cases "k < 5")
  case True
  then have "k \<in> {0, 1, 2, 3, 4}"
    by auto
  then show ?thesis
    by (auto simp: NextBackOff_def backoff_at_def delay_def seconds_def)
next
  case False
  then show ?thesis
    by (simp add: NextBackOff_def backoff_at_def delay_eq seconds_def)
qed

lemma backoff2_at: "backoff2 = backoff_at 0"
  by (simp add: backoff2_def backoff_at_def delay_def seconds_def)

lemma retry_step:
  "retry attempt k (backoff_at i) slept =
     (if attempt k then Some (slept @ [delay i])
      else retry attempt (Suc k) (backoff_at (Suc i)) (slept @ [delay i]))"
  by (subst retry.simps) (simp add: NextBackOff_at)

lemma retry_succeeds:
  "attempt (k + n) \<Longrightarrow> \<forall>m<n. \<not> attempt (k + m) \<Longrightarrow>
   retry attempt k (backoff_at i) slept = Some (slept @ map delay [i..<i + Suc n])"
proof (induction n arbitrary: k i slept)
  case 0
  then show ?case by (simp add: retry_step)
next
  case (Suc n)
  have "\<not> attempt k"
    using Suc.prems(2) by force
  moreover have "\<forall>m<n. \<not> attempt (Suc k + m)"
    using Suc.prems(2) by (metis Suc_less_eq add_Suc_shift)
  ultimately show ?case
    using Suc.IH[of "Suc k" "Suc i" "slept @ [delay i]"] Suc.prems(1)
    by (subst retry_step) (simp add: upt_conv_Cons del: upt_Suc)
qed

lemma retry_gives_up_never:
  assumes "retry attempt k bo slept = Some r"
  shows "\<exists>n\<ge>k. attempt n"
proof (rule retry.raw_induct[OF _ assms])
  fix rt :: "(nat \<Rightarrow> bool) \<Rightarrow> nat \<Rightarrow> backoffCfg \<Rightarrow> int list \<Rightarrow> int list option"
    and attempt :: "nat \<Rightarrow> bool" and k bo slept y
  assume IH: "\<And>at k bo sl y. rt at k bo sl = Some y \<Longrightarrow> \<exists>n\<ge>k. at n"
    and step: "(let (d, bo') = NextBackOff bo in
       if attempt k then Some (slept @ [d]) else rt attempt (Suc k) bo' (slept @ [d])) = Some y"
  show "\<exists>n\<ge>k. attempt n"
  proof (cases "attempt k")
    case False
    with step have "rt attempt (Suc k) (snd (NextBackOff bo)) (slept @ [fst (NextBackOff bo)]) = Some y"
      by (simp add: split_beta)
    then show ?thesis
      using IH Suc_leD by blast
  qed auto
qed

lemma iterated_backoff: "((\<lambda>b. snd (NextBackOff b)) ^^ k) backoff2 = backoff_at k"
  by (induction k) (auto simp: backoff2_at NextBackOff_at)

text \<open>
  The delays double from one second and stay at 32 seconds, above the maximum of 30 the
  back-off was given: the comparison is made before doubling.
\<close>

theorem backoff_passes_its_maximum:
  "fst (NextBackOff (((\<lambda>b. snd (NextBackOff b)) ^^ k) backoff2)) = seconds (min (2 ^ k) 32) \<and>
   bo_max backoff2 = seconds 30"
  by (simp add: iterated_backoff NextBackOff_at delay_def) (simp add: backoff2_def)

lemma kafka_bus_after:
  assumes "attempt n" and none: "\<And>m. m < n \<Longrightarrow> \<not> attempt m"
  shows "NewKafkaEventBus brokers attempt = Some (KafkaEventBus (default_brokers brokers), map delay [0..<n])"
proof (cases n)
  case 0
  with assms show ?thesis
    by (simp add: NewKafkaEventBus_def)
next
  case (Suc m)
  then have "retry attempt 1 (backoff_at 0) [] = Some ([] @ map delay [0..<0 + Suc m])"
    using assms by (intro retry_succeeds) auto
  with Suc none[of 0] show ?thesis
    by (simp add: NewKafkaEventBus_def backoff2_at del: upt_Suc)
qed

text \<open>
  C35. Making the Kafka bus ends exactly if some attempt to connect succeeds, after the doubling
  delays before that attempt; if none does, the service never gets past this call.
\<close>

theorem kafka_bus_waits:
  "NewKafkaEventBus brokers attempt =
     (if \<exists>n. attempt n
      then Some (KafkaEventBus (default_brokers brokers), map delay [0..<LEAST n. attempt n])
      else None)"
proof (cases "\<exists>n. attempt n")
  case True
  then have "attempt (LEAST n. attempt n)"
    by (rule LeastI_ex)
  then have "NewKafkaEventBus brokers attempt =
      Some (KafkaEventBus (default_brokers brokers), map delay [0..<LEAST n. attempt n])"
    by (rule kafka_bus_after) (rule not_less_Least)
  then show ?thesis
    by (simp only: if_P[OF True])
next
  case False
  then have "retry attempt 1 backoff2 [] = None"
    using retry_gives_up_never by (metis not_None_eq)
  with False show ?thesis
    by (simp add: NewKafkaEventBus_def)
qed

end
