(* ===== verification/Notification.thy ===== *)
theory Notification
  imports Http
begin

text \<open>
  internal/notification/worker.go: a pool of workers that send push notifications taken from a
  bounded queue, each with up to four attempts. The pool is a step relation over what the callers
  of \<^verbatim>\<open>Enqueue\<close> and \<^verbatim>\<open>Stop\<close> and the workers do; a worker's job is one step when it ends, and what
  the push service answers is the parameter \<open>answers\<close>.
\<close>

section \<open>Messages\<close>

record push_message =
  pm_token :: string
  pm_title :: string
  pm_body :: string
  pm_data :: "(string \<times> string) list"

text \<open>The body posted: a map is written in the order of its keys.\<close>

definition push_json :: "push_message \<Rightarrow> json" where
  "push_json m = JObj
     ([(''to'', JStr (pm_token m))] @ omit_empty ''title'' (pm_title m) @ omit_empty ''body'' (pm_body m)
      @ (if pm_data m = [] then []
         else [(''data'', JObj (map (\<lambda>(k, v). (k, JStr v)) (sort_key fst (pm_data m))))]))"

section \<open>Sending\<close>

text \<open>What the client gets: no response, or a status.\<close>

datatype answer = No_answer string | Status nat string

definition send :: "answer \<Rightarrow> string + unit" where
  "send a =
     (case a of
        No_answer e \<Rightarrow> Inl (''notification.send do: '' @ e)
      | Status code text \<Rightarrow> (if 300 \<le> code then Inl (''notification.send status: '' @ text) else Inr ()))"

definition milliseconds :: "int \<Rightarrow> int" where
  "milliseconds n = n * 1000000"

text \<open>
  The loop with \<open>left\<close> attempts to go: \<open>answers k\<close> is what attempt \<open>k\<close> gets, \<open>gone k\<close> whether the
  context ends the wait after it. The waits that ran out are returned with the result.
\<close>

fun retry_send :: "(nat \<Rightarrow> answer) \<Rightarrow> (nat \<Rightarrow> bool) \<Rightarrow> nat \<Rightarrow> nat \<Rightarrow> int \<Rightarrow> string option
    \<Rightarrow> (string + unit) \<times> int list" where
  "retry_send answers gone 0 k backoff lastErr =
     (case lastErr of
        Some e \<Rightarrow> (Inl (''notification.sendWithRetry: '' @ e), [])
      | None \<Rightarrow> (Inr (), []))"
| "retry_send answers gone (Suc left) k backoff lastErr =
     (case send (answers k) of
        Inl e \<Rightarrow>
          (if gone k then (Inl ''context canceled'', [])
           else let (r, waits) = retry_send answers gone left (Suc k) (backoff * 2) (Some e)
                in (r, backoff # waits))
      | Inr _ \<Rightarrow> (Inr (), []))"

definition sendWithRetry :: "(nat \<Rightarrow> answer) \<Rightarrow> (nat \<Rightarrow> bool) \<Rightarrow> (string + unit) \<times> int list" where
  "sendWithRetry answers gone = retry_send answers gone 4 0 (milliseconds 200) None"

text \<open>The reference: the first attempt that is accepted.\<close>

definition accepted :: "answer \<Rightarrow> bool" where
  "accepted a = is_ok (send a)"

lemma retry_send_spec:
  "\<not> (\<exists>j<left. gone (k + j)) \<Longrightarrow>
   is_ok (fst (retry_send answers gone left k backoff err)) =
     (if left = 0 then err = None else \<exists>j<left. accepted (answers (k + j))) \<and>
   snd (retry_send answers gone left k backoff err) =
     map (\<lambda>j. backoff * 2 ^ j) [0..<length (takeWhile (\<lambda>j. \<not> accepted (answers (k + j))) [0..<left])]"
proof (induction left arbitrary: k backoff err)
  case 0
  then show ?case by (auto split: option.split)
next
  case (Suc left)
  show ?case
  proof (cases "send (answers k)")
    case (Inl e)
    have still: "\<not> gone k" "\<not> (\<exists>j<left. gone (Suc k + j))"
      using Suc.prems by force+
    let ?P = "\<lambda>j. \<not> accepted (answers (k + j))"
    have up: "[0..<Suc left] = 0 # map Suc [0..<left]"
      by (simp add: upt_conv_Cons map_Suc_upt del: upt_Suc)
    have shift: "length (takeWhile ?P [0..<Suc left]) =
        Suc (length (takeWhile (\<lambda>j. \<not> accepted (answers (Suc k + j))) [0..<left]))"
      using Inl unfolding up by (simp add: takeWhile_map comp_def accepted_def)
    have waits: "map (\<lambda>j. backoff * 2 ^ j) [0..<Suc n] = backoff # map (\<lambda>j. backoff * 2 * 2 ^ j) [0..<n]" for n
      by (simp add: upt_conv_Cons map_Suc_upt[symmetric] comp_def mult.assoc del: upt_Suc)
    have "(\<exists>j<Suc left. accepted (answers (k + j))) = (\<exists>j<left. accepted (answers (Suc k + j)))"
      using Inl by (simp add: Ex_less_Suc2 accepted_def)
    then show ?thesis
      using Suc.IH[OF still(2), of "backoff * 2" "Some e"] Inl still(1)
      by (simp add: shift waits split_beta del: upt_Suc)
  next
    case (Inr u)
    then have "accepted (answers k)"
      by (simp add: accepted_def)
    with Inr show ?thesis
      by (auto simp: upt_conv_Cons simp del: upt_Suc)
  qed
qed

lemma up_to_4: "[0..<4] = [0, 1, 2, 3 :: nat]"
  by (simp add: upt_rec)

lemma ex_below_4: "(\<exists>j<4. P j) \<longleftrightarrow> P 0 \<or> P 1 \<or> P 2 \<or> P (3 :: nat)"
proof -
  have "j < 4 \<longleftrightarrow> j \<in> {0, 1, 2, 3 :: nat}" for j
    by auto
  then show ?thesis by auto
qed

text \<open>
  Unless the context ends, a message is reported sent exactly if one of its first four
  attempts got a status below 300; before each next attempt, and after the last one too, the
  worker waits 200, 400, 800 and 1600 milliseconds.
\<close>

theorem four_attempts:
  assumes "\<And>k. k < 4 \<Longrightarrow> \<not> gone k"
  shows "is_ok (fst (sendWithRetry answers gone)) = (\<exists>k<4. accepted (answers k)) \<and>
    snd (sendWithRetry answers gone) =
      map (\<lambda>k. milliseconds 200 * 2 ^ k) [0..<length (takeWhile (\<lambda>k. \<not> accepted (answers k)) [0..<4])]"
  using retry_send_spec[of 4 gone 0 answers "milliseconds 200" None] assms
  by (simp add: sendWithRetry_def del: upt_Suc)

theorem four_attempts_witness:
  "snd (sendWithRetry (\<lambda>_. Status 503 ''busy'') (\<lambda>_. False)) =
     [200000000, 400000000, 800000000, 1600000000]"
  using four_attempts[of "\<lambda>_. False" "\<lambda>_. Status 503 ''busy''"]
  by (simp add: up_to_4 accepted_def send_def milliseconds_def upt_rec)

section \<open>The pool\<close>

text \<open>
  Besides the pool's own state the record keeps what its callers were told: \<open>po_taken\<close> the messages for
  which \<^verbatim>\<open>Enqueue\<close> answered without an error, in that order, \<open>po_refused\<close> those it refused; and \<open>po_ended\<close> the
  messages whose sending is over, with the outcome. No operation reads these three.
\<close>

datatype push_worker = Idle | Busy push_message | Gone

record push_queue =
  po_size :: nat
  po_jobs :: "push_message list"
  po_workers :: "push_worker list"
  po_closed :: bool
  po_cancelled :: bool
  po_stopped :: bool
  po_taken :: "push_message list"
  po_refused :: "push_message list"
  po_ended :: "(push_message \<times> bool) list"

definition queue_cap :: nat where
  "queue_cap = 1024"

definition New :: "int \<Rightarrow> push_queue" where
  "New workers =
     \<lparr>po_size = (if workers \<le> 0 then 4 else nat workers), po_jobs = [], po_workers = [],
      po_closed = False, po_cancelled = False, po_stopped = False,
      po_taken = [], po_refused = [], po_ended = []\<rparr>"

definition Start :: "push_queue \<Rightarrow> push_queue" where
  "Start p = p\<lparr>po_workers := po_workers p @ replicate (po_size p) Idle\<rparr>"

definition Enqueue :: "push_message \<Rightarrow> push_queue \<Rightarrow> (string + unit) \<times> push_queue" where
  "Enqueue m p =
     (if length (po_jobs p) < queue_cap then (Inr (), p\<lparr>po_jobs := po_jobs p @ [m]\<rparr>)
      else (Inl ''notification.Enqueue: queue full'', p))"

text \<open>A call of \<^verbatim>\<open>Enqueue\<close>, noted as its caller sees it.\<close>

definition enqueued :: "push_message \<Rightarrow> push_queue \<Rightarrow> push_queue" where
  "enqueued m p =
     (case Enqueue m p of
        (Inr _, p) \<Rightarrow> p\<lparr>po_taken := po_taken p @ [m]\<rparr>
      | (Inl _, p) \<Rightarrow> p\<lparr>po_refused := po_refused p @ [m]\<rparr>)"

text \<open>
  A worker that is idle may take a job even when it could leave: the select chooses freely. The
  stop closes the channel, and returns when every worker is gone.
\<close>

inductive pool_move :: "push_queue \<Rightarrow> push_queue \<Rightarrow> bool" where
  enqueue: "pool_move p (enqueued m p)"
| take: "\<lbrakk>i < length (po_workers p); po_workers p ! i = Idle; po_jobs p = m # js\<rbrakk>
    \<Longrightarrow> pool_move p (p\<lparr>po_workers := (po_workers p)[i := Busy m], po_jobs := js\<rparr>)"
| finish: "\<lbrakk>i < length (po_workers p); po_workers p ! i = Busy m\<rbrakk>
    \<Longrightarrow> pool_move p (p\<lparr>po_workers := (po_workers p)[i := Idle],
          po_ended := po_ended p @ [(m, is_ok (fst (sendWithRetry answers gone)))]\<rparr>)"
| leave: "\<lbrakk>i < length (po_workers p); po_workers p ! i = Idle; po_closed p \<or> po_cancelled p\<rbrakk>
    \<Longrightarrow> pool_move p (p\<lparr>po_workers := (po_workers p)[i := Gone]\<rparr>)"
| cancel: "pool_move p (p\<lparr>po_cancelled := True\<rparr>)"
| stop: "\<not> po_closed p \<Longrightarrow> pool_move p (p\<lparr>po_closed := True\<rparr>)"
| stopped: "\<lbrakk>po_closed p; list_all (\<lambda>w. w = Gone) (po_workers p)\<rbrakk>
    \<Longrightarrow> pool_move p (p\<lparr>po_stopped := True\<rparr>)"

inductive_cases pool_moveE: "pool_move p q"

fun held :: "push_worker \<Rightarrow> push_message multiset" where
  "held (Busy m) = {#m#}"
| "held _ = {#}"

definition in_hand :: "push_worker list \<Rightarrow> push_message multiset" where
  "in_hand ws = sum_list (map held ws)"

lemma in_hand_update:
  "i < length ws \<Longrightarrow> in_hand (ws[i := w]) + held (ws ! i) = in_hand ws + held w"
proof (induction ws arbitrary: i)
  case (Cons v ws)
  then show ?case
    by (cases i) (auto simp: in_hand_def ac_simps)
qed simp

definition push_pool_inv :: "push_queue \<Rightarrow> bool" where
  "push_pool_inv p \<longleftrightarrow>
     length (po_jobs p) \<le> queue_cap \<and> length (po_workers p) = po_size p \<and>
     (\<exists>started. po_taken p = started @ po_jobs p \<and> mset started = in_hand (po_workers p) + mset (map fst (po_ended p))) \<and>
     (po_stopped p \<longrightarrow> po_closed p \<and> list_all (\<lambda>w. w = Gone) (po_workers p))"

lemma all_gone_nth: "list_all (\<lambda>w. w = Gone) ws \<Longrightarrow> i < length ws \<Longrightarrow> ws ! i = Gone"
  by (simp add: list_all_length)

lemma push_pool_inv_step: "push_pool_inv p \<Longrightarrow> pool_move p q \<Longrightarrow> push_pool_inv q"
proof (elim pool_moveE)
  fix i m js
  assume inv: "push_pool_inv p" and i: "i < length (po_workers p)" "po_workers p ! i = Idle" "po_jobs p = m # js"
    and q: "q = p\<lparr>po_workers := (po_workers p)[i := Busy m], po_jobs := js\<rparr>"
  obtain started where "po_taken p = (started @ [m]) @ js" "mset started = in_hand (po_workers p) + mset (map fst (po_ended p))"
    using inv i(3) by (auto simp: push_pool_inv_def)
  moreover from this(2) have "mset (started @ [m]) = in_hand ((po_workers p)[i := Busy m]) + mset (map fst (po_ended p))"
    using in_hand_update[OF i(1), of "Busy m"] i(2) by simp
  ultimately show "push_pool_inv q"
    using inv i by (auto simp: push_pool_inv_def q dest: all_gone_nth[where i = i] intro!: exI[of _ "started @ [m]"])
next
  fix i m answers gone
  assume inv: "push_pool_inv p" and i: "i < length (po_workers p)" "po_workers p ! i = Busy m"
    and q: "q = p\<lparr>po_workers := (po_workers p)[i := Idle],
          po_ended := po_ended p @ [(m, is_ok (fst (sendWithRetry answers gone)))]\<rparr>"
  then show "push_pool_inv q"
    using in_hand_update[OF i(1), of Idle] by (auto simp: push_pool_inv_def dest: all_gone_nth[where i = i])
next
  fix i
  assume inv: "push_pool_inv p" and i: "i < length (po_workers p)" "po_workers p ! i = Idle"
    and q: "q = p\<lparr>po_workers := (po_workers p)[i := Gone]\<rparr>"
  then show "push_pool_inv q"
    using in_hand_update[OF i(1), of Gone] by (auto simp: push_pool_inv_def dest: all_gone_nth[where i = i])
qed (auto simp: push_pool_inv_def enqueued_def Enqueue_def)

interpretation push_pool: safe_system "\<lambda>p. \<exists>n. p = Start (New n)" pool_move push_pool_inv
proof
  fix p
  assume "\<exists>n. p = Start (New n)"
  moreover have "in_hand (replicate n Idle) = {#}" for n
    by (induction n) (auto simp: in_hand_def)
  ultimately show "push_pool_inv p"
    by (auto simp: push_pool_inv_def Start_def New_def)
qed (rule push_pool_inv_step)

text \<open>
  C16. At any moment of any run, what \<^verbatim>\<open>Enqueue\<close> said it took is what workers have started on, followed by
  the queue, in the order of the calls; every message started on is in the hands of one worker or
  dealt with once, and the queue holds at most 1024. So a message for which \<^verbatim>\<open>Enqueue\<close> returned no
  error is never dropped, sent twice by the pool, or overtaken by a later one in the queue.
\<close>

theorem pool_accounts_for_messages:
  assumes "reachable (\<lambda>p. \<exists>n. p = Start (New n)) pool_move p"
  shows "length (po_jobs p) \<le> 1024 \<and> length (po_workers p) = po_size p \<and>
    (\<exists>started. po_taken p = started @ po_jobs p \<and>
       mset started = in_hand (po_workers p) + mset (map fst (po_ended p)))"
  using push_pool.reachable_inv[OF assms] by (simp add: push_pool_inv_def queue_cap_def)

definition greeting :: push_message where
  "greeting = \<lparr>pm_token = ''t'', pm_title = ''hi'', pm_body = [], pm_data = []\<rparr>"

text \<open>A worker has taken the only message.\<close>

definition one_in_hand :: push_queue where
  "one_in_hand = (Start (New 1))\<lparr>po_workers := [Busy greeting], po_taken := [greeting]\<rparr>"

lemma one_in_hand_reachable: "reachable (\<lambda>p. \<exists>n. p = Start (New n)) pool_move one_in_hand"
proof -
  let ?a = "enqueued greeting (Start (New 1))"
  note defs = enqueued_def Enqueue_def Start_def New_def queue_cap_def one_in_hand_def
  have "reachable (\<lambda>p. \<exists>n. p = Start (New n)) pool_move ?a"
    by (blast intro: reachable.intros pool_move.enqueue)
  moreover have "pool_move ?a (?a\<lparr>po_workers := (po_workers ?a)[0 := Busy greeting], po_jobs := []\<rparr>)"
    by (rule pool_move.take) (simp_all add: defs)
  moreover have "?a\<lparr>po_workers := (po_workers ?a)[0 := Busy greeting], po_jobs := []\<rparr> = one_in_hand"
    by (simp add: defs)
  ultimately show ?thesis
    by (metis reachable_step)
qed

theorem pool_accounts_for_messages_witness:
  "\<exists>started. [greeting] = started @ po_jobs one_in_hand \<and> mset started = {#greeting#}"
  using pool_accounts_for_messages[OF one_in_hand_reachable]
  by (auto simp: one_in_hand_def Start_def New_def in_hand_def)

lemma stopped_step:
  "\<lbrakk>pool_move p q; list_all (\<lambda>w. w = Gone) (po_workers p)\<rbrakk> \<Longrightarrow>
   list_all (\<lambda>w. w = Gone) (po_workers q) \<and> po_ended q = po_ended p \<and> prefix (po_jobs p) (po_jobs q)"
  by (elim pool_moveE) (auto simp: enqueued_def Enqueue_def dest: all_gone_nth)

text \<open>
  When \<^verbatim>\<open>Stop\<close> has returned nothing is sent any more: messages left in the queue, and those
  \<^verbatim>\<open>Enqueue\<close> goes on taking without an error, stay there.
\<close>

theorem stop_strands_messages:
  assumes "pool_move\<^sup>*\<^sup>* p q" and "list_all (\<lambda>w. w = Gone) (po_workers p)"
  shows "po_ended q = po_ended p \<and> prefix (po_jobs p) (po_jobs q)"
proof -
  have "list_all (\<lambda>w. w = Gone) (po_workers q) \<and> po_ended q = po_ended p \<and> prefix (po_jobs p) (po_jobs q)"
    using assms
  proof (induction rule: rtranclp_induct)
    case (step q r)
    then show ?case
      using stopped_step prefix_order.trans by (metis (no_types, lifting))
  qed simp
  then show ?thesis by simp
qed

theorem stop_strands_messages_witness:
  "\<exists>p q. reachable (\<lambda>p. \<exists>n. p = Start (New n)) pool_move p \<and> po_stopped p \<and> po_jobs p = [greeting] \<and>
     fst (Enqueue greeting p) = Inr () \<and> q = enqueued greeting p \<and> po_ended q = []"
proof -
  define a where "a = enqueued greeting (Start (New 1))"
  define b where "b = a\<lparr>po_closed := True\<rparr>"
  define c where "c = b\<lparr>po_workers := (po_workers b)[0 := Gone]\<rparr>"
  define d where "d = c\<lparr>po_stopped := True\<rparr>"
  note defs = a_def b_def c_def d_def enqueued_def Enqueue_def Start_def New_def queue_cap_def
  have "reachable (\<lambda>p. \<exists>n. p = Start (New n)) pool_move a"
    unfolding a_def by (blast intro: reachable.intros pool_move.enqueue)
  moreover have "pool_move a b"
    unfolding b_def by (rule pool_move.stop) (simp add: defs)
  moreover have "pool_move b c"
    unfolding c_def by (rule pool_move.leave) (simp_all add: defs)
  moreover have "pool_move c d"
    unfolding d_def by (rule pool_move.stopped) (simp_all add: defs)
  ultimately have d: "reachable (\<lambda>p. \<exists>n. p = Start (New n)) pool_move d"
    by (metis reachable_step)
  have "pool_move\<^sup>*\<^sup>* d (enqueued greeting d)"
    by (blast intro: pool_move.enqueue)
  then have "po_ended (enqueued greeting d) = po_ended d"
    using stop_strands_messages by (simp add: defs)
  with d show ?thesis
    by (intro exI[of _ d] exI[of _ "enqueued greeting d"]) (simp add: defs)
qed

end
