(* ===== verification/InternalAuth.thy ===== *)
theory InternalAuth
  imports Middleware
begin

text \<open>
  internal/auth: the strict reader of tokens (\<^verbatim>\<open>ParseToken\<close>, HMAC-SHA256 only, errors are errors) and
  the middleware around it. No service imports the package at this commit; the gateway uses
  pkg/middleware, whose \<^verbatim>\<open>AuthMiddleware\<close> refuses nobody.

  The JWT library is a parameter as in Middleware: the algorithm a token names, and what
  verification with a key gives.
\<close>

record auth_claims =
  ac_UserID :: string
  ac_Email :: string
  ac_Role :: string
  ac_Subject :: string

text \<open>
  \<^verbatim>\<open>jwt.ParseWithClaims\<close>: given the methods allowed and the key function, an error or the decoded
  claims and \<^verbatim>\<open>token.Valid\<close>.
\<close>

type_synonym auth_lib = "string list \<Rightarrow> (string \<Rightarrow> string + string) \<Rightarrow> string \<Rightarrow> string + auth_claims \<times> bool"

text \<open>
  What its documentation promises of a valid token: it names an allowed method, the key function
  gave a key for that method, and the signature and the times were verified with that key.
\<close>

definition documented ::
  "auth_lib \<Rightarrow> (string \<Rightarrow> string option) \<Rightarrow> (string \<Rightarrow> string \<Rightarrow> auth_claims \<Rightarrow> bool) \<Rightarrow> bool" where
  "documented lib alg_of verified \<longleftrightarrow>
     (\<forall>methods kf token c. lib methods kf token = Inr (c, True) \<longrightarrow>
        (\<exists>alg key. alg_of token = Some alg \<and> alg \<in> set methods \<and> kf alg = Inr key \<and> verified token key c))"

definition auth_keyfunc :: "string \<Rightarrow> string \<Rightarrow> string + string" where
  "auth_keyfunc secret alg =
     (if alg \<noteq> ''HS256'' then Inl (''auth.ParseToken: unexpected signing method: '' @ alg) else Inr secret)"

definition ParseToken :: "auth_lib \<Rightarrow> string \<Rightarrow> string \<Rightarrow> string + auth_claims" where
  "ParseToken lib token secret =
     (case lib [''HS256''] (auth_keyfunc secret) token of
        Inl e \<Rightarrow> Inl (''auth.ParseToken: '' @ e)
      | Inr (claims, valid) \<Rightarrow>
          (if \<not> valid then Inl ''auth.ParseToken: token invalid''
           else let claims = (if ac_UserID claims = [] then claims\<lparr>ac_UserID := ac_Subject claims\<rparr> else claims)
                in if ac_UserID claims = [] then Inl ''auth.ParseToken: missing user id'' else Inr claims))"

definition bearerToken :: "string \<Rightarrow> string" where
  "bearerToken hdr =
     (if hdr = [] then []
      else case str_fields hdr of
             [scheme, token] \<Rightarrow> (if \<not> equal_fold scheme ''Bearer'' then [] else token)
           | _ \<Rightarrow> [])"

definition AuthFromHeader :: "auth_lib \<Rightarrow> string \<Rightarrow> string \<Rightarrow> string + auth_claims" where
  "AuthFromHeader lib secret hdr =
     (let token = bearerToken hdr in
      if token = [] then Inl ''missing bearer token''
      else case ParseToken lib token secret of
             Inl e \<Rightarrow> Inl (''auth.AuthFromHeader: '' @ e)
           | Inr claims \<Rightarrow> Inr claims)"

definition requestTraceID :: "int \<Rightarrow> string \<Rightarrow> string" where
  "requestTraceID nano x_request_id =
     (let traceID = trim_space x_request_id in
      if traceID \<noteq> [] then traceID else ''req_'' @ decimal nano)"

definition error_response :: "string \<Rightarrow> string \<Rightarrow> string \<Rightarrow> json" where
  "error_response code message traceID =
     JObj ([(''code'', JStr code), (''message'', JStr message)]
       @ (if traceID = [] then [] else [(''trace_id'', JStr traceID)]))"

datatype 'r wrapped = Denied nat json | Handled_by 'r

record wrapped_request =
  wq_authorization :: string
  wq_request_id :: string

definition Wrap :: "auth_lib \<Rightarrow> string \<Rightarrow> int \<Rightarrow> (auth_claims \<Rightarrow> 'r) \<Rightarrow> wrapped_request \<Rightarrow> 'r wrapped" where
  "Wrap lib secret nano next r =
     (let traceID = requestTraceID nano (wq_request_id r);
          token = bearerToken (wq_authorization r)
      in if token = [] then Denied 401 (error_response ''AUTH_001'' ''missing bearer token'' traceID)
         else case ParseToken lib token secret of
                Inl _ \<Rightarrow> Denied 401 (error_response ''AUTH_002'' ''invalid or expired token'' traceID)
              | Inr claims \<Rightarrow> Handled_by (next claims))"

section \<open>What the middleware lets through\<close>

lemma ParseToken_verified:
  assumes "documented lib alg_of verified" and "ParseToken lib token secret = Inr c"
  shows "alg_of token = Some ''HS256'' \<and> ac_UserID c \<noteq> [] \<and>
    (\<exists>v. verified token secret v \<and> c = v\<lparr>ac_UserID := ac_UserID c\<rparr>)"
proof -
  obtain v where v: "lib [''HS256''] (auth_keyfunc secret) token = Inr (v, True)"
    and c: "c = (if ac_UserID v = [] then v\<lparr>ac_UserID := ac_Subject v\<rparr> else v)" "ac_UserID c \<noteq> []"
    using assms(2) by (auto simp: ParseToken_def Let_def split: sum.splits if_splits)
  then obtain key where "alg_of token = Some ''HS256''" "auth_keyfunc secret ''HS256'' = Inr key" "verified token key v"
    using assms(1) unfolding documented_def by fastforce
  then show ?thesis
    using c by (auto simp: auth_keyfunc_def intro!: exI[of _ v])
qed

text \<open>
  The two readers of the header agree on every string, and wrapping a handler is reading the
  claims from the header and refusing with 401 on any error: the handler runs exactly for the
  requests whose header yields claims, and with those claims.
\<close>

theorem wrap_is_auth_from_header:
  "bearerToken hdr = BearerToken hdr \<and>
   (case Wrap lib secret nano next r of
      Handled_by x \<Rightarrow> (\<exists>c. AuthFromHeader lib secret (wq_authorization r) = Inr c \<and> x = next c)
    | Denied code body \<Rightarrow> code = 401 \<and> \<not> is_ok (AuthFromHeader lib secret (wq_authorization r)))"
  by (auto simp: bearerToken_def BearerToken_def Wrap_def AuthFromHeader_def Let_def
      split: sum.splits list.splits wrapped.splits if_splits)

text \<open>
  A request that reaches a wrapped handler carried a token that names HMAC-SHA256 and that the
  library verified with the secret; the handler sees the verified claims, with a user id.
\<close>

theorem wrapped_handler_is_authentic:
  assumes "documented lib alg_of verified"
    and "Wrap lib secret nano (\<lambda>c. c) r = Handled_by c"
  shows "\<exists>v. alg_of (bearerToken (wq_authorization r)) = Some ''HS256'' \<and>
    verified (bearerToken (wq_authorization r)) secret v \<and>
    ac_UserID c \<noteq> [] \<and> c = v\<lparr>ac_UserID := ac_UserID c\<rparr>"
proof -
  have "ParseToken lib (bearerToken (wq_authorization r)) secret = Inr c"
    using assms(2) by (auto simp: Wrap_def Let_def split: if_splits sum.splits)
  from ParseToken_verified[OF assms(1) this] show ?thesis
    by blast
qed

text \<open>A library that accepts one token with one key.\<close>

definition one_token :: auth_lib where
  "one_token methods kf token =
     (if token = ''good'' \<and> ''HS256'' \<in> set methods \<and> kf ''HS256'' = Inr ''key''
      then Inr (\<lparr>ac_UserID = ''42'', ac_Email = [], ac_Role = ''user'', ac_Subject = []\<rparr>, True)
      else Inl ''no'')"

lemma one_token_documented:
  "documented one_token (\<lambda>t. if t = ''good'' then Some ''HS256'' else None) (\<lambda>t k c. t = ''good'' \<and> k = ''key'')"
  by (auto simp: documented_def one_token_def split: if_splits)

theorem wrapped_handler_is_authentic_witness:
  "\<exists>c. Wrap one_token ''key'' 1 (\<lambda>c. c) \<lparr>wq_authorization = ''bearer good'', wq_request_id = []\<rparr> = Handled_by c \<and>
     ac_UserID c \<noteq> []"
proof -
  let ?r = "\<lparr>wq_authorization = ''bearer good'', wq_request_id = []\<rparr>"
  have "str_fields (''bearer'' @ CHR '' '' # ''good'') = [''bearer'', ''good'']"
    by (rule fields_two) (simp_all add: printable_def)
  then have "bearerToken ''bearer good'' = ''good''"
    by (simp add: bearerToken_def equal_fold_def kelvin_sign_def long_s_def bytes_def ascii_lower_def char_of_def bit_0)
  then obtain c where c: "Wrap one_token ''key'' 1 (\<lambda>c. c) ?r = Handled_by c"
    by (simp add: Wrap_def ParseToken_def one_token_def auth_keyfunc_def)
  show ?thesis
    using c wrapped_handler_is_authentic[OF one_token_documented c] by blast
qed

end
