(* ===== verification/Config.thy ===== *)
theory Config
  imports GoStrings
begin

text \<open>
  pkg/config/config.go: what each service reads at its start, and the small readers of addresses
  and environment variables of the services' mains (\<^verbatim>\<open>parseAddrs\<close>, \<^verbatim>\<open>firstAddr\<close>, \<^verbatim>\<open>envOr\<close>). A
  panic is \<open>Inl\<close> with its text. \<^verbatim>\<open>viper\<close> is a parameter: \<open>get defaults key\<close> is what
  \<^verbatim>\<open>GetString\<close> answers once the defaults are set.
\<close>

section \<open>Configurations\<close>

text \<open>A struct that embeds \<^verbatim>\<open>SharedConfig\<close> extends its record.\<close>

record sharedConfig =
  AppEnv :: string
  LogLevel :: string
  OtelEndpoint :: string
  PrometheusPort :: string

record gatewayConfig = sharedConfig +
  gw_Port :: string
  gw_JWTSecret :: string
  gw_RedisClusterAddrs :: string
  gw_ChatServiceAddr :: string
  gw_CallServiceAddr :: string
  gw_MediaServiceAddr :: string
  gw_PresenceServiceAddr :: string
  gw_UserServiceAddr :: string
  gw_SupabaseURL :: string
  gw_SupabaseDBURL :: string
  gw_EventBusDriver :: string

record chatConfig = sharedConfig +
  ch_PrimaryDBURL :: string
  ch_ReplicaDBURL :: string
  ch_RedisClusterAddrs :: string
  ch_EventBusDriver :: string

record callConfig = sharedConfig +
  ca_TurnSecret :: string
  ca_TurnHost :: string
  ca_LivekitURL :: string
  ca_LivekitAPIKey :: string
  ca_LivekitAPISecret :: string

record mediaConfig = sharedConfig +
  me_S3Bucket :: string
  me_S3Region :: string
  me_CloudFrontDomain :: string
  me_CloudFrontKeyPairID :: string
  me_AwsRoleArn :: string

record presenceConfig = sharedConfig +
  pr_RedisClusterAddrs :: string

record notificationConfig = sharedConfig +
  no_FCMServerKey :: string
  no_APNSTeamID :: string

record userConfig = sharedConfig +
  us_ProfileDBURL :: string

section \<open>Loading\<close>

type_synonym viper = "(string \<rightharpoonup> string) \<Rightarrow> string \<Rightarrow> string"

text \<open>The defaults \<^verbatim>\<open>loadShared\<close> sets; they stay set for the fields read afterwards.\<close>

definition shared_defaults :: "string \<rightharpoonup> string" where
  "shared_defaults =
     [''APP_ENV'' \<mapsto> ''production'', ''LOG_LEVEL'' \<mapsto> ''info'',
      ''OTEL_EXPORTER_JAEGER_ENDPOINT'' \<mapsto> ''http://jaeger:14268/api/traces'',
      ''PROMETHEUS_PORT'' \<mapsto> ''9090'']"

definition loadShared :: "viper \<Rightarrow> sharedConfig" where
  "loadShared get =
     \<lparr>AppEnv = get shared_defaults ''APP_ENV'', LogLevel = get shared_defaults ''LOG_LEVEL'',
      OtelEndpoint = get shared_defaults ''OTEL_EXPORTER_JAEGER_ENDPOINT'',
      PrometheusPort = get shared_defaults ''PROMETHEUS_PORT''\<rparr>"

definition cannot_be_empty :: "string \<Rightarrow> string" where
  "cannot_be_empty name = ''config: '' @ name @ '' cannot be empty''"

text \<open>\<open>assertNonEmpty name value k\<close> panics, or goes on with \<open>k\<close>.\<close>

definition assertNonEmpty :: "string \<Rightarrow> string \<Rightarrow> (string + 'a) \<Rightarrow> (string + 'a)" where
  "assertNonEmpty name value k =
     (if trim_space value = [] then Inl (cannot_be_empty name) else k)"

definition LoadGatewayConfig :: "viper \<Rightarrow> string + gatewayConfig" where
  "LoadGatewayConfig get =
     (let v = get shared_defaults;
          cfg = sharedConfig.extend (loadShared get)
            (gatewayConfig.fields (v ''GATEWAY_PORT'') (v ''JWT_SECRET'') (v ''REDIS_CLUSTER_ADDRS'')
              (v ''CHAT_SERVICE_ADDR'') (v ''CALL_SERVICE_ADDR'') (v ''MEDIA_SERVICE_ADDR'')
              (v ''PRESENCE_SERVICE_ADDR'') (v ''USER_SERVICE_ADDR'') (v ''SUPABASE_URL'')
              (v ''SUPABASE_DB_URL'') (v ''EVENT_BUS_DRIVER''))
      in assertNonEmpty ''GATEWAY_PORT'' (gw_Port cfg)
        (assertNonEmpty ''JWT_SECRET'' (gw_JWTSecret cfg)
        (assertNonEmpty ''REDIS_CLUSTER_ADDRS'' (gw_RedisClusterAddrs cfg)
        (assertNonEmpty ''CHAT_SERVICE_ADDR'' (gw_ChatServiceAddr cfg)
        (assertNonEmpty ''CALL_SERVICE_ADDR'' (gw_CallServiceAddr cfg)
        (assertNonEmpty ''MEDIA_SERVICE_ADDR'' (gw_MediaServiceAddr cfg)
        (assertNonEmpty ''PRESENCE_SERVICE_ADDR'' (gw_PresenceServiceAddr cfg)
        (assertNonEmpty ''USER_SERVICE_ADDR'' (gw_UserServiceAddr cfg)
        (assertNonEmpty ''SUPABASE_URL'' (gw_SupabaseURL cfg)
        (assertNonEmpty ''SUPABASE_DB_URL'' (gw_SupabaseDBURL cfg) (Inr cfg)))))))))))"

definition LoadChatConfig :: "viper \<Rightarrow> string + chatConfig" where
  "LoadChatConfig get =
     (let v = get shared_defaults;
          cfg = sharedConfig.extend (loadShared get)
            (chatConfig.fields (v ''DATABASE_PRIMARY_URL'') (v ''DATABASE_REPLICA_URL'')
              (v ''REDIS_CLUSTER_ADDRS'') (v ''EVENT_BUS_DRIVER''))
      in assertNonEmpty ''DATABASE_PRIMARY_URL'' (ch_PrimaryDBURL cfg)
        (assertNonEmpty ''DATABASE_REPLICA_URL'' (ch_ReplicaDBURL cfg)
        (assertNonEmpty ''REDIS_CLUSTER_ADDRS'' (ch_RedisClusterAddrs cfg) (Inr cfg))))"

definition LoadCallConfig :: "viper \<Rightarrow> string + callConfig" where
  "LoadCallConfig get =
     (let v = get shared_defaults;
          cfg = sharedConfig.extend (loadShared get)
            (callConfig.fields (v ''TURN_SECRET'') (v ''TURN_HOST'') (v ''LIVEKIT_URL'')
              (v ''LIVEKIT_API_KEY'') (v ''LIVEKIT_API_SECRET''))
      in assertNonEmpty ''TURN_SECRET'' (ca_TurnSecret cfg)
        (assertNonEmpty ''TURN_HOST'' (ca_TurnHost cfg) (Inr cfg)))"

definition LoadMediaConfig :: "viper \<Rightarrow> string + mediaConfig" where
  "LoadMediaConfig get =
     (let v = get shared_defaults;
          cfg = sharedConfig.extend (loadShared get)
            (mediaConfig.fields (v ''S3_BUCKET'') (v ''S3_REGION'') (v ''CLOUDFRONT_DOMAIN'')
              (v ''CLOUDFRONT_KEY_PAIR_ID'') (v ''AWS_ROLE_ARN''))
      in assertNonEmpty ''S3_BUCKET'' (me_S3Bucket cfg)
        (assertNonEmpty ''S3_REGION'' (me_S3Region cfg)
        (assertNonEmpty ''CLOUDFRONT_DOMAIN'' (me_CloudFrontDomain cfg) (Inr cfg))))"

definition LoadPresenceConfig :: "viper \<Rightarrow> string + presenceConfig" where
  "LoadPresenceConfig get =
     (let cfg = sharedConfig.extend (loadShared get)
            (presenceConfig.fields (get shared_defaults ''REDIS_CLUSTER_ADDRS''))
      in assertNonEmpty ''REDIS_CLUSTER_ADDRS'' (pr_RedisClusterAddrs cfg) (Inr cfg))"

definition LoadNotificationConfig :: "viper \<Rightarrow> string + notificationConfig" where
  "LoadNotificationConfig get =
     (let cfg = sharedConfig.extend (loadShared get)
            (notificationConfig.fields (get shared_defaults ''FCM_SERVER_KEY'')
              (get shared_defaults ''APNS_TEAM_ID''))
      in assertNonEmpty ''FCM_SERVER_KEY'' (no_FCMServerKey cfg) (Inr cfg))"

definition LoadUserConfig :: "viper \<Rightarrow> string + userConfig" where
  "LoadUserConfig get =
     (let cfg = sharedConfig.extend (loadShared get)
            (userConfig.fields (get shared_defaults ''PROFILE_DB_URL''))
      in assertNonEmpty ''PROFILE_DB_URL'' (us_ProfileDBURL cfg) (Inr cfg))"

section \<open>Addresses and variables\<close>

text \<open>\<open>env\<close> is the environment; \<^verbatim>\<open>os.Getenv\<close> of an unset variable is empty.\<close>

definition Getenv :: "(string \<rightharpoonup> string) \<Rightarrow> string \<Rightarrow> string" where
  "Getenv env k = (case env k of None \<Rightarrow> [] | Some v \<Rightarrow> v)"

definition envOr :: "(string \<rightharpoonup> string) \<Rightarrow> string \<Rightarrow> string \<Rightarrow> string" where
  "envOr env k d = (let v = Getenv env k in if v = [] then d else v)"

text \<open>The gateway keeps every address, the chat service the first one.\<close>

fun addrs_of :: "string list \<Rightarrow> string list" where
  "addrs_of [] = []"
| "addrs_of (p # parts) =
     (let trimmed = trim_space p in
      if trimmed \<noteq> [] then trimmed # addrs_of parts else addrs_of parts)"

definition parseAddrs :: "string \<Rightarrow> string list" where
  "parseAddrs raw = addrs_of (split_on (CHR '','') raw)"

fun first_of :: "string list \<Rightarrow> string" where
  "first_of [] = ''127.0.0.1:6379''"
| "first_of (p # parts) = (let p = trim_space p in if p \<noteq> [] then p else first_of parts)"

definition firstAddr :: "string \<Rightarrow> string" where
  "firstAddr raw = first_of (split_on (CHR '','') raw)"

text \<open>The presence service takes the first part, blank or not.\<close>

definition presence_addr :: "(string \<rightharpoonup> string) \<Rightarrow> string" where
  "presence_addr env =
     trim_space (hd (split_on (CHR '','') (envOr env ''REDIS_CLUSTER_ADDRS'' ''127.0.0.1:6379'')))"

section \<open>Lemmas\<close>

text \<open>The reference: the first blank variable of a list of required ones.\<close>

definition first_blank :: "viper \<Rightarrow> string list \<Rightarrow> string option" where
  "first_blank get names = find (\<lambda>n. trim_space (get shared_defaults n) = []) names"

definition demand :: "viper \<Rightarrow> string list \<Rightarrow> 'a \<Rightarrow> string + 'a" where
  "demand get names cfg =
     (case first_blank get names of None \<Rightarrow> Inr cfg | Some n \<Rightarrow> Inl (cannot_be_empty n))"

lemma demand_Nil: "demand get [] cfg = Inr cfg"
  by (simp add: demand_def first_blank_def)

lemma demand_Cons:
  "demand get (n # ns) cfg = assertNonEmpty n (get shared_defaults n) (demand get ns cfg)"
  by (simp add: demand_def first_blank_def assertNonEmpty_def)

lemmas demand_simps = demand_Nil demand_Cons

lemmas config_makers =
  sharedConfig.extend_def gatewayConfig.fields_def chatConfig.fields_def callConfig.fields_def
  mediaConfig.fields_def presenceConfig.fields_def notificationConfig.fields_def userConfig.fields_def

definition gateway_required :: "string list" where
  "gateway_required =
     [''GATEWAY_PORT'', ''JWT_SECRET'', ''REDIS_CLUSTER_ADDRS'', ''CHAT_SERVICE_ADDR'',
      ''CALL_SERVICE_ADDR'', ''MEDIA_SERVICE_ADDR'', ''PRESENCE_SERVICE_ADDR'', ''USER_SERVICE_ADDR'',
      ''SUPABASE_URL'', ''SUPABASE_DB_URL'']"

definition gateway_cfg :: "viper \<Rightarrow> gatewayConfig" where
  "gateway_cfg get =
     (let v = get shared_defaults in
      \<lparr>AppEnv = v ''APP_ENV'', LogLevel = v ''LOG_LEVEL'',
       OtelEndpoint = v ''OTEL_EXPORTER_JAEGER_ENDPOINT'', PrometheusPort = v ''PROMETHEUS_PORT'',
       gw_Port = v ''GATEWAY_PORT'', gw_JWTSecret = v ''JWT_SECRET'',
       gw_RedisClusterAddrs = v ''REDIS_CLUSTER_ADDRS'', gw_ChatServiceAddr = v ''CHAT_SERVICE_ADDR'',
       gw_CallServiceAddr = v ''CALL_SERVICE_ADDR'', gw_MediaServiceAddr = v ''MEDIA_SERVICE_ADDR'',
       gw_PresenceServiceAddr = v ''PRESENCE_SERVICE_ADDR'', gw_UserServiceAddr = v ''USER_SERVICE_ADDR'',
       gw_SupabaseURL = v ''SUPABASE_URL'', gw_SupabaseDBURL = v ''SUPABASE_DB_URL'',
       gw_EventBusDriver = v ''EVENT_BUS_DRIVER''\<rparr>)"

lemma addrs_of_eq: "addrs_of ps = filter (\<lambda>p. p \<noteq> []) (map trim_space ps)"
  by (induction ps) (auto simp: Let_def)

lemma first_of_addrs: "first_of ps = (case addrs_of ps of [] \<Rightarrow> ''127.0.0.1:6379'' | a # as \<Rightarrow> a)"
  by (induction ps) (auto simp: Let_def)

text \<open>A clean list of addresses survives being joined and parsed.\<close>

definition clean_addr :: "string \<Rightarrow> bool" where
  "clean_addr a \<longleftrightarrow> a \<noteq> [] \<and> trim_space a = a \<and> CHR '','' \<notin> set a"

lemma parse_join: "as \<noteq> [] \<Longrightarrow> list_all clean_addr as \<Longrightarrow> parseAddrs (join_with '','' as) = as"
  by (auto simp: parseAddrs_def split_join addrs_of_eq clean_addr_def list_all_iff filter_id_conv
      intro!: map_idI cong: map_cong)

section \<open>Properties\<close>

lemma load_gateway: "LoadGatewayConfig get = demand get gateway_required (gateway_cfg get)"
  by (simp add: LoadGatewayConfig_def gateway_cfg_def gateway_required_def loadShared_def demand_simps
      config_makers Let_def)

text \<open>What is asserted does not depend on what is loaded besides.\<close>

lemma map_demand: "map_sum id f (demand get ns cfg) = demand get ns (f cfg)"
  by (simp add: demand_def split: option.split)

lemma load_others:
  "\<exists>cfg. LoadChatConfig get = demand get [''DATABASE_PRIMARY_URL'', ''DATABASE_REPLICA_URL'', ''REDIS_CLUSTER_ADDRS''] cfg"
  "\<exists>cfg. LoadCallConfig get = demand get [''TURN_SECRET'', ''TURN_HOST''] cfg"
  "\<exists>cfg. LoadMediaConfig get = demand get [''S3_BUCKET'', ''S3_REGION'', ''CLOUDFRONT_DOMAIN''] cfg"
  "\<exists>cfg. LoadPresenceConfig get = demand get [''REDIS_CLUSTER_ADDRS''] cfg"
  "\<exists>cfg. LoadNotificationConfig get = demand get [''FCM_SERVER_KEY''] cfg"
  "\<exists>cfg. LoadUserConfig get = demand get [''PROFILE_DB_URL''] cfg"
  unfolding LoadChatConfig_def LoadCallConfig_def LoadMediaConfig_def LoadPresenceConfig_def
    LoadNotificationConfig_def LoadUserConfig_def Let_def demand_simps config_makers
  by (simp_all, (rule exI, rule refl)+)

text \<open>
  C36. The chain of assertions of every service is a search for the first blank variable of a
  list: the service panics with the name of that one, and if none is blank it starts, the gateway
  with exactly the values it read.
\<close>

theorem configs_check_first_blank:
  "LoadGatewayConfig get = demand get gateway_required (gateway_cfg get) \<and>
   map_sum id (\<lambda>_. ()) (LoadChatConfig get) =
     demand get [''DATABASE_PRIMARY_URL'', ''DATABASE_REPLICA_URL'', ''REDIS_CLUSTER_ADDRS''] () \<and>
   map_sum id (\<lambda>_. ()) (LoadCallConfig get) = demand get [''TURN_SECRET'', ''TURN_HOST''] () \<and>
   map_sum id (\<lambda>_. ()) (LoadMediaConfig get) =
     demand get [''S3_BUCKET'', ''S3_REGION'', ''CLOUDFRONT_DOMAIN''] () \<and>
   map_sum id (\<lambda>_. ()) (LoadPresenceConfig get) = demand get [''REDIS_CLUSTER_ADDRS''] () \<and>
   map_sum id (\<lambda>_. ()) (LoadNotificationConfig get) = demand get [''FCM_SERVER_KEY''] () \<and>
   map_sum id (\<lambda>_. ()) (LoadUserConfig get) = demand get [''PROFILE_DB_URL''] ()"
  using load_gateway[of get] load_others[of get] by (auto simp: map_demand)

text \<open>
  The two readers of an address list agree: the chat service dials the first address the
  gateway keeps, or the local default if there is none.
\<close>

theorem address_readers_agree:
  "firstAddr raw = (case parseAddrs raw of [] \<Rightarrow> ''127.0.0.1:6379'' | a # as \<Rightarrow> a)"
  by (simp add: firstAddr_def parseAddrs_def first_of_addrs)

end
