(* ===== verification/Logging.thy ===== *)
theory Logging
  imports GoStrings
begin

text \<open>
  pkg/logger/logger.go: the fields a request's context carries for the log lines, how they are
  merged and listed. The context is the value under the package's key, if there is one. A zap
  logger is the configuration it is built from.
\<close>

record log_fields =
  lf_TraceID :: string
  lf_SpanID :: string
  lf_UserID :: string
  lf_ServiceName :: string
  lf_LatencyMS :: int

definition no_fields :: log_fields where
  "no_fields = \<lparr>lf_TraceID = [], lf_SpanID = [], lf_UserID = [], lf_ServiceName = [], lf_LatencyMS = 0\<rparr>"

definition FieldsFromContext :: "log_fields option \<Rightarrow> log_fields" where
  "FieldsFromContext ctx = (case ctx of None \<Rightarrow> no_fields | Some f \<Rightarrow> f)"

text \<open>\<open>latency\<close> in nanoseconds.\<close>

definition log_WithContext ::
  "log_fields option \<Rightarrow> string \<Rightarrow> string \<Rightarrow> string \<Rightarrow> string \<Rightarrow> int \<Rightarrow> log_fields option" where
  "log_WithContext ctx traceID spanID userID serviceName latency =
     (let current = FieldsFromContext ctx;
          current = (if traceID \<noteq> [] then current\<lparr>lf_TraceID := traceID\<rparr> else current);
          current = (if spanID \<noteq> [] then current\<lparr>lf_SpanID := spanID\<rparr> else current);
          current = (if userID \<noteq> [] then current\<lparr>lf_UserID := userID\<rparr> else current);
          current = (if serviceName \<noteq> [] then current\<lparr>lf_ServiceName := serviceName\<rparr> else current);
          current = (if latency > 0 then current\<lparr>lf_LatencyMS := latency div 1000000\<rparr> else current)
      in Some current)"

datatype log_value = Log_string string | Log_int int

definition FieldsForLogging :: "log_fields option \<Rightarrow> (string \<times> log_value) list \<Rightarrow> (string \<times> log_value) list" where
  "FieldsForLogging ctx extra =
     (let f = FieldsFromContext ctx;
          str = (\<lambda>k v. if v \<noteq> [] then [(k, Log_string v)] else [])
      in str ''trace_id'' (lf_TraceID f) @ str ''span_id'' (lf_SpanID f)
         @ str ''service_name'' (lf_ServiceName f) @ str ''user_id'' (lf_UserID f)
         @ (if lf_LatencyMS f > 0 then [(''latency_ms'', Log_int (lf_LatencyMS f))] else []) @ extra)"

text \<open>The field of a chain of contexts: the last one given that was not empty.\<close>

fun last_given :: "string \<Rightarrow> string list \<Rightarrow> string" where
  "last_given old [] = old"
| "last_given old (v # vs) = last_given (if v \<noteq> [] then v else old) vs"

definition chain_contexts ::
  "(string \<times> string \<times> string \<times> string \<times> int) list \<Rightarrow> log_fields option \<Rightarrow> log_fields option" where
  "chain_contexts = fold (\<lambda>(t, s, u, n, l) ctx. log_WithContext ctx t s u n l)"

lemma chained_fields:
  "lf_TraceID (FieldsFromContext (chain_contexts cs ctx)) = last_given (lf_TraceID (FieldsFromContext ctx)) (map fst cs) \<and>
   lf_UserID (FieldsFromContext (chain_contexts cs ctx)) =
     last_given (lf_UserID (FieldsFromContext ctx)) (map (\<lambda>(t, s, u, n, l). u) cs)"
proof (induction cs arbitrary: ctx)
  case Nil
  then show ?case by (simp add: chain_contexts_def)
next
  case (Cons c cs)
  obtain t s u n l where c: "c = (t, s, u, n, l)"
    by (cases c) auto
  have "lf_TraceID (FieldsFromContext (log_WithContext ctx t s u n l)) =
      (if t \<noteq> [] then t else lf_TraceID (FieldsFromContext ctx))"
    "lf_UserID (FieldsFromContext (log_WithContext ctx t s u n l)) =
      (if u \<noteq> [] then u else lf_UserID (FieldsFromContext ctx))"
    by (auto simp: log_WithContext_def Let_def FieldsFromContext_def)
  then show ?case
    using Cons.IH[of "log_WithContext ctx t s u n l"] by (simp add: chain_contexts_def c)
qed

text \<open>No field is listed twice, and none is listed empty.\<close>

lemma listed_fields:
  "distinct (map fst (FieldsForLogging ctx []))"
  "(k, Log_string v) \<in> set (FieldsForLogging ctx []) \<Longrightarrow> v \<noteq> []"
  by (auto simp: FieldsForLogging_def Let_def split: if_splits)

section \<open>Loggers\<close>

text \<open>
  The configuration \<^verbatim>\<open>NewLogger\<close> builds: which of zap's two presets it starts from, and what it sets on
  top. \<open>build\<close> is zap, which may refuse.
\<close>

record zap_config =
  zc_development :: bool
  zc_encoding :: string
  zc_output_paths :: "string list"
  zc_error_output_paths :: "string list"
  zc_initial_fields :: "string \<rightharpoonup> string"
  zc_time_encoder :: string
  zc_level_encoder :: string

definition logger_config :: "string \<Rightarrow> string \<Rightarrow> zap_config" where
  "logger_config env serviceName =
     \<lparr>zc_development = equal_fold env ''development'', zc_encoding = ''json'', zc_output_paths = [''stdout''],
      zc_error_output_paths = [''stderr''], zc_initial_fields = [''service_name'' \<mapsto> serviceName],
      zc_time_encoder = ''ISO8601'', zc_level_encoder = ''lowercase''\<rparr>"

definition NewLogger :: "(zap_config \<Rightarrow> string + 'logger) \<Rightarrow> string \<Rightarrow> string \<Rightarrow> string + 'logger" where
  "NewLogger build env serviceName = build (logger_config env serviceName)"

text \<open>The logger in a context: none, a nil pointer, or one.\<close>

definition ContextWithLogger :: "'logger option \<Rightarrow> 'logger option option \<Rightarrow> 'logger option option" where
  "ContextWithLogger logger ctx = Some logger"

definition logger_FromContext :: "'logger option option \<Rightarrow> string + 'logger" where
  "logger_FromContext ctx =
     (case ctx of Some (Some logger) \<Rightarrow> Inr logger | _ \<Rightarrow> Inl ''logger not found in context'')"

lemma logger_roundtrip:
  "logger_FromContext (ContextWithLogger (Some l) ctx) = Inr l"
  "\<not> is_ok (logger_FromContext (ContextWithLogger None ctx))"
  by (simp_all add: logger_FromContext_def ContextWithLogger_def)

end
