(* ===== verification/Startup.thy ===== *)
theory Startup
  imports Config EventBus Media "HOL-Library.Sublist"
begin

text \<open>
  How the services come up and go down: the pools and the migrations of pkg/db, the Redis client
  of pkg/redis, the gRPC connections of the gateway (internal/clients) and the \<^verbatim>\<open>main\<close> functions
  of the chat, call, media, presence and user services. (The gateway's own \<^verbatim>\<open>main\<close> is in GatewayMain.)

  A process has the resources it holds open and the log of the calls it made to the outside, each
  with its answer; \<open>out log c\<close> is what the outside answers to the call \<open>c\<close> after the log. A \<^verbatim>\<open>main\<close>
  is written with its continuation, so that a deferred close stands where the code has it: it runs
  when \<^verbatim>\<open>main\<close> returns or panics, and not when \<^verbatim>\<open>log.Fatal\<close> exits.
\<close>

section \<open>Processes\<close>

text \<open>Sentinel errors the code compares with have a constructor of their own.\<close>

datatype failure = Failure string | No_change | Net_closed | Server_closed | Canceled

fun failure_text :: "failure \<Rightarrow> string" where
  "failure_text (Failure e) = e"
| "failure_text No_change = ''no change''"
| "failure_text Net_closed = ''use of closed network connection''"
| "failure_text Server_closed = ''http: Server closed''"
| "failure_text Canceled = ''context canceled''"

text \<open>What \<^verbatim>\<open>credentials.TransportCredentials\<close> the gateway makes: none, or its certificate, key and authority.\<close>

datatype credentials = Plaintext | Mutual_tls string string string

text \<open>A pool has its limits: connections, and seconds of idleness and of life.\<close>

datatype resource =
    Db_pool string nat nat nat
  | Migration string string
  | Redis_client "string list" string string
  | Grpc_conn string string credentials
  | Tcp_listener string
  | Epoll

datatype outside_call =
    New_logger string string
  | Parse_url string
  | New_pool resource
  | Ping resource
  | Migrate_new resource
  | Migrate_up resource
  | Migrate_close resource
  | Grpc_dial string string credentials
  | Listen string
  | Epoll_create
  | Consume_statuses
  | Serve_grpc string
  | Serve_http string

type_synonym call_log = "(outside_call \<times> failure option) list"

type_synonym outside = "call_log \<Rightarrow> outside_call \<Rightarrow> failure option"

record process =
  px_open :: "resource list"
  px_calls :: call_log

definition fresh_process :: process where
  "fresh_process = \<lparr>px_open = [], px_calls = []\<rparr>"

definition consult :: "outside \<Rightarrow> outside_call \<Rightarrow> process \<Rightarrow> failure option \<times> process" where
  "consult out c p = (let e = out (px_calls p) c in (e, p\<lparr>px_calls := px_calls p @ [(c, e)]\<rparr>))"

definition opened :: "resource \<Rightarrow> process \<Rightarrow> process" where
  "opened r p = p\<lparr>px_open := r # px_open p\<rparr>"

definition closed :: "resource \<Rightarrow> process \<Rightarrow> process" where
  "closed r p = p\<lparr>px_open := remove1 r (px_open p)\<rparr>"

section \<open>Pools and migrations\<close>

definition new_pool :: "string \<Rightarrow> nat \<Rightarrow> outside \<Rightarrow> string \<Rightarrow> process \<Rightarrow> (string + resource) \<times> process" where
  "new_pool who maxConns out url p =
     (case consult out (Parse_url url) p of
        (Some f, p) \<Rightarrow> (Inl (who @ '' parse config: '' @ failure_text f), p)
      | (None, p) \<Rightarrow>
          (let pool = Db_pool url maxConns (5 * 60) (30 * 60) in
           case consult out (New_pool pool) p of
             (Some f, p) \<Rightarrow> (Inl (who @ '' create: '' @ failure_text f), p)
           | (None, p) \<Rightarrow>
               (case consult out (Ping pool) (opened pool p) of
                  (Some f, p) \<Rightarrow> (Inl (who @ '' ping: '' @ failure_text f), closed pool p)
                | (None, p) \<Rightarrow> (Inr pool, p))))"

definition NewPrimaryPool :: "outside \<Rightarrow> string \<Rightarrow> process \<Rightarrow> (string + resource) \<times> process" where
  "NewPrimaryPool = new_pool ''db.NewPrimaryPool'' 25"

definition NewReplicaPool :: "outside \<Rightarrow> string \<Rightarrow> process \<Rightarrow> (string + resource) \<times> process" where
  "NewReplicaPool = new_pool ''db.NewReplicaPool'' 50"

text \<open>\<open>Migrate_close\<close> answers the second error of \<^verbatim>\<open>Close\<close>, the one the code looks at.\<close>

definition RunMigrations :: "outside \<Rightarrow> string \<Rightarrow> string \<Rightarrow> process \<Rightarrow> (string + unit) \<times> process" where
  "RunMigrations out databaseURL migrationsPath p =
     (let m = Migration (''file://'' @ migrationsPath) databaseURL in
      case consult out (Migrate_new m) p of
        (Some f, p) \<Rightarrow> (Inl (''db.RunMigrations create: '' @ failure_text f), p)
      | (None, p) \<Rightarrow>
          (case consult out (Migrate_up m) (opened m p) of
             (up, p) \<Rightarrow>
               if up \<noteq> None \<and> up \<noteq> Some No_change then
                 (Inl (''db.RunMigrations up: '' @ failure_text (the up)), closed m (snd (consult out (Migrate_close m) p)))
               else
                 (case consult out (Migrate_close m) p of
                    (Some f, p) \<Rightarrow> (Inl (''db.RunMigrations close: '' @ failure_text f), closed m p)
                  | (None, p) \<Rightarrow> (Inr (), closed m p))))"

section \<open>The Redis client\<close>

definition redis_of :: "(string \<rightharpoonup> string) \<Rightarrow> string list \<Rightarrow> resource" where
  "redis_of env addrs =
     Redis_client addrs (trim_space (Getenv env ''REDIS_USERNAME'')) (trim_space (Getenv env ''REDIS_PASSWORD''))"

text \<open>A client that does not answer stays open: there is no close on that path.\<close>

definition NewClusterClient ::
  "outside \<Rightarrow> (string \<rightharpoonup> string) \<Rightarrow> string list \<Rightarrow> process \<Rightarrow> (string + resource) \<times> process" where
  "NewClusterClient out env addrs p =
     (if addrs = [] then (Inl ''redis: addrs must not be empty'', p)
      else
        (let client = redis_of env addrs in
         case consult out (Ping client) (opened client p) of
           (Some f, p) \<Rightarrow> (Inl (''redis.NewClusterClient ping: '' @ failure_text f), p)
         | (None, p) \<Rightarrow> (Inr client, p)))"

section \<open>The gRPC connections of the gateway\<close>

text \<open>
  \<^verbatim>\<open>gobreaker\<close> and \<^verbatim>\<open>backoff\<close> are parameters. \<open>gate trip hist\<close>: what a breaker with the condition
  \<open>trip\<close> on the consecutive failures refuses a request with, after requests that ended as \<open>hist\<close>
  says; \<open>None\<close> lets it through. \<open>Retry n op s\<close> is \<^verbatim>\<open>backoff.Retry\<close> with at most \<open>n\<close> retries of
  \<open>op\<close>, which has the state \<open>s\<close>.
\<close>

type_synonym breaker = "(nat \<Rightarrow> bool) \<Rightarrow> failure option list \<Rightarrow> failure option"

type_synonym dial_state = "process \<times> resource option \<times> failure option list"

type_synonym retrier =
  "nat \<Rightarrow> (dial_state \<Rightarrow> failure option \<times> dial_state) \<Rightarrow> dial_state \<Rightarrow> failure option \<times> dial_state"

definition ReadyToTrip :: "nat \<Rightarrow> bool" where
  "ReadyToTrip consecutiveFailures \<longleftrightarrow> consecutiveFailures \<ge> 5"

definition dial_operation ::
  "outside \<Rightarrow> breaker \<Rightarrow> string \<Rightarrow> string \<Rightarrow> credentials \<Rightarrow> dial_state \<Rightarrow> failure option \<times> dial_state" where
  "dial_operation out gate name addr creds = (\<lambda>(p, conn, hist).
     (case gate ReadyToTrip hist of
        Some f \<Rightarrow> (Some f, (p, conn, hist))
      | None \<Rightarrow>
          (case consult out (Grpc_dial name addr creds) p of
             (Some f, p) \<Rightarrow> (Some f, (p, None, hist @ [Some f]))
           | (None, p) \<Rightarrow>
               (let c = Grpc_conn name addr creds in (None, (opened c p, Some c, hist @ [None]))))))"

text \<open>
  The results are the variable \<^verbatim>\<open>conn\<close> and the error of \<^verbatim>\<open>Retry\<close>, which assigns the variable. Go leaves open
  whether a variable in a return is read before or after a call beside it; here it is read after, as
  the compiler does for a variable that a closure captures.
\<close>

definition dialWithCircuit ::
  "outside \<Rightarrow> breaker \<Rightarrow> retrier \<Rightarrow> string \<Rightarrow> string \<Rightarrow> credentials \<Rightarrow> process \<Rightarrow> (resource option \<times> failure option) \<times> process" where
  "dialWithCircuit out gate Retry name addr creds p =
     (case Retry 3 (dial_operation out gate name addr creds) (p, None, []) of
        (e, (p, conn, _)) \<Rightarrow> ((conn, e), p))"

fun dial_targets ::
  "outside \<Rightarrow> breaker \<Rightarrow> retrier \<Rightarrow> credentials \<Rightarrow> (string \<times> string) list \<Rightarrow> (string \<rightharpoonup> resource) \<Rightarrow> process \<Rightarrow>
    (string + (string \<rightharpoonup> resource)) \<times> process" where
  "dial_targets out gate Retry creds [] dials p = (Inr dials, p)"
| "dial_targets out gate Retry creds ((name, addr) # targets) dials p =
     (case dialWithCircuit out gate Retry name addr creds p of
        ((_, Some f), p) \<Rightarrow> (Inl (''dial '' @ name @ '': '' @ failure_text f), p)
      | ((conn, None), p) \<Rightarrow> dial_targets out gate Retry creds targets (dials(name := conn)) p)"

definition service_targets :: "gatewayConfig \<Rightarrow> (string \<times> string) list" where
  "service_targets cfg =
     [(''chat'', gw_ChatServiceAddr cfg), (''call'', gw_CallServiceAddr cfg),
      (''media'', gw_MediaServiceAddr cfg), (''presence'', gw_PresenceServiceAddr cfg),
      (''user'', gw_UserServiceAddr cfg)]"

record clients =
  cl_Chat :: "resource option"
  cl_Call :: "resource option"
  cl_Media :: "resource option"
  cl_Presence :: "resource option"
  cl_User :: "resource option"

text \<open>\<open>targets\<close> lists the targets in the order the map iteration takes.\<close>

definition clients_New ::
  "outside \<Rightarrow> breaker \<Rightarrow> retrier \<Rightarrow> credentials \<Rightarrow> (string \<times> string) list \<Rightarrow> process \<Rightarrow> (string + clients) \<times> process" where
  "clients_New out gate Retry creds targets p =
     (case dial_targets out gate Retry creds targets (\<lambda>_. None) p of
        (Inl e, p) \<Rightarrow> (Inl e, p)
      | (Inr dials, p) \<Rightarrow>
          (Inr \<lparr>cl_Chat = dials ''chat'', cl_Call = dials ''call'', cl_Media = dials ''media'',
                cl_Presence = dials ''presence'', cl_User = dials ''user''\<rparr>, p))"

subsection \<open>What the two libraries promise\<close>

text \<open>A breaker whose condition no prefix of its history met is closed, and lets requests through.\<close>

definition failures_in_a_row :: "failure option list \<Rightarrow> nat" where
  "failures_in_a_row hist = length (takeWhile (\<lambda>e. e \<noteq> None) (rev hist))"

definition trips_on_condition :: "breaker \<Rightarrow> bool" where
  "trips_on_condition gate \<longleftrightarrow>
     (\<forall>trip hist. (\<forall>j\<le>length hist. \<not> trip (failures_in_a_row (take j hist))) \<longrightarrow> gate trip hist = None)"

text \<open>An operation is run until it succeeds or the retries are used up; the library may give up sooner.\<close>

fun attempt ::
  "nat \<Rightarrow> (dial_state \<Rightarrow> failure option \<times> dial_state) \<Rightarrow> dial_state \<Rightarrow> failure option \<times> dial_state" where
  "attempt 0 op s = op s"
| "attempt (Suc k) op s = (case op s of (None, s) \<Rightarrow> (None, s) | (Some f, s) \<Rightarrow> attempt k op s)"

definition retries_at_most :: "retrier \<Rightarrow> bool" where
  "retries_at_most Retry \<longleftrightarrow> (\<forall>n op s. \<exists>k\<le>n. Retry n op s = attempt k op s)"

lemma breaker_stays_closed: "trips_on_condition gate \<Longrightarrow> length hist < 5 \<Longrightarrow> gate ReadyToTrip hist = None"
proof -
  assume gate: "trips_on_condition gate" and short: "length hist < 5"
  have "failures_in_a_row (take j hist) < 5" for j
    using short length_takeWhile_le[of "\<lambda>e. e \<noteq> None" "rev (take j hist)"]
    by (simp add: failures_in_a_row_def)
  then show ?thesis
    using gate by (auto simp: trips_on_condition_def ReadyToTrip_def not_le)
qed

definition dialled :: "string \<Rightarrow> string \<Rightarrow> credentials \<Rightarrow> failure option list \<Rightarrow> process \<Rightarrow> process" where
  "dialled name addr creds es p =
     p\<lparr>px_calls := px_calls p @ map (Pair (Grpc_dial name addr creds)) es,
       px_open := (if last es = None then Grpc_conn name addr creds # px_open p else px_open p)\<rparr>"

lemma attempt_dials:
  assumes "trips_on_condition gate" and "length hist + k < 5"
  shows "\<exists>es. es \<noteq> [] \<and> length es \<le> Suc k \<and> None \<notin> set (butlast es) \<and>
    attempt k (dial_operation out gate name addr creds) (p, None, hist) =
      (last es, (dialled name addr creds es p, if last es = None then Some (Grpc_conn name addr creds) else None, hist @ es))"
  using assms(2)
proof (induction k arbitrary: p hist)
  case 0
  then show ?case
    using breaker_stays_closed[OF assms(1), of hist]
    by (intro exI[of _ "[out (px_calls p) (Grpc_dial name addr creds)]"])
      (auto simp: dial_operation_def consult_def Let_def dialled_def opened_def split: option.splits)
next
  case (Suc k)
  let ?e = "out (px_calls p) (Grpc_dial name addr creds)"
  have closed: "gate ReadyToTrip hist = None"
    using breaker_stays_closed[OF assms(1)] Suc.prems by simp
  show ?case
  proof (cases ?e)
    case None
    then show ?thesis
      using closed by (intro exI[of _ "[None]"])
        (simp add: dial_operation_def consult_def Let_def dialled_def opened_def)
  next
    case (Some f)
    let ?p = "p\<lparr>px_calls := px_calls p @ [(Grpc_dial name addr creds, Some f)]\<rparr>"
    obtain es where es: "es \<noteq> []" "length es \<le> Suc k" "None \<notin> set (butlast es)"
      "attempt k (dial_operation out gate name addr creds) (?p, None, hist @ [Some f]) =
        (last es, (dialled name addr creds es ?p, if last es = None then Some (Grpc_conn name addr creds) else None, (hist @ [Some f]) @ es))"
      using Suc.IH[of "hist @ [Some f]" ?p] Suc.prems by auto
    have step: "dial_operation out gate name addr creds (p, None, hist) = (Some f, (?p, None, hist @ [Some f]))"
      using closed Some by (simp add: dial_operation_def consult_def Let_def)
    show ?thesis
      using es step by (intro exI[of _ "Some f # es"]) (auto simp: dialled_def)
  qed
qed

lemma dial_tries:
  assumes "trips_on_condition gate" and "retries_at_most Retry"
  obtains es where "es \<noteq> []" and "length es \<le> 4" and "None \<notin> set (butlast es)"
    and "Retry 3 (dial_operation out gate name addr creds) (p, None, []) =
      (last es, (dialled name addr creds es p, if last es = None then Some (Grpc_conn name addr creds) else None, es))"
proof -
  obtain k where k: "k \<le> 3" "Retry 3 (dial_operation out gate name addr creds) (p, None, []) =
      attempt k (dial_operation out gate name addr creds) (p, None, [])"
    using assms(2) unfolding retries_at_most_def by blast
  then show ?thesis
    using attempt_dials[OF assms(1), of "[]" k out name addr creds p] that by auto
qed

text \<open>
  C39. The circuit breaker of a dial never opens: it is made for one dial, which is tried at most
  four times, and it trips at five failures in a row. So whatever the outside answers, between one
  and four dials are made, all but the last fail, and the last one decides.
\<close>

theorem dial_at_most_four:
  assumes "trips_on_condition gate" and "retries_at_most Retry"
  shows "\<exists>es. 1 \<le> length es \<and> length es \<le> 4 \<and> None \<notin> set (butlast es) \<and>
    dialWithCircuit out gate Retry name addr creds p =
      ((if last es = None then Some (Grpc_conn name addr creds) else None, last es), dialled name addr creds es p)"
proof -
  obtain es where "es \<noteq> []" "length es \<le> 4" "None \<notin> set (butlast es)"
    "Retry 3 (dial_operation out gate name addr creds) (p, None, []) =
      (last es, (dialled name addr creds es p, if last es = None then Some (Grpc_conn name addr creds) else None, es))"
    by (rule dial_tries[OF assms])
  then show ?thesis
    by (intro exI[of _ es]) (simp add: dialWithCircuit_def Suc_le_eq)
qed

text \<open>A breaker that never opens and the plain loop meet the two promises.\<close>

lemma plain_libraries: "trips_on_condition (\<lambda>_ _. None)" "retries_at_most attempt"
  by (auto simp: trips_on_condition_def retries_at_most_def)

lemma dial_opens:
  assumes "trips_on_condition gate" and "retries_at_most Retry"
    and "dialWithCircuit out gate Retry name addr creds p = ((conn, e), p')"
  shows "conn = (if e = None then Some (Grpc_conn name addr creds) else None)"
    and "px_open p' = (if e = None then Grpc_conn name addr creds # px_open p else px_open p)"
  by (rule dial_tries[OF assms(1,2), of out name addr creds p];
    use assms(3) in \<open>auto simp: dialWithCircuit_def dialled_def\<close>)+

definition conns_of :: "credentials \<Rightarrow> (string \<times> string) list \<Rightarrow> resource list" where
  "conns_of creds ts = rev (map (\<lambda>(n, a). Grpc_conn n a creds) ts)"

lemma dial_targets_result:
  assumes "trips_on_condition gate" and "retries_at_most Retry"
    and "dial_targets out gate Retry creds targets dials p = (r, p')"
  shows "(case r of
      Inl e \<Rightarrow> \<exists>pre. strict_prefix pre targets \<and> px_open p' = conns_of creds pre @ px_open p
    | Inr ds \<Rightarrow> ds = fold (\<lambda>(n, a) d. d(n \<mapsto> Grpc_conn n a creds)) targets dials \<and>
        px_open p' = conns_of creds targets @ px_open p)"
  using assms(3)
proof (induction targets arbitrary: dials p)
  case Nil
  then show ?case by (auto simp: conns_of_def)
next
  case (Cons t targets)
  obtain name addr conn e q where t: "t = (name, addr)" "dialWithCircuit out gate Retry name addr creds p = ((conn, e), q)"
    by (metis prod.exhaust)
  note dial = dial_opens[OF assms(1,2) t(2)]
  show ?case
  proof (cases e)
    case None
    then have rest: "dial_targets out gate Retry creds targets (dials(name \<mapsto> Grpc_conn name addr creds)) q = (r, p')"
      using Cons.prems t dial by simp
    show ?thesis
    proof (cases r)
      case (Inl m)
      then obtain pre where "strict_prefix pre targets" "px_open p' = conns_of creds pre @ px_open q"
        using Cons.IH[OF rest] by auto
      then show ?thesis
        using Inl None dial(2) t(1) by (auto simp: conns_of_def intro!: exI[of _ "t # pre"])
    qed (use Cons.IH[OF rest] None dial(2) t(1) in \<open>auto simp: conns_of_def\<close>)
  qed (use Cons.prems t dial(2) in \<open>auto simp: conns_of_def intro!: exI[of _ "[]"]\<close>)
qed

lemma fold_updates:
  "distinct (map fst ts) \<Longrightarrow> fold (\<lambda>(n, a) d. d(n \<mapsto> f n a)) ts d n =
    (case map_of ts n of None \<Rightarrow> d n | Some a \<Rightarrow> Some (f n a))"
proof (induction ts arbitrary: d)
  case (Cons t ts)
  then show ?case
    by (cases t) (auto simp: map_of_eq_None_iff image_iff split: option.splits)
qed simp

text \<open>
  Whatever order the map of targets is walked in, a \<^verbatim>\<open>Clients\<close> that is made has the connection of
  its own address for every service; if one dial fails, the connections dialled before it stay
  open and nobody has them.
\<close>

lemma clients_get_their_address:
  assumes "trips_on_condition gate" and "retries_at_most Retry"
    and "mset targets = mset (service_targets cfg)" and "clients_New out gate Retry creds targets p = (r, p')"
  shows "case r of
      Inr c \<Rightarrow> c = \<lparr>cl_Chat = Some (Grpc_conn ''chat'' (gw_ChatServiceAddr cfg) creds),
          cl_Call = Some (Grpc_conn ''call'' (gw_CallServiceAddr cfg) creds),
          cl_Media = Some (Grpc_conn ''media'' (gw_MediaServiceAddr cfg) creds),
          cl_Presence = Some (Grpc_conn ''presence'' (gw_PresenceServiceAddr cfg) creds),
          cl_User = Some (Grpc_conn ''user'' (gw_UserServiceAddr cfg) creds)\<rparr> \<and>
        px_open p' = conns_of creds targets @ px_open p
    | Inl _ \<Rightarrow> \<exists>pre. strict_prefix pre targets \<and> px_open p' = conns_of creds pre @ px_open p"
proof -
  obtain d where d: "dial_targets out gate Retry creds targets (\<lambda>_. None) p = (d, p')"
    and r: "r = map_sum id (\<lambda>dials. \<lparr>cl_Chat = dials ''chat'', cl_Call = dials ''call'', cl_Media = dials ''media'',
                cl_Presence = dials ''presence'', cl_User = dials ''user''\<rparr>) d"
    using assms(4) by (auto simp: clients_New_def split: prod.splits sum.splits)
  have names: "mset (map fst targets) = mset (map fst (service_targets cfg))"
    using assms(3) by (metis mset_map)
  have "distinct (map fst (service_targets cfg))"
    by (simp add: service_targets_def)
  then have dist: "distinct (map fst targets)"
    using names by (metis mset_eq_imp_distinct_iff)
  have same: "map_of targets = map_of (service_targets cfg)"
    using map_of_inject_set[OF dist \<open>distinct (map fst (service_targets cfg))\<close>] assms(3) by (metis set_mset_mset)
  have "fold (\<lambda>(n, a) d. d(n \<mapsto> Grpc_conn n a creds)) targets (\<lambda>_. None) n =
      map_option (\<lambda>a. Grpc_conn n a creds) (map_of (service_targets cfg) n)" for n
    unfolding fold_updates[OF dist] same by (simp split: option.splits)
  with dial_targets_result[OF assms(1,2) d] show ?thesis
    by (cases d) (simp_all add: r service_targets_def)
qed

theorem dial_at_most_four_witness:
  "trips_on_condition (\<lambda>_ _. None) \<and> retries_at_most attempt \<and>
   (let (r, p) = dialWithCircuit (\<lambda>log _. if length log < 2 then Some (Failure ''refused'') else None)
      (\<lambda>_ _. None) attempt ''chat'' ''chat:8111'' Plaintext fresh_process
    in r = (Some (Grpc_conn ''chat'' ''chat:8111'' Plaintext), None) \<and> length (px_calls p) = 3 \<and> length (px_calls p) \<le> 4)"
proof -
  let ?out = "\<lambda>log _. if length log < 2 then Some (Failure ''refused'') else None"
  obtain es where es: "1 \<le> length es \<and> length es \<le> 4 \<and> None \<notin> set (butlast es) \<and>
    dialWithCircuit ?out (\<lambda>_ _. None) attempt ''chat'' ''chat:8111'' Plaintext fresh_process =
      ((if last es = None then Some (Grpc_conn ''chat'' ''chat:8111'' Plaintext) else None, last es),
       dialled ''chat'' ''chat:8111'' Plaintext es fresh_process)"
    using dial_at_most_four[OF plain_libraries, of ?out "''chat''" "''chat:8111''" Plaintext fresh_process] by auto
  then have "length (px_calls (snd (dialWithCircuit ?out (\<lambda>_ _. None) attempt ''chat'' ''chat:8111'' Plaintext fresh_process))) \<le> 4"
    by (simp add: dialled_def fresh_process_def)
  moreover have "dialWithCircuit ?out (\<lambda>_ _. None) attempt ''chat'' ''chat:8111'' Plaintext fresh_process =
    ((Some (Grpc_conn ''chat'' ''chat:8111'' Plaintext), None),
     \<lparr>px_open = [Grpc_conn ''chat'' ''chat:8111'' Plaintext],
      px_calls = [(Grpc_dial ''chat'' ''chat:8111'' Plaintext, Some (Failure ''refused'')),
        (Grpc_dial ''chat'' ''chat:8111'' Plaintext, Some (Failure ''refused'')), (Grpc_dial ''chat'' ''chat:8111'' Plaintext, None)]\<rparr>)"
    by (simp add: dialWithCircuit_def numeral_3_eq_3 dial_operation_def consult_def fresh_process_def opened_def Let_def)
  ultimately show ?thesis
    using plain_libraries by simp
qed

section \<open>Main functions\<close>

text \<open>
  How a process ends: \<^verbatim>\<open>log.Fatal\<close> with its message, a panic, a wait that never ends, or a return
  from \<^verbatim>\<open>main\<close>; \<open>Running\<close> while nothing has told it to stop.
\<close>

datatype process_end = Fatal string | Panicked string | Stuck | Running | Returned

type_synonym main = "process \<Rightarrow> process_end \<times> process"

definition or_fatal :: "string \<Rightarrow> (string + 'a) \<times> process \<Rightarrow> ('a \<Rightarrow> main) \<Rightarrow> process_end \<times> process" where
  "or_fatal what r k = (case r of (Inl e, p) \<Rightarrow> (Fatal what, p) | (Inr a, p) \<Rightarrow> k a p)"

definition or_panic :: "(string + 'a) \<times> process \<Rightarrow> ('a \<Rightarrow> main) \<Rightarrow> process_end \<times> process" where
  "or_panic r k = (case r of (Inl e, p) \<Rightarrow> (Panicked e, p) | (Inr a, p) \<Rightarrow> k a p)"

definition deferred :: "resource \<Rightarrow> process_end \<times> process \<Rightarrow> process_end \<times> process" where
  "deferred r = (\<lambda>(x, p). case x of
      Returned \<Rightarrow> (x, closed r p) | Panicked _ \<Rightarrow> (x, closed r p) | _ \<Rightarrow> (x, p))"

definition asking :: "outside \<Rightarrow> outside_call \<Rightarrow> process \<Rightarrow> (string + unit) \<times> process" where
  "asking out c p =
     (case consult out c p of (Some f, p) \<Rightarrow> (Inl (failure_text f), p) | (None, p) \<Rightarrow> (Inr (), p))"

definition listening :: "outside \<Rightarrow> string \<Rightarrow> process \<Rightarrow> (string + resource) \<times> process" where
  "listening out port p =
     (case asking out (Listen (CHR '':'' # port)) p of
        (Inl e, p) \<Rightarrow> (Inl e, p)
      | (Inr _, p) \<Rightarrow> (let l = Tcp_listener (CHR '':'' # port) in (Inr l, opened l p)))"

text \<open>
  The two servers run in goroutines until the context is done; what happens to them meanwhile is
  \<open>events\<close>, and \<open>stops\<close> says which events end the context. Then the gRPC server is stopped, which
  closes its listener.
\<close>

datatype service_event = Signalled | Grpc_ended "failure option" | Http_ended "failure option"

definition stops_on_grpc :: "service_event \<Rightarrow> bool" where
  "stops_on_grpc ev =
     (case ev of Signalled \<Rightarrow> True | Grpc_ended (Some f) \<Rightarrow> f \<noteq> Net_closed | _ \<Rightarrow> False)"

definition stops_on_signal :: "service_event \<Rightarrow> bool" where
  "stops_on_signal ev = (case ev of Signalled \<Rightarrow> True | _ \<Rightarrow> False)"

definition serve_until ::
  "(service_event \<Rightarrow> bool) \<Rightarrow> service_event list \<Rightarrow> outside \<Rightarrow> string \<Rightarrow> string \<Rightarrow> resource \<Rightarrow> main" where
  "serve_until stops events out grpcPort httpPort lis p =
     (let p = snd (consult out (Serve_grpc (CHR '':'' # grpcPort)) p);
          p = snd (consult out (Serve_http (CHR '':'' # httpPort)) p)
      in if list_ex stops events then (Returned, closed lis p) else (Running, p))"

text \<open>services/chat-service/cmd/main.go. \<open>kafka k\<close>: the k-th try to make a Kafka producer succeeds.\<close>

definition chat_main ::
  "outside \<Rightarrow> viper \<Rightarrow> (string \<rightharpoonup> string) \<Rightarrow> (nat \<Rightarrow> bool) \<Rightarrow> service_event list \<Rightarrow> main" where
  "chat_main out get env kafka events p =
     or_panic (LoadChatConfig get, p) (\<lambda>cfg p.
     or_panic (asking out (New_logger (AppEnv cfg) ''chat-service'') p) (\<lambda>_ p.
     or_fatal ''primary db connect failed'' (NewPrimaryPool out (ch_PrimaryDBURL cfg) p) (\<lambda>primaryPool p.
     deferred primaryPool (
     or_fatal ''replica db connect failed'' (NewReplicaPool out (ch_ReplicaDBURL cfg) p) (\<lambda>replicaPool p.
     deferred replicaPool (
     or_fatal ''migrations failed''
       (RunMigrations out (ch_PrimaryDBURL cfg) (envOr env ''MIGRATIONS_PATH'' ''infra/migrations'') p) (\<lambda>_ p.
     let rdb = redis_of env [firstAddr (ch_RedisClusterAddrs cfg)] in
     or_fatal ''redis connect failed'' (asking out (Ping rdb) (opened rdb p)) (\<lambda>_ p.
     deferred rdb (
     case NewEventBus (ch_EventBusDriver cfg) True [] kafka of
       None \<Rightarrow> (Stuck, p)
     | Some bus \<Rightarrow> or_panic (bus, p) (\<lambda>_ p.
     let p = snd (consult out Consume_statuses p); grpcPort = envOr env ''CHAT_SERVICE_PORT'' ''8111'' in
     or_fatal ''grpc listen failed'' (listening out grpcPort p) (\<lambda>lis.
     serve_until stops_on_grpc events out grpcPort (envOr env ''PORT'' ''8110'') lis)))))))))))"

definition call_main :: "outside \<Rightarrow> viper \<Rightarrow> (string \<rightharpoonup> string) \<Rightarrow> service_event list \<Rightarrow> main" where
  "call_main out get env events p =
     or_panic (LoadCallConfig get, p) (\<lambda>cfg p.
     let grpcPort = envOr env ''CALL_SERVICE_PORT'' ''8211'' in
     or_panic (listening out grpcPort p) (\<lambda>lis.
     serve_until stops_on_signal events out grpcPort (envOr env ''PORT'' ''8210'') lis))"

definition media_db_url :: "(string \<rightharpoonup> string) \<Rightarrow> string" where
  "media_db_url env =
     (let dbURL = Getenv env ''DATABASE_PRIMARY_URL'' in
      if dbURL = [] then Getenv env ''SUPABASE_DB_URL'' else dbURL)"

definition media_settings :: "(string \<rightharpoonup> string) \<Rightarrow> media_service" where
  "media_settings env =
     \<lparr>md_bucket = envOr env ''S3_BUCKET'' ''local-bucket'', md_region = envOr env ''S3_REGION'' ''ap-northeast-1'',
      md_accessKeyID = Getenv env ''AWS_ACCESS_KEY_ID'', md_secretKey = Getenv env ''AWS_SECRET_ACCESS_KEY'',
      md_has_repo = True\<rparr>"

definition media_main :: "outside \<Rightarrow> (string \<rightharpoonup> string) \<Rightarrow> service_event list \<Rightarrow> main" where
  "media_main out env events p =
     (if media_db_url env = [] then (Panicked ''DATABASE_PRIMARY_URL or SUPABASE_DB_URL required'', p)
      else
        or_panic (NewPrimaryPool out (media_db_url env) p) (\<lambda>pool p.
        deferred pool (
        let grpcPort = envOr env ''MEDIA_SERVICE_PORT'' ''8311'' in
        or_panic (listening out grpcPort p) (\<lambda>lis.
        serve_until stops_on_grpc events out grpcPort (envOr env ''PORT'' ''8310'') lis))))"

definition presence_main :: "outside \<Rightarrow> (string \<rightharpoonup> string) \<Rightarrow> service_event list \<Rightarrow> main" where
  "presence_main out env events p =
     (let client = redis_of env [presence_addr env] in
      or_panic (asking out (Ping client) (opened client p)) (\<lambda>_ p.
      deferred client (
      let grpcPort = envOr env ''PRESENCE_SERVICE_PORT'' ''8411'' in
      or_panic (listening out grpcPort p) (\<lambda>lis.
      serve_until stops_on_grpc events out grpcPort (envOr env ''PORT'' ''8410'') lis))))"

definition user_main :: "outside \<Rightarrow> viper \<Rightarrow> (string \<rightharpoonup> string) \<Rightarrow> service_event list \<Rightarrow> main" where
  "user_main out get env events p =
     or_panic (LoadUserConfig get, p) (\<lambda>cfg p.
     or_panic (NewPrimaryPool out (us_ProfileDBURL cfg) p) (\<lambda>pool p.
     deferred pool (
     let grpcPort = envOr env ''USER_SERVICE_PORT'' ''8611'' in
     or_panic (listening out grpcPort p) (\<lambda>lis.
     serve_until stops_on_signal events out grpcPort (envOr env ''PORT'' ''8610'') lis))))"

text \<open>The notification service has no dependency and no gRPC server; every answer of it names the service.\<close>

definition notification_main :: "outside \<Rightarrow> (string \<rightharpoonup> string) \<Rightarrow> service_event list \<Rightarrow> main" where
  "notification_main out env events p =
     (let p = snd (consult out (Serve_http (CHR '':'' # envOr env ''PORT'' ''8510'')) p)
      in if list_ex stops_on_signal events then (Returned, p) else (Running, p))"

definition addHeaders ::
  "string \<Rightarrow> ('request \<Rightarrow> header \<Rightarrow> 'answer \<times> header) \<Rightarrow> 'request \<Rightarrow> header \<Rightarrow> 'answer \<times> header" where
  "addHeaders service handler r h = handler r (h(''X-Service-Name'' := [service]))"

section \<open>What a main function did\<close>

text \<open>
  The calls before serving must be answered without an error, where a migration that had nothing
  to do counts as none; what the consumers and the servers come to is not waited for.
\<close>

definition call_fine :: "outside_call \<times> failure option \<Rightarrow> bool" where
  "call_fine = (\<lambda>(c, e). case c of
      Serve_grpc _ \<Rightarrow> True | Serve_http _ \<Rightarrow> True | Consume_statuses \<Rightarrow> True
    | Migrate_up _ \<Rightarrow> e = None \<or> e = Some No_change
    | _ \<Rightarrow> e = None)"

definition serves :: "process_end \<Rightarrow> bool" where
  "serves x \<longleftrightarrow> x = Running \<or> x = Returned"

text \<open>\<open>got_through cs p r\<close>: from \<open>p\<close>, an operation with the result \<open>r\<close> made a prefix of the calls \<open>cs\<close>,
  and all of them, each fine, if it has a value. \<open>ran_through\<close> says it of the rest of a main function.\<close>

definition got_through :: "outside_call list \<Rightarrow> process \<Rightarrow> (string + 'a) \<times> process \<Rightarrow> bool" where
  "got_through cs p = (\<lambda>(r, q). \<exists>log. px_calls q = px_calls p @ log \<and> prefix (map fst log) cs \<and>
     (is_ok r \<longrightarrow> map fst log = cs \<and> list_all call_fine log))"

definition ran_through :: "outside_call list \<Rightarrow> process \<Rightarrow> process_end \<times> process \<Rightarrow> bool" where
  "ran_through cs p = (\<lambda>(x, q). \<exists>log. px_calls q = px_calls p @ log \<and>
     (if serves x then map fst log = cs \<and> list_all call_fine log else strict_prefix (map fst log) cs))"

named_theorems main_rules \<comment> \<open>how the operations and the parts of a main function go through their calls\<close>

lemma got_through_Inr: "got_through cs p (Inr a, q) \<Longrightarrow>
   \<exists>log. px_calls q = px_calls p @ log \<and> map fst log = cs \<and> list_all call_fine log"
  by (auto simp: got_through_def)

lemma ran_through_append:
  assumes "px_calls q = px_calls p @ log" and "map fst log = cs" and "list_all call_fine log" and "ran_through ds q r"
  shows "ran_through (cs @ ds) p r"
  using assms by (auto simp: ran_through_def strict_prefix_def split: prod.splits if_splits intro!: exI[of _ "log @ _"])

lemma stopped_short:
  assumes "got_through cs p (Inl e, q)" and "ds \<noteq> []" and "\<not> serves x"
  shows "ran_through (cs @ ds) p (x, q)"
proof -
  obtain log where "px_calls q = px_calls p @ log" "prefix (map fst log) cs"
    using assms(1) by (auto simp: got_through_def)
  then show ?thesis
    using assms(2,3) by (auto simp: ran_through_def strict_prefix_def prefix_def)
qed

lemma or_fatal_ran [main_rules]:
  assumes "got_through cs p r" and "ds \<noteq> []" and "\<And>a q. ran_through ds q (k a q)"
  shows "ran_through (cs @ ds) p (or_fatal what r k)"
proof (cases r)
  case (Pair v q)
  with assms show ?thesis
    by (cases v) (auto simp: or_fatal_def serves_def intro!: stopped_short dest!: got_through_Inr intro: ran_through_append)
qed

lemma or_panic_ran [main_rules]:
  assumes "got_through cs p r" and "ds \<noteq> []" and "\<And>a q. ran_through ds q (k a q)"
  shows "ran_through (cs @ ds) p (or_panic r k)"
proof (cases r)
  case (Pair v q)
  with assms show ?thesis
    by (cases v) (auto simp: or_panic_def serves_def intro!: stopped_short dest!: got_through_Inr intro: ran_through_append)
qed

lemma deferred_ran [main_rules]: "ran_through cs p r \<Longrightarrow> ran_through cs p (deferred x r)"
  by (auto simp: ran_through_def deferred_def closed_def split: process_end.splits)

lemma asking_got [main_rules]:
  "(\<And>e. call_fine (c, e) \<longleftrightarrow> e = None) \<Longrightarrow> got_through [c] p (asking out c p)"
  by (auto simp: got_through_def asking_def consult_def Let_def split: option.splits)

lemma asking_opened_got [main_rules]:
  "(\<And>e. call_fine (c, e) \<longleftrightarrow> e = None) \<Longrightarrow> got_through [c] p (asking out c (opened r p))"
  by (auto simp: got_through_def asking_def consult_def opened_def Let_def split: option.splits)

lemma listening_got [main_rules]: "got_through [Listen (CHR '':'' # port)] p (listening out port p)"
  by (auto simp: got_through_def listening_def asking_def consult_def opened_def call_fine_def Let_def split: option.splits)

lemma consuming_got [main_rules]:
  "got_through [Consume_statuses, Listen (CHR '':'' # port)] p (listening out port (snd (consult out Consume_statuses p)))"
  by (auto simp: got_through_def listening_def asking_def consult_def opened_def call_fine_def Let_def split: option.splits)

lemma pool_got [main_rules]:
  "got_through [Parse_url url, New_pool (Db_pool url n 300 1800), Ping (Db_pool url n 300 1800)] p (new_pool who n out url p)"
  by (auto simp: got_through_def new_pool_def consult_def opened_def closed_def call_fine_def Let_def split: option.splits)

lemma migrations_got [main_rules]:
  "got_through [Migrate_new (Migration (''file://'' @ path) url), Migrate_up (Migration (''file://'' @ path) url),
     Migrate_close (Migration (''file://'' @ path) url)] p (RunMigrations out url path p)"
  by (auto simp: got_through_def RunMigrations_def consult_def opened_def closed_def call_fine_def Let_def split: option.splits)

lemma serve_ran [main_rules]:
  "ran_through [Serve_grpc (CHR '':'' # g), Serve_http (CHR '':'' # h)] p (serve_until stops events out g h lis p)"
  by (simp add: ran_through_def serve_until_def consult_def closed_def call_fine_def serves_def Let_def)

lemma failed_ran: "cs \<noteq> [] \<Longrightarrow> \<not> serves x \<Longrightarrow> ran_through cs p (x, p)"
  by (simp add: ran_through_def strict_prefix_def)

lemma bus_ran [main_rules]:
  assumes "cs \<noteq> []" and "\<And>b. ran_through cs p (k b)"
  shows "ran_through cs p (case bus of None \<Rightarrow> (Stuck, p) | Some b \<Rightarrow> k b)"
  using assms by (auto simp: failed_ran serves_def split: option.split)

lemma value_got [main_rules]: "got_through [] p (v, p)"
  by (simp add: got_through_def)

definition chat_sequence :: "chatConfig \<Rightarrow> (string \<rightharpoonup> string) \<Rightarrow> outside_call list" where
  "chat_sequence cfg env =
     (let primary = Db_pool (ch_PrimaryDBURL cfg) 25 300 1800; replica = Db_pool (ch_ReplicaDBURL cfg) 50 300 1800;
          m = Migration (''file://'' @ envOr env ''MIGRATIONS_PATH'' ''infra/migrations'') (ch_PrimaryDBURL cfg);
          rdb = redis_of env [firstAddr (ch_RedisClusterAddrs cfg)]; 
          grpc = CHR '':'' # envOr env ''CHAT_SERVICE_PORT'' ''8111''
      in [New_logger (AppEnv cfg) ''chat-service''] @
         [Parse_url (ch_PrimaryDBURL cfg), New_pool primary, Ping primary] @
         [Parse_url (ch_ReplicaDBURL cfg), New_pool replica, Ping replica] @
         [Migrate_new m, Migrate_up m, Migrate_close m] @
         [Ping rdb] @ [] @ [Consume_statuses, Listen grpc] @ [Serve_grpc grpc, Serve_http (CHR '':'' # envOr env ''PORT'' ''8110'')])"

lemma chat_ran:
  assumes "LoadChatConfig get = Inr cfg"
  shows "ran_through (chat_sequence cfg env) p (chat_main out get env kafka events p)"
  unfolding chat_main_def chat_sequence_def Let_def assms or_panic_def[of "(Inr _, _)"] prod.case sum.case
   NewPrimaryPool_def NewReplicaPool_def
  by (intro main_rules) (simp_all add: call_fine_def)

text \<open>
  C37. The chat service serves last: its calls are a beginning of one fixed sequence, which ends with
  the two servers, and it comes to serving exactly if it made them all, with no error but that of a
  migration that had nothing to do. So no request is served before both databases answered, the
  migrations ran and Redis answered. A configuration that does not load is a panic before any call.
\<close>

theorem chat_serves_last:
  "case chat_main out get env kafka events fresh_process of (x, p) \<Rightarrow>
     (case LoadChatConfig get of
        Inl e \<Rightarrow> x = Panicked e \<and> p = fresh_process
      | Inr cfg \<Rightarrow>
          if x = Running \<or> x = Returned
          then map fst (px_calls p) = chat_sequence cfg env \<and> list_all call_fine (px_calls p)
          else strict_prefix (map fst (px_calls p)) (chat_sequence cfg env))"
proof (cases "LoadChatConfig get")
  case (Inr cfg)
  then show ?thesis
    using chat_ran[OF Inr, of env fresh_process out kafka events]
    by (auto simp: ran_through_def serves_def fresh_process_def split: prod.splits)
qed (simp add: chat_main_def or_panic_def)

section \<open>What a main function leaves open\<close>

text \<open>
  \<open>cleaned rs r\<close>: a return or a panic leaves open what was open before, \<open>rs\<close>; a fatal exit, like a
  process that runs on, may leave more.
\<close>

definition cleaned :: "resource list \<Rightarrow> process_end \<times> process \<Rightarrow> bool" where
  "cleaned rs r = (case fst r of
      Returned \<Rightarrow> px_open (snd r) = rs | Panicked _ \<Rightarrow> px_open (snd r) = rs | _ \<Rightarrow> suffix rs (px_open (snd r)))"

definition acquired :: "resource list \<Rightarrow> (string + resource) \<times> process \<Rightarrow> bool" where
  "acquired rs = (\<lambda>(v, q). px_open q = (case v of Inl _ \<Rightarrow> rs | Inr r \<Rightarrow> r # rs))"

definition kept :: "resource list \<Rightarrow> (string + unit) \<times> process \<Rightarrow> bool" where
  "kept rs r \<longleftrightarrow> px_open (snd r) = rs"

named_theorems clean_rules \<comment> \<open>how the parts of a main function close what they opened\<close>

lemma acquired_ops [clean_rules]:
  "px_open p = rs \<Longrightarrow> acquired rs (new_pool who n out url p)"
  "px_open p = rs \<Longrightarrow> acquired rs (listening out port p)"
  "px_open p = rs \<Longrightarrow> acquired rs (listening out port (snd (consult out c p)))"
  by (auto simp: acquired_def new_pool_def listening_def asking_def consult_def opened_def closed_def Let_def split: option.splits)

lemma or_fatal_clean [clean_rules]:
  "acquired rs r \<Longrightarrow> (\<And>a q. px_open q = a # rs \<Longrightarrow> cleaned rs (k a q)) \<Longrightarrow> cleaned rs (or_fatal what r k)"
  by (auto simp: or_fatal_def acquired_def cleaned_def split: prod.split sum.splits)

lemma or_panic_clean [clean_rules]:
  "acquired rs r \<Longrightarrow> (\<And>a q. px_open q = a # rs \<Longrightarrow> cleaned rs (k a q)) \<Longrightarrow> cleaned rs (or_panic r k)"
  by (auto simp: or_panic_def acquired_def cleaned_def split: prod.split sum.splits)

lemma deferred_clean [clean_rules]: "cleaned (a # rs) r \<Longrightarrow> cleaned rs (deferred a r)"
  by (cases r) (auto simp: cleaned_def deferred_def closed_def dest: suffix_ConsD split: process_end.splits)

lemma serve_clean [clean_rules]: "px_open q = lis # rs \<Longrightarrow> cleaned rs (serve_until stops events out g h lis q)"
  by (auto simp: cleaned_def serve_until_def consult_def closed_def Let_def suffix_def)

lemma kept_ops [clean_rules]:
  "px_open p = rs \<Longrightarrow> kept rs (asking out c p)"
  "px_open p = rs \<Longrightarrow> kept (a # rs) (asking out c (opened a p))"
  "px_open p = rs \<Longrightarrow> kept rs (RunMigrations out url path p)"
  by (auto simp: kept_def asking_def RunMigrations_def consult_def opened_def closed_def Let_def split: option.splits)

lemma or_panic_kept [clean_rules]:
  assumes "kept rs r" and "\<And>a q. px_open q = rs \<Longrightarrow> cleaned rs (k a q)"
  shows "cleaned rs (or_panic r k)"
proof (cases r)
  case (Pair v q)
  then show ?thesis
    using assms(1) assms(2)[of q] by (cases v) (simp_all add: kept_def or_panic_def, simp add: cleaned_def)
qed

lemma or_fatal_kept [clean_rules]:
  assumes "kept os r" and "suffix rs os" and "\<And>a q. px_open q = os \<Longrightarrow> cleaned rs (k a q)"
  shows "cleaned rs (or_fatal what r k)"
proof (cases r)
  case (Pair v q)
  then show ?thesis
    using assms(1,2) assms(3)[of q] by (cases v) (simp_all add: kept_def or_fatal_def, simp add: cleaned_def)
qed

lemma bus_clean [clean_rules]:
  assumes "px_open p = rs" and "\<And>b. cleaned rs (k b)"
  shows "cleaned rs (case bus of None \<Rightarrow> (Stuck, p) | Some b \<Rightarrow> k b)"
  using assms by (simp add: cleaned_def split: option.split)

lemma value_clean [clean_rules]:
  "px_open p = rs \<Longrightarrow> (\<And>a q. px_open q = rs \<Longrightarrow> cleaned rs (k a q)) \<Longrightarrow> cleaned rs (or_panic (v, p) k)"
  by (simp add: cleaned_def or_panic_def split: sum.split)

lemmas suffix_rules [clean_rules] = suffix_order.refl suffix_ConsI[OF suffix_order.refl]

lemma pools_are_new_pool: "NewPrimaryPool = new_pool ''db.NewPrimaryPool'' 25" "NewReplicaPool = new_pool ''db.NewReplicaPool'' 50"
  by (simp_all add: NewPrimaryPool_def NewReplicaPool_def)

lemma user_clean: "px_open p = rs \<Longrightarrow> cleaned rs (user_main out get env events p)"
  unfolding user_main_def Let_def pools_are_new_pool by (assumption | rule clean_rules)+

lemma call_clean: "px_open p = rs \<Longrightarrow> cleaned rs (call_main out get env events p)"
  unfolding call_main_def Let_def by (assumption | rule clean_rules)+

lemma media_clean: "px_open p = rs \<Longrightarrow> media_db_url env \<noteq> [] \<Longrightarrow> cleaned rs (media_main out env events p)"
  unfolding media_main_def Let_def pools_are_new_pool by simp (assumption | rule clean_rules)+

lemma chat_clean: "px_open p = rs \<Longrightarrow> cleaned rs (chat_main out get env kafka events p)"
  unfolding chat_main_def Let_def pools_are_new_pool by (assumption | rule clean_rules)+

text \<open>
  Every service that returns or panics has closed what it opened. The exception is the presence
  service, whose client is deferred after the ping: if Redis does not answer, it stays open.
\<close>

lemma presence_clean:
  "if out [] (Ping (redis_of env [presence_addr env])) = None then cleaned [] (presence_main out env events fresh_process)
   else px_open (snd (presence_main out env events fresh_process)) = [redis_of env [presence_addr env]]"
proof (cases "out [] (Ping (redis_of env [presence_addr env]))")
  case None
  let ?c = "redis_of env [presence_addr env]"
  have "cleaned [] (deferred ?c
      (or_panic (listening out port q) (\<lambda>lis. serve_until stops_on_grpc events out port http lis)))"
    if "px_open q = [?c]" for q port http
    by (assumption | rule clean_rules that)+
  with None show ?thesis
    by (simp add: presence_main_def Let_def or_panic_def[of "(Inr (), _)"] asking_def consult_def opened_def fresh_process_def)
qed (simp add: presence_main_def Let_def or_panic_def asking_def consult_def opened_def fresh_process_def)

lemma services_clean_up:
  "cleaned [] (chat_main out get env kafka events fresh_process)"
  "cleaned [] (call_main out get env events fresh_process)"
  "cleaned [] (media_main out env events fresh_process)"
  "cleaned [] (user_main out get env events fresh_process)"
  "cleaned [] (notification_main out env events fresh_process)"
proof -
  have fresh: "px_open fresh_process = []"
    by (simp add: fresh_process_def)
  then show "cleaned [] (chat_main out get env kafka events fresh_process)"
    "cleaned [] (call_main out get env events fresh_process)"
    "cleaned [] (user_main out get env events fresh_process)"
    by (auto intro: chat_clean call_clean user_clean)
  show "cleaned [] (notification_main out env events fresh_process)"
    by (simp add: notification_main_def cleaned_def consult_def fresh_process_def Let_def)
  show "cleaned [] (media_main out env events fresh_process)"
  proof (cases "media_db_url env = []")
    case True
    then show ?thesis
      by (simp add: media_main_def cleaned_def fresh_process_def)
  qed (use fresh in \<open>rule media_clean\<close>)
qed

end
