(* ===== verification/GatewayMain.thy ===== *)
theory GatewayMain
  imports Startup GatewayHub
begin

text \<open>
  services/api-gateway/cmd/main.go: the gateway comes up by dialling what it depends on, runs the hub
  and the HTTP server, and goes down by closing the epoll descriptor and waiting for the hub. The
  credentials it dials with come from three variables.
\<close>

section \<open>Credentials\<close>

text \<open>
  \<open>keypair cert key\<close> is the error of \<^verbatim>\<open>tls.X509KeyPair\<close>, \<open>appends ca\<close> whether the pool took a
  certificate from the text.
\<close>

definition loadMTLSCredentials ::
  "(string \<rightharpoonup> string) \<Rightarrow> (string \<Rightarrow> string \<Rightarrow> failure option) \<Rightarrow> (string \<Rightarrow> bool) \<Rightarrow> string + credentials" where
  "loadMTLSCredentials env keypair appends =
     (let certPEM = Getenv env ''MTLS_CLIENT_CERT'';
          keyPEM = Getenv env ''MTLS_CLIENT_KEY'';
          caPEM = Getenv env ''MTLS_CA_CERT''
      in if certPEM = [] \<or> keyPEM = [] \<or> caPEM = [] then Inr Plaintext
         else (case keypair certPEM keyPEM of
             Some f \<Rightarrow> Inl (failure_text f)
           | None \<Rightarrow>
               if \<not> appends caPEM then Inl ''failed to append ca cert''
               else Inr (Mutual_tls certPEM keyPEM caPEM)))"

section \<open>Main\<close>

definition new_epoll :: "outside \<Rightarrow> process \<Rightarrow> (string + resource) \<times> process" where
  "new_epoll out p =
     (case consult out Epoll_create p of
        (Some f, p) \<Rightarrow> (Inl (''epoll create: '' @ failure_text f), p)
      | (None, p) \<Rightarrow> (Inr Epoll, opened Epoll p))"

text \<open>The end of the HTTP server cancels the context, unless it was closed.\<close>

definition stops_gateway :: "service_event \<Rightarrow> bool" where
  "stops_gateway ev =
     (case ev of Signalled \<Rightarrow> True | Http_ended (Some f) \<Rightarrow> f \<noteq> Server_closed | _ \<Rightarrow> False)"

text \<open>
  The outside of the gateway: \<open>order\<close> is the order the map of targets is walked in, and \<open>hub\<close> the
  state the hub's goroutine has come to when \<^verbatim>\<open>main\<close> waits for it.
\<close>

record gateway_site =
  gs_out :: outside
  gs_get :: viper
  gs_env :: "string \<rightharpoonup> string"
  gs_gate :: breaker
  gs_Retry :: retrier
  gs_order :: "(string \<times> string) list \<Rightarrow> (string \<times> string) list"
  gs_keypair :: "string \<Rightarrow> string \<Rightarrow> failure option"
  gs_appends :: "string \<Rightarrow> bool"
  gs_kafka :: "nat \<Rightarrow> bool"

definition shut_down :: "hub \<Rightarrow> main" where
  "shut_down hub p =
     (let p = closed Epoll p in if h_run hub = Stopped then (Returned, p) else (Stuck, p))"

definition gateway_main :: "gateway_site \<Rightarrow> service_event list \<Rightarrow> hub \<Rightarrow> main" where
  "gateway_main site events hub p =
     (let out = gs_out site; env = gs_env site in
      or_panic (LoadGatewayConfig (gs_get site), p) (\<lambda>cfg p.
      or_panic (asking out (New_logger (AppEnv cfg) ''api-gateway'') p) (\<lambda>_ p.
      or_fatal ''redis connect failed'' (NewClusterClient out env (parseAddrs (gw_RedisClusterAddrs cfg)) p) (\<lambda>_ p.
      case NewEventBus (gw_EventBusDriver cfg) True [] (gs_kafka site) of
        None \<Rightarrow> (Stuck, p)
      | Some bus \<Rightarrow> or_panic (bus, p) (\<lambda>_ p.
      or_fatal ''db pool'' (NewPrimaryPool out (gw_SupabaseDBURL cfg) p) (\<lambda>dbPool p.
      deferred dbPool (
      or_fatal ''mtls creds'' (loadMTLSCredentials env (gs_keypair site) (gs_appends site), p) (\<lambda>creds p.
      or_fatal ''grpc clients''
        (clients_New out (gs_gate site) (gs_Retry site) creds (gs_order site (service_targets cfg)) p) (\<lambda>_ p.
      or_fatal ''new hub'' (new_epoll out p) (\<lambda>_ p.
      let p = snd (consult out (Serve_http (CHR '':'' # gw_Port cfg)) p) in
      if list_ex stops_gateway events then shut_down hub p else (Running, p)))))))))))"

section \<open>Lemmas\<close>

text \<open>
  The credentials of the connections: with one of the three variables unset the gateway dials in
  plaintext, without an error; with all three set it never does.
\<close>

lemma plaintext_iff_incomplete:
  "loadMTLSCredentials env keypair appends = Inr Plaintext \<longleftrightarrow>
     Getenv env ''MTLS_CLIENT_CERT'' = [] \<or> Getenv env ''MTLS_CLIENT_KEY'' = [] \<or> Getenv env ''MTLS_CA_CERT'' = []"
  by (simp add: loadMTLSCredentials_def Let_def split: option.split)

lemma returned_after_hub:
  "fst (gateway_main site events hub p) = Returned \<Longrightarrow> h_run hub = Stopped \<and> list_ex stops_gateway events"
  by (auto simp: gateway_main_def Let_def or_panic_def or_fatal_def deferred_def shut_down_def
      split: prod.splits sum.splits option.splits if_splits process_end.splits)

text \<open>
  A gateway that returns has closed its pool, its epoll descriptor and no more: the Redis client and
  the five connections stay open, all of them with the credentials that were loaded.
\<close>

lemma acquired_opens:
  "NewClusterClient out env addrs p = (Inr r, q) \<Longrightarrow> px_open q = r # px_open p \<and> r = redis_of env addrs"
  "NewPrimaryPool out url p = (Inr r, q) \<Longrightarrow> px_open q = r # px_open p"
  "new_epoll out p = (Inr r, q) \<Longrightarrow> px_open q = Epoll # px_open p"
  "asking out c p = (v, q) \<Longrightarrow> px_open q = px_open p"
  "px_open (snd (consult out c p)) = px_open p"
  by (auto simp: NewClusterClient_def NewPrimaryPool_def new_pool_def new_epoll_def asking_def consult_def opened_def
      closed_def Let_def split: option.splits if_splits)

lemma gateway_leaves_open:
  assumes "trips_on_condition (gs_gate site)" and "retries_at_most (gs_Retry site)"
    and order: "\<And>ts. mset (gs_order site ts) = mset ts"
    and "gateway_main site events hub fresh_process = (Returned, p)"
  obtains cfg creds targets where "LoadGatewayConfig (gs_get site) = Inr cfg"
    and "loadMTLSCredentials (gs_env site) (gs_keypair site) (gs_appends site) = Inr creds"
    and "mset targets = mset (service_targets cfg)"
    and "px_open p = conns_of creds targets @ [redis_of (gs_env site) (parseAddrs (gw_RedisClusterAddrs cfg))]"
proof -
  let ?out = "gs_out site"
  obtain cfg p1 r p2 pool p3 creds cl p4 e p5 where
    load: "LoadGatewayConfig (gs_get site) = Inr cfg"
    and log: "asking ?out (New_logger (AppEnv cfg) ''api-gateway'') fresh_process = (Inr (), p1)"
    and redis: "NewClusterClient ?out (gs_env site) (parseAddrs (gw_RedisClusterAddrs cfg)) p1 = (Inr r, p2)"
    and db: "NewPrimaryPool ?out (gw_SupabaseDBURL cfg) p2 = (Inr pool, p3)"
    and tls: "loadMTLSCredentials (gs_env site) (gs_keypair site) (gs_appends site) = Inr creds"
    and dial: "clients_New ?out (gs_gate site) (gs_Retry site) creds (gs_order site (service_targets cfg)) p3 = (Inr cl, p4)"
    and epoll: "new_epoll ?out p4 = (Inr e, p5)"
    and p: "p = closed pool (closed Epoll (snd (consult ?out (Serve_http (CHR '':'' # gw_Port cfg)) p5)))"
    using assms(4)
    by (auto simp: gateway_main_def Let_def or_panic_def or_fatal_def deferred_def shut_down_def
        split: prod.splits sum.splits option.splits if_splits process_end.splits)
  have opens: "px_open p4 = conns_of creds (gs_order site (service_targets cfg)) @ px_open p3"
    using clients_get_their_address[OF assms(1,2) order dial] by simp
  have fresh: "px_open p1 = []" "px_open p2 = [r]" "px_open p3 = [pool, r]" "px_open p5 = Epoll # px_open p4"
    and r: "r = redis_of (gs_env site) (parseAddrs (gw_RedisClusterAddrs cfg))"
    using acquired_opens(1)[OF redis] acquired_opens(2)[OF db] acquired_opens(3)[OF epoll] acquired_opens(4)[OF log]
    by (simp_all add: fresh_process_def)
  have "pool \<notin> set (conns_of creds ts)" for ts
    using db by (auto simp: conns_of_def NewPrimaryPool_def new_pool_def Let_def split: prod.splits option.splits)
  then have "px_open p = conns_of creds (gs_order site (service_targets cfg)) @ [r]"
    by (simp add: p closed_def acquired_opens(5) fresh opens remove1_append)
  with that load tls order r show ?thesis
    by blast
qed

text \<open>
  C38. After the first failed read no signal ends the gateway: when reading from a connection gives an
  error, what \<^verbatim>\<open>handleRead\<close> does blocks the hub's goroutine for good, and \<^verbatim>\<open>main\<close> waits for it, whatever
  the gateway was told and whatever happens to the hub in the meantime.
\<close>

theorem failed_read_outlives_signals:
  assumes "h_run h = Looping" and "c \<in> set (h_conns h)" and "fst (readMessage now inc c h) = None"
    and "h1 = handleRead now inc counter c h"
  shows "hub_step h h1 \<and>
    (\<forall>h2 site events p. hub_step\<^sup>*\<^sup>* h1 h2 \<longrightarrow> fst (gateway_main site events h2 p) \<noteq> Returned)"
proof -
  have "h_run h1 = Blocked_unregister c"
    using failed_read[OF assms(3,4)] by simp
  then have "h_run h2 \<noteq> Stopped" if "hub_step\<^sup>*\<^sup>* h1 h2" for h2
    using frozen_steps[OF that] by (simp add: frozen_def)
  then have "fst (gateway_main site events h2 p) \<noteq> Returned" if "hub_step\<^sup>*\<^sup>* h1 h2" for h2 site events p
    using that returned_after_hub by blast
  then show ?thesis
    using readable[OF assms(1,2)] assms(4) by blast
qed

text \<open>A gateway for which everything answers: it returns from the signal with a hub that stopped.\<close>

definition calm_site :: gateway_site where
  "calm_site =
     \<lparr>gs_out = (\<lambda>_ _. None), gs_get = (\<lambda>_ _. ''x''), gs_env = (\<lambda>_. None), gs_gate = (\<lambda>_ _. None), gs_Retry = attempt,
      gs_order = id, gs_keypair = (\<lambda>_ _. None), gs_appends = (\<lambda>_. True), gs_kafka = (\<lambda>_. True)\<rparr>"

lemma calm_config: "LoadGatewayConfig (gs_get calm_site) = Inr (gateway_cfg (gs_get calm_site))"
proof -
  have "trim_space ''x'' = ''x''"
    by (rule trim_space_printable) (simp_all add: printable_def)
  then show ?thesis
    by (simp add: load_gateway demand_def first_blank_def gateway_required_def calm_site_def)
qed

lemma calm_gateway_returns: "fst (gateway_main calm_site [Signalled] (h\<lparr>h_run := Stopped\<rparr>) p) = Returned"
proof -
  have x: "trim_space ''x'' = ''x''"
    by (rule trim_space_printable) (simp_all add: printable_def)
  have cfg: "gw_RedisClusterAddrs (gateway_cfg (gs_get calm_site)) = ''x''"
    "gw_EventBusDriver (gateway_cfg (gs_get calm_site)) = ''x''"
    by (simp_all add: gateway_cfg_def calm_site_def Let_def config_makers loadShared_def)
  have addrs: "parseAddrs ''x'' = [''x'']"
    by (simp add: parseAddrs_def x Let_def)
  have bus: "NewEventBus ''x'' True [] k = Some (Inr (RedisStreams, []))" for k
    by (simp add: NewEventBus_def equal_fold_def)
  show ?thesis
    unfolding gateway_main_def Let_def calm_config or_panic_def[of "(Inr _, _)"] prod.case sum.case cfg addrs bus
    by (simp add: calm_site_def asking_def consult_def or_panic_def or_fatal_def NewClusterClient_def NewPrimaryPool_def
        new_pool_def loadMTLSCredentials_def Getenv_def clients_New_def service_targets_def dialWithCircuit_def
        numeral_3_eq_3 dial_operation_def new_epoll_def stops_gateway_def shut_down_def deferred_def Let_def)
qed

theorem failed_read_outlives_signals_witness:
  "fst (gateway_main calm_site [Signalled] (two_phones\<lparr>h_run := Stopped\<rparr>) fresh_process) = Returned \<and>
   hub_step two_phones (handleRead 5 (Frame Op_close None) None phone_a two_phones) \<and>
   fst (gateway_main calm_site [Signalled] (handleRead 5 (Frame Op_close None) None phone_a two_phones) fresh_process) \<noteq> Returned"
proof -
  have "h_run two_phones = Looping" "phone_a \<in> set (h_conns two_phones)"
    by (auto simp: two_phones_def subscribe_starts_def hub_add_def NewHub_def phone_a_def phone_b_def)
  moreover have "fst (readMessage 5 (Frame Op_close None) phone_a two_phones) = None"
    by (simp add: readMessage_def)
  ultimately show ?thesis
    using failed_read_outlives_signals[of two_phones phone_a 5 "Frame Op_close None" _ None, OF _ _ _ refl] calm_gateway_returns
    by blast
qed

end
