(* ===== verification/EndToEnd.thy ===== *)
theory EndToEnd
  imports GatewayApi GatewayHub Pumps
begin

text \<open>
  The way of a message from the request of its sender to the sockets of its recipients: the handler
  of the gateway, the chat service behind it, Redis, and the hub of the gateway the recipients are
  connected to. The services meet in Redis: the hub writes the presence keys the chat service reads,
  and the chat service publishes on the channels the hub's connections subscribed to.
\<close>

section \<open>Names\<close>

lemma shared_names:
  "presenceKey phone = prefix_key phone" "senderChannel phone = subscribed_channel phone"
  by (simp_all add: presenceKey_def prefix_key_def senderChannel_def subscribed_channel_def)

lemma key_inj [simp]:
  "presenceKey p = presenceKey q \<longleftrightarrow> p = q" "subscribed_channel p = subscribed_channel q \<longleftrightarrow> p = q"
  by (simp_all add: presenceKey_def subscribed_channel_def)

section \<open>What the chat service only adds to\<close>

text \<open>The bus and the channels are appended to, the offline lists get new heads.\<close>

definition grows :: "chat_world \<Rightarrow> chat_world \<Rightarrow> bool" where
  "grows w w' \<longleftrightarrow> prefix (bus_log w) (bus_log w') \<and> prefix (pubsub_log w) (pubsub_log w') \<and>
     (\<forall>k. suffix (redis_lists w k) (redis_lists w' k))"

lemma grows_refl: "grows w w"
  by (simp add: grows_def)

lemma grows_trans: "grows w w1 \<Longrightarrow> grows w1 w2 \<Longrightarrow> grows w w2"
  unfolding grows_def by (meson prefix_order.trans suffix_order.trans)

lemma grows_same: "sent_out w' = sent_out w \<Longrightarrow> grows w w'"
  by (simp add: grows_def sent_out_def)

lemma call_out_grows: "(\<And>v. grows v (f v)) \<Longrightarrow> grows w (snd (call_out f w))"
  using grows_same[OF sent_out_advance, of w] grows_trans
  by (auto simp: call_out_def Let_def split: fault.split)

lemma bus_publish_grows: "grows w (snd (bus_publish stream ev w))"
  unfolding bus_publish_def by (rule call_out_grows) (simp add: grows_def)

lemma redis_publish_grows: "grows w (snd (redis_publish ch payload w))"
  unfolding redis_publish_def by (rule call_out_grows) (simp add: grows_def)

lemma redis_push_grows: "grows w (snd (redis_push key payload ttl w))"
  unfolding redis_push_def by (rule call_out_grows) (simp add: grows_def suffix_ConsI)

lemma exec_grows: "grows w (snd (exec s w))"
  by (rule grows_same[OF sent_out_exec[OF prod.collapse[symmetric]]])

lemma exec_replica_grows: "grows w (snd (exec_replica s w))"
  by (rule grows_same[OF sent_out_replica[OF prod.collapse[symmetric]]])

lemma isOnline_grows: "grows w (snd (isOnline p w))"
  by (rule grows_same) (auto simp: isOnline_def redis_get_def split: option.split)

lemma deliver_grows: "grows w (deliverToRecipient p m w)"
  using grows_trans[OF isOnline_grows[of w p] grows_trans[OF redis_publish_grows exec_grows]]
    grows_trans[OF isOnline_grows[of w p] redis_push_grows]
  by (auto simp: deliverToRecipient_def Let_def case_prod_unfold split: bool.split)

lemma deliver_all_grows: "grows w (deliver_all ps m w)"
  by (induction ps arbitrary: w) (auto intro: grows_refl grows_trans[OF deliver_grows])

lemma announce_grows: "grows w (announce schedule inp rs msg w)"
  unfolding announce_def groupFanout_def Let_def
  by (auto intro: grows_trans[OF grows_trans[OF exec_grows bus_publish_grows] deliver_all_grows])

lemma send_grows: "grows w (snd (SendMessage validate cfg schedule req w))"
proof -
  have resolve: "grows w w1" if "resolve_recipients cfg inp w = (r, w1)" for inp r w1
    by (rule grows_same[OF sent_out_resolve[OF that]])
  have store: "grows w w1" if "store_message cfg inp rs w = (r, w1)" for inp rs r w w1
    by (rule grows_same[OF sent_out_store[OF that]])
  have "grows w w2" if "resolve_recipients cfg inp w = (r, w1)" "store_message cfg inp rs w1 = (r', w2)" for inp r w1 rs r' w2
    by (rule grows_trans[OF resolve[OF that(1)] store[OF that(2)]])
  then show ?thesis
    using resolve
    by (auto simp: SendMessage_def Let_def grows_refl split: option.split prod.split sum.split
        intro: grows_trans[OF _ announce_grows])
qed

lemma history_grows: "grows w (snd (GetHistory cfg req w))"
  using exec_replica_grows[of w]
  by (auto simp: GetHistory_def Let_def grows_refl case_prod_unfold split: sum.split)

lemma mark_grows: "grows w (snd (markStatus cfg req st stream w))"
  using exec_grows[of w] grows_trans[OF exec_grows bus_publish_grows]
  by (auto simp: markStatus_def Let_def grows_refl case_prod_unfold split: sum.split)

lemma event_grows: "grows w (handleStatusEvent stream evt now w)"
proof -
  have "grows w (snd (one_row (exec s w)))" for s :: "message option stmt"
    using exec_grows[of w s] by (cases "exec s w") (auto simp: one_row_def split: sum.split option.split)
  then show ?thesis
    using grows_trans[OF _ redis_publish_grows]
    by (auto simp: handleStatusEvent_def grows_refl case_prod_unfold split: option.split sum.split)
qed

text \<open>Everything the service can be asked, by a client or by the bus.\<close>

datatype chat_request =
    Send sendMessageRequest
  | History getHistoryRequest
  | Delivered markStatusRequest
  | Read markStatusRequest
  | Status string "markStatusRequest option" int

fun serve_chat ::
  "(sendMessageInput \<Rightarrow> string option) \<Rightarrow> chat_cfg \<Rightarrow> (string list list \<Rightarrow> string list) \<Rightarrow> chat_request
     \<Rightarrow> chat_world \<Rightarrow> chat_world" where
  "serve_chat validate cfg schedule (Send req) w = snd (SendMessage validate cfg schedule req w)"
| "serve_chat validate cfg schedule (History req) w = snd (GetHistory cfg req w)"
| "serve_chat validate cfg schedule (Delivered req) w = snd (MarkDelivered cfg req w)"
| "serve_chat validate cfg schedule (Read req) w = snd (MarkRead cfg req w)"
| "serve_chat validate cfg schedule (Status stream evt now) w = handleStatusEvent stream evt now w"

text \<open>
  The offline lists are write-only: whatever the chat service is asked, and whatever calls fail, an
  entry once in a list stays there (until it expires), and no other code names these keys.
\<close>

lemma offline_lists_only_grow:
  "grows w (fold (serve_chat validate cfg schedule) reqs w)"
proof (induction reqs arbitrary: w)
  case (Cons r reqs)
  have "grows w (serve_chat validate cfg schedule r w)"
    by (cases r) (simp_all add: send_grows history_grows mark_grows event_grows MarkDelivered_def MarkRead_def)
  with Cons show ?case
    by (auto intro: grows_trans)
qed (simp add: grows_refl)

text \<open>The tables as the replica shows them at the next call.\<close>

definition shown :: "chat_world \<Rightarrow> db" where
  "shown v = replica_view v (wtick v) (wdb v)"

lemma shown_chat_of [simp]: "shown (chat_of d keys) = d"
  by (simp add: shown_def)

section \<open>The hub behind the channels\<close>

text \<open>The presence keys as a hub has left them.\<close>

definition hub_keys :: "hub \<Rightarrow> string \<Rightarrow> string option" where
  "hub_keys h k = (if k \<in> presenceKey ` h_online h then Some ''online'' else None)"

lemma online_hub [simp]: "online (hub_keys h) p \<longleftrightarrow> p \<in> h_online h"
  by (auto simp: online_def hub_keys_def)

text \<open>
  Redis hands a published payload to every subscription of its channel: the connections \<open>subs\<close> are
  sent each entry of \<open>log\<close> on their user's channel, in order. \<open>render\<close> is the JSON encoder.
\<close>

definition relay_one :: "(json \<Rightarrow> string) \<Rightarrow> connection list \<Rightarrow> string \<times> json \<Rightarrow> hub \<Rightarrow> hub" where
  "relay_one render subs entry h =
     (case entry of (ch, payload) \<Rightarrow>
        fold (\<lambda>c. send_to c (render payload)) (filter (\<lambda>c. subscribed_channel (cn_phone c) = ch) subs) h)"

definition relay :: "(json \<Rightarrow> string) \<Rightarrow> connection list \<Rightarrow> (string \<times> json) list \<Rightarrow> hub \<Rightarrow> hub" where
  "relay render subs = fold (relay_one render subs)"

text \<open>The texts a connection has been sent.\<close>

definition sent_of :: "nat \<Rightarrow> hub \<Rightarrow> string list" where
  "sent_of i h = map snd (filter (\<lambda>(j, _). j = i) (h_sent h))"

lemma sends_run:
  "\<forall>c\<in>set cs. cn_id c \<in> h_subscribed h \<Longrightarrow> hub_step\<^sup>*\<^sup>* h (fold (\<lambda>c. send_to c x) cs h)"
proof (induction cs arbitrary: h)
  case (Cons c cs)
  have "hub_step h (send_to c x h)"
    using Cons.prems by (intro hub_step.subscription) simp
  moreover have "h_subscribed (send_to c x h) = h_subscribed h"
    by (simp add: send_to_def)
  then have "hub_step\<^sup>*\<^sup>* (send_to c x h) (fold (\<lambda>c. send_to c x) cs (send_to c x h))"
    using Cons by simp
  ultimately show ?case
    by simp
qed simp

lemma sends_keep:
  "h_subscribed (fold (\<lambda>c. send_to c x) cs h) = h_subscribed h"
  "h_sent (fold (\<lambda>c. send_to c x) cs h) = h_sent h @ map (\<lambda>c. (cn_id c, x)) cs"
  by (induction cs arbitrary: h) (simp_all add: send_to_def)

lemma relay_runs:
  "\<forall>c\<in>set subs. cn_id c \<in> h_subscribed h \<Longrightarrow> hub_step\<^sup>*\<^sup>* h (relay render subs log h)"
proof (induction log arbitrary: h)
  case (Cons e log)
  obtain ch payload where e: "e = (ch, payload)"
    by fastforce
  have "hub_step\<^sup>*\<^sup>* h (relay_one render subs e h)"
    using Cons.prems by (simp add: e relay_one_def sends_run)
  moreover have "h_subscribed (relay_one render subs e h) = h_subscribed h"
    by (simp add: e relay_one_def sends_keep)
  ultimately show ?case
    using Cons by (simp add: relay_def rtranclp_trans)
qed (simp add: relay_def)

lemma filter_id: "distinct (map cn_id cs) \<Longrightarrow> c \<in> set cs \<Longrightarrow> filter (\<lambda>d. cn_id d = cn_id c \<and> P d) cs = (if P c then [c] else [])"
proof (induction cs)
  case (Cons d cs)
  then show ?case
    by (cases "d = c") (auto simp: filter_empty_conv image_iff)
qed simp

lemma relay_sent:
  assumes "distinct (map cn_id subs)" and "c \<in> set subs"
  shows "sent_of (cn_id c) (relay render subs log h) = sent_of (cn_id c) h @
    map (render \<circ> snd) (filter (\<lambda>(ch, _). ch = subscribed_channel (cn_phone c)) log)"
proof (induction log arbitrary: h)
  case (Cons e log)
  obtain ch payload where e: "e = (ch, payload)"
    by fastforce
  have "sent_of (cn_id c) (relay_one render subs e h) = sent_of (cn_id c) h @
      (if ch = subscribed_channel (cn_phone c) then [render payload] else [])"
    using filter_id[OF assms, of "\<lambda>d. subscribed_channel (cn_phone d) = ch"]
    by (auto simp: e relay_one_def sent_of_def sends_keep filter_map comp_def conj_commute)
  then show ?case
    using Cons by (simp add: relay_def e)
qed (simp add: relay_def)

text \<open>That is what the subscription's goroutine of the connection sends it.\<close>

lemma relay_is_subscribeUser:
  assumes "distinct (map cn_id subs)" and "c \<in> set subs"
  shows "sent_of (cn_id c) (relay render subs log h) = sent_of (cn_id c) h @
    subscribeUser (map (Received \<circ> render \<circ> snd) (filter (\<lambda>(ch, _). ch = subscribed_channel (cn_phone c)) log))"
proof -
  have "subscribeUser (map (Received \<circ> f) es) = map f es" for f :: "string \<times> json \<Rightarrow> string" and es
    by (induction es) simp_all
  from this[of "render \<circ> snd"] show ?thesis
    by (simp add: relay_sent[OF assms] comp_assoc)
qed

section \<open>From the sender's request to the recipients' sockets\<close>

lemma payloads_of_channel:
  assumes "distinct rs"
  shows "filter (\<lambda>(ch, _). ch = subscribed_channel p) (payloads_for keys m rs) =
    (if p \<in> set rs \<and> online keys p then [(subscribed_channel p, sent_payload m p)] else [])"
  using assms by (induction rs) (auto simp: payloads_for_def shared_names)

lemma new_entries:
  assumes "prefix log log'" and "mset log' = mset log + mset xs" and "filter P xs = ys" and "length ys \<le> 1"
  shows "filter P (drop (length log) log') = ys"
proof -
  obtain news where news: "log' = log @ news"
    using assms(1) by (auto simp: prefix_def)
  then have "mset news = mset xs"
    using assms(2) by simp
  then have "mset (filter P news) = mset ys"
    using assms(3) by (metis mset_filter)
  then show ?thesis
    using assms(4) news by (cases ys) (simp_all del: mset_filter)
qed

text \<open>What the sockets of \<open>subs\<close> and the offline lists have got once the message \<open>m\<close> is on its way to \<open>rs\<close>.\<close>

definition arrived ::
  "(json \<Rightarrow> string) \<Rightarrow> connection list \<Rightarrow> hub \<Rightarrow> chat_world \<Rightarrow> chat_world \<Rightarrow> chatMessage \<Rightarrow> string list \<Rightarrow> bool" where
  "arrived render subs h w w' m rs \<longleftrightarrow>
     (let h' = relay render subs (drop (length (pubsub_log w)) (pubsub_log w')) h in
      hub_step\<^sup>*\<^sup>* h h' \<and>
      (\<forall>c\<in>set subs. sent_of (cn_id c) h' = sent_of (cn_id c) h @
         (if cn_phone c \<in> set rs \<and> cn_phone c \<in> h_online h then [render (sent_payload m (cn_phone c))] else [])) \<and>
      (\<forall>p. redis_lists w' (offlineKey p) =
         (if p \<in> set rs \<and> p \<notin> h_online h then [sent_payload m p] else []) @ redis_lists w (offlineKey p)))"

lemma send_arrives:
  assumes "steady (hub_keys h) w" and "fair_schedule schedule"
    and "SendMessage validate cfg schedule req w = (Inr a, w')"
    and "\<forall>c\<in>set subs. cn_id c \<in> h_subscribed h" and "distinct (map cn_id subs)"
  shows "\<exists>msg. msg \<in> set (messages (wdb w')) \<and> m_id msg = sr_message_id a \<and>
    m_sender_phone msg = trim_space (sm_sender_phone req) \<and> m_body_encrypted msg = sm_body req \<and>
    arrived render subs h w w' (event_message msg (resolved (input_of req) w)) (resolved (input_of req) w)"
proof -
  let ?rs = "resolved (input_of req) w"
  obtain msg where msg: "msg \<in> set (messages (wdb w'))" "m_id msg = sr_message_id a"
    "m_sender_phone msg = trim_space (sm_sender_phone req)" "m_body_encrypted msg = sm_body req"
    and reached: "reached (hub_keys h) (event_message msg ?rs) w w' ?rs"
    using send_effect[OF assms(1-3) refl] by blast
  let ?m = "event_message msg ?rs"
  have rs: "distinct ?rs"
    by (simp add: resolved_def recipients.dd_distinct)
  have "prefix (pubsub_log w) (pubsub_log w')"
    using send_grows[of w validate cfg schedule req] assms(3) by (simp add: grows_def)
  from new_entries[OF this _ payloads_of_channel[OF rs]] reached
  have "filter (\<lambda>(ch, _). ch = subscribed_channel p) (drop (length (pubsub_log w)) (pubsub_log w')) =
      (if p \<in> set ?rs \<and> p \<in> h_online h then [(subscribed_channel p, sent_payload ?m p)] else [])" for p
    by (simp add: reached_def)
  with relay_sent[OF assms(5)] relay_runs[OF assms(4)] reached
  have "arrived render subs h w w' ?m ?rs"
    by (auto simp: arrived_def Let_def reached_def)
  with msg show ?thesis
    by blast
qed

text \<open>
  C5. While every call is served, nobody else writes to the tables and the presence keys stay what they
  are, a message posted to the gateway and reported as sent arrives: of the connections that are
  subscribed, every one of a recipient who is online is sent it once and no other is sent anything, and
  a recipient who is not online has it at the head of the offline list. It is stored, under the phone
  of the caller's claims. (When a publish or push fails the answer is the same and nothing arrives:
  \<open>lost_deliveries_are_silent\<close> in ChatFaults is about that.)
\<close>

theorem message_reaches_devices:
  assumes "steady (hub_keys h) w" and "fair_schedule schedule"
    and "createMessage (in_process status_text (SendMessage validate cfg schedule)) ctx payload w = (resp, w')"
    and "resp_code resp = 200"
    and "\<forall>c\<in>set subs. cn_id c \<in> h_subscribed h" and "distinct (map cn_id subs)"
  shows "\<exists>body msg rs. decode_body message_fields no_message payload = Some body \<and>
    rs = resolved (input_of (body\<lparr>sm_sender_phone := cl_phone (context_claims ctx)\<rparr>)) w \<and>
    msg \<in> set (messages (wdb w')) \<and> m_sender_phone msg = trim_space (cl_phone (context_claims ctx)) \<and>
    m_body_encrypted msg = sm_body body \<and> arrived render subs h w w' (event_message msg rs) rs"
proof -
  obtain body a where body: "decode_body message_fields no_message payload = Some body"
    and send: "SendMessage validate cfg schedule (body\<lparr>sm_sender_phone := cl_phone (context_claims ctx)\<rparr>) w = (Inr a, w')"
    by (rule createMessage_sends[OF assms(3,4)])
  from send_arrives[OF assms(1,2) send assms(5,6)] body show ?thesis
    by auto
qed

text \<open>
  C24. A second device is cut off although it is connected: after one device of a phone is removed, a
  message to that phone is not sent to the other one, which is still subscribed, but put into the
  offline list, which nothing reads; this while calls are served and nobody else writes.
\<close>

theorem open_device_misses_message:
  assumes "g = hub_remove True pub_ok c h" and "cn_phone d = cn_phone c" and "d \<in> set subs"
    and "\<forall>s\<in>set subs. cn_id s \<in> h_subscribed g" and "distinct (map cn_id subs)"
    and "steady (hub_keys g) w" and "fair_schedule schedule"
    and "SendMessage validate cfg schedule req w = (Inr a, w')"
    and "cn_phone d \<in> set (resolved (input_of req) w)"
  shows "\<exists>m. c_message_id m = sr_message_id a \<and>
    sent_of (cn_id d) (relay render subs (drop (length (pubsub_log w)) (pubsub_log w')) g) = sent_of (cn_id d) g \<and>
    redis_lists w' (offlineKey (cn_phone d)) = sent_payload m (cn_phone d) # redis_lists w (offlineKey (cn_phone d))"
proof -
  have "cn_phone d \<notin> h_online g"
    by (simp add: assms(1,2) hub_remove_def)
  moreover obtain msg where "m_id msg = sr_message_id a"
    "arrived render subs g w w' (event_message msg (resolved (input_of req) w)) (resolved (input_of req) w)"
    using send_arrives[OF assms(6-8,4,5)] by blast
  ultimately show ?thesis
    using assms(3,9) by (intro exI[of _ "event_message msg (resolved (input_of req) w)"])
      (auto simp: arrived_def Let_def event_message_def)
qed

section \<open>Two phones\<close>

lemma two_phones_facts:
  "phone_a \<in> set (h_conns two_phones)" "sent_of i two_phones = []" "h_online two_phones = {''1'', ''2''}"
  "\<forall>c\<in>set [phone_a, phone_b]. cn_id c \<in> h_subscribed two_phones" "distinct (map cn_id [phone_a, phone_b])"
  by (auto simp: two_phones_def subscribe_starts_def hub_add_def NewHub_def phone_a_def phone_b_def sent_of_def)

lemma fair_concat: "fair_schedule concat"
  by (simp add: fair_schedule_def)

theorem message_reaches_devices_witness:
  "\<exists>w'. snd (createMessage (in_process (\<lambda>_. []) (SendMessage (\<lambda>_. None) plain_cfg concat)) (Some phone_one)
       hello_payload (chat_of no_rows (hub_keys two_phones))) = w' \<and>
     sent_of 1 (relay (\<lambda>_. ''hi'') [phone_a, phone_b] (pubsub_log w') two_phones) = [] \<and>
     sent_of 2 (relay (\<lambda>_. ''hi'') [phone_a, phone_b] (pubsub_log w') two_phones) = [''hi'']"
proof -
  obtain w' where w': "createMessage (in_process (\<lambda>_. []) (SendMessage (\<lambda>_. None) plain_cfg concat)) (Some phone_one)
      hello_payload (chat_of no_rows (hub_keys two_phones)) =
      (writeJSON 200 (sent_json \<lparr>sr_message_id = ''1'', sr_server_ts = 1\<rparr>), w')"
    using hello_posted[of phone_one] by (auto simp: phone_one_def)
  have to_two: "resolved (input_of (hello\<lparr>sm_sender_phone := ''1''\<rparr>)) w = [''2'']" for w
    using hello_resolved by (simp add: hello_def)
  from message_reaches_devices[OF chat_of_simps(2) fair_concat w' _ two_phones_facts(4,5), of "\<lambda>_. ''hi''"]
  obtain msg where "arrived (\<lambda>_. ''hi'') [phone_a, phone_b] two_phones (chat_of no_rows (hub_keys two_phones)) w'
      (event_message msg [''2'']) [''2'']"
    by (auto simp: hello_payload_body context_claims_def phone_one_def to_two)
  then show ?thesis
    using w' by (auto simp: arrived_def Let_def two_phones_facts(2,3)) (simp_all add: phone_a_def phone_b_def)
qed

text \<open>Two devices of one phone, the first of which goes away.\<close>

definition second_b :: connection where
  "second_b = phone_b\<lparr>cn_id := 3, cn_fd := 9\<rparr>"

definition left_one :: hub where
  "left_one = hub_remove True True phone_b (subscribe_starts True 3 (hub_add True second_b two_phones))"

theorem open_device_misses_message_witness:
  "\<exists>w' m. SendMessage (\<lambda>_. None) plain_cfg concat hello (chat_of no_rows (hub_keys left_one)) =
       (Inr \<lparr>sr_message_id = ''1'', sr_server_ts = 1\<rparr>, w') \<and>
     second_b \<in> set (h_conns left_one) \<and>
     sent_of 3 (relay (\<lambda>_. ''hi'') [second_b] (pubsub_log w') left_one) = [] \<and>
     redis_lists w' (offlineKey ''2'') = [sent_payload m ''2'']"
proof -
  obtain w' where w': "SendMessage (\<lambda>_. None) plain_cfg concat hello (chat_of no_rows (hub_keys left_one)) =
      (Inr \<lparr>sr_message_id = ''1'', sr_server_ts = 1\<rparr>, w')"
    using hello_sent by blast
  have facts: "cn_phone second_b = cn_phone phone_b" "second_b \<in> set [second_b]" "second_b \<in> set (h_conns left_one)"
    "\<forall>s\<in>set [second_b]. cn_id s \<in> h_subscribed left_one" "distinct (map cn_id [second_b])" "sent_of i left_one = []"
    "cn_id second_b = 3" "cn_phone second_b = ''2''" for i
    by (auto simp: left_one_def second_b_def two_phones_def subscribe_starts_def hub_add_def hub_remove_def NewHub_def phone_a_def
        phone_b_def sent_of_def)
  have "cn_phone second_b \<in> set (resolved (input_of hello) (chat_of no_rows (hub_keys left_one)))"
    by (simp add: facts(8) hello_resolved)
  from open_device_misses_message[OF left_one_def facts(1,2,4,5) chat_of_simps(2) fair_concat w' this, of "\<lambda>_. ''hi''"]
  obtain m where "sent_of 3 (relay (\<lambda>_. ''hi'') [second_b] (pubsub_log w') left_one) = []"
    "redis_lists w' (offlineKey ''2'') = [sent_payload m ''2'']"
    by (auto simp: facts(6,7,8)) (simp add: chat_of_def)
  with w' facts(3) show ?thesis
    by blast
qed

end
