(* ===== verification/Membership.thy ===== *)
theory Membership
  imports EndToEnd GroupRefinement
begin

text \<open>
  Who hears what in a group. The gateway's handlers keep the membership, the chat service reads it when a
  message is sent to the group: from the replica, and only to find the recipients. The two meet in the
  tables: the world of a send shows the tables an earlier request to the gateway left, or, where the
  replica lags, those before it.
\<close>

section \<open>The recipients of a group message\<close>

lemma resolved_roles:
  assumes "in_group inp \<noteq> []"
  shows "set (resolved inp v) = trim_space ` dom (role_of (shown v) (in_group inp)) - {[], in_sender inp}"
proof -
  have "set (map gm_user_phone (sort_key gm_created_at (filter (\<lambda>r. gm_group_id r = g) (group_members d)))) = dom (role_of d g)" for d g
    by (auto simp: dom_def role_of_member[unfolded not_None_eq] member_row_def)
  then show ?thesis
    using assms recipients.dd_set by (simp add: resolved_def shown_def) blast
qed

lemma input_group [simp]: "in_group (input_of req) = trim_space (sm_group_id req)" "in_sender (input_of req) = trim_space (sm_sender_phone req)"
  by (simp_all add: input_of_def)

section \<open>A send goes through\<close>

text \<open>The identifiers PostgreSQL is about to make are new.\<close>

definition fresh_uuids :: "chat_world \<Rightarrow> bool" where
  "fresh_uuids v \<longleftrightarrow> (\<forall>n. pg_uuid (wpg v n) \<notin> m_id ` set (messages (wdb v)))"

lemma store_succeeds:
  assumes "undisturbed v" and "fresh_uuids v"
  shows "\<exists>msg w. store_message cfg inp rs v = (Inr msg, w)"
  using assms
  by (auto simp: store_message_def Let_def exec_undisturbed EnsureConversation_def writing_def InsertMessage_def
      insert_message_row_def new_message_def insert_params_def fresh_uuids_def conv_ids_upsert)

lemma send_succeeds:
  assumes "steady keys v" and "fresh_uuids v" and "validate (input_of req) = None" and "resolved (input_of req) v \<noteq> []"
  shows "\<exists>a w. SendMessage validate cfg schedule req v = (Inr a, w)"
proof -
  let ?v = "if in_group (input_of req) \<noteq> [] then next_call (wdb v) v else v"
  have "undisturbed ?v" "fresh_uuids ?v"
    using assms(2) steady_undisturbed[OF assms(1)] by (simp_all add: fresh_uuids_def)
  from store_succeeds[OF this, of cfg "input_of req" "resolved (input_of req) v"] obtain msg w
    where "store_message cfg (input_of req) (resolved (input_of req) v) ?v = (Inr msg, w)"
    by blast
  then show ?thesis
    using assms(3,4) by (simp add: SendMessage_def Let_def steady_resolve[OF assms(1)] del: input_group)
qed

section \<open>Requests and sends\<close>

text \<open>
  A member removed by the gateway, as the tables say: gone from the group, while the one who removed it
  still has a role there.
\<close>

lemma removed_roles:
  assumes "calm w" and "signed_in ctx user" and "user \<noteq> p"
    and "serve_group ctx (request_of (Remove p) g) w = (resp, w1)" and "resp_code resp = 200"
  shows "roles_in w1 = (roles_in w)(g := abs_expel p (roles_in w g))" and "roles_in w1 g p = None"
    and "user \<in> dom (roles_in w1 g)"
proof -
  have "(200, roles_in w1) = spec_serve (Remove p) g user (roles_in w)"
    using membership_step[OF assms(1,2), of "Remove p" g] assms(4,5) by simp
  then show "roles_in w1 = (roles_in w)(g := abs_expel p (roles_in w g))" "roles_in w1 g p = None"
    "user \<in> dom (roles_in w1 g)"
    using assms(3) by (auto simp: spec_serve_def abs_expel_def split: if_splits)
qed

text \<open>
  C6. After a request about its members has been served, a message to the group that is reported as sent
  goes to those, the sender and blank phones apart, to whom the specification of the request gives a
  role, and to nobody else. The conditions: both services have all their calls served with nobody else
  writing, the presence keys stay what they are, and the replica shows what the gateway wrote.
\<close>

theorem group_send_follows_roles:
  assumes "calm w" and "signed_in ctx user" and "serve_group ctx (request_of rq g) w = (resp, w1)"
    and "shown v = wdb w1" and "steady (hub_keys h) v" and "fair_schedule schedule"
    and "SendMessage validate cfg schedule req v = (Inr a, v')" and "trim_space (sm_group_id req) = g" and "g \<noteq> []"
    and "\<forall>c\<in>set subs. cn_id c \<in> h_subscribed h" and "distinct (map cn_id subs)"
  shows "\<exists>msg rs. msg \<in> set (messages (wdb v')) \<and> m_id msg = sr_message_id a \<and>
    arrived render subs h v v' (event_message msg rs) rs \<and>
    set rs = trim_space ` dom (snd (spec_serve rq g user (roles_in w)) g) - {[], trim_space (sm_sender_phone req)}"
proof -
  have "roles_in w1 = snd (spec_serve rq g user (roles_in w))"
    using membership_step[OF assms(1,2), of rq g] assms(3) by (metis snd_conv)
  then have "set (resolved (input_of req) v) =
      trim_space ` dom (snd (spec_serve rq g user (roles_in w)) g) - {[], trim_space (sm_sender_phone req)}"
    using resolved_roles[of "input_of req" v] assms(4,8,9) by (simp add: roles_in_def)
  with send_arrives[OF assms(5-7,10,11)] show ?thesis
    by blast
qed

text \<open>
  C7. A member removed from a group can still write to it: nobody looks at the sender's role. While
  calls are served and nobody else writes, the post is answered with 200, stored, and arrives at every
  member left, on the sockets or in the offline list.
\<close>

theorem removed_member_still_posts:
  assumes "calm w" and "signed_in ctx user" and "serve_group ctx (request_of (Remove p) g) w = (resp, w1)"
    and "resp_code resp = 200" and "trim_space p = p" and "trim_space user \<noteq> p"
    and "shown v = wdb w1" and "steady (hub_keys h) v" and "fresh_uuids v" and "fair_schedule schedule"
    and "decode_body message_fields no_message payload = Some body" and "trim_space (sm_group_id body) = g" and "g \<noteq> []"
    and "cl_phone (context_claims pctx) = p" and "validate (input_of (body\<lparr>sm_sender_phone := p\<rparr>)) = None"
    and "\<forall>c\<in>set subs. cn_id c \<in> h_subscribed h" and "distinct (map cn_id subs)"
  shows "roles_in w1 g p = None \<and> (\<exists>v' answer msg rs.
    createMessage (in_process status_text (SendMessage validate cfg schedule)) pctx payload v = (writeJSON 200 answer, v') \<and>
    msg \<in> set (messages (wdb v')) \<and> m_sender_phone msg = p \<and> m_body_encrypted msg = sm_body body \<and>
    arrived render subs h v v' (event_message msg rs) rs \<and>
    set rs = trim_space ` dom (roles_in w1 g) - {[], p} \<and> trim_space user \<in> set rs)"
proof -
  let ?req = "body\<lparr>sm_sender_phone := p\<rparr>"
  have "user \<noteq> p"
    using assms(5,6) by auto
  note removed = removed_roles[OF assms(1,2) this assms(3,4)]
  have rs: "set (resolved (input_of ?req) v) = trim_space ` dom (roles_in w1 g) - {[], p}"
    using resolved_roles[of "input_of ?req" v] assms(5,7,12,13) by (simp add: roles_in_def)
  have "trim_space user \<noteq> []"
    using assms(2) by (auto simp: signed_in_def currentUserPhone_def split: option.splits if_splits)
  then have user: "trim_space user \<in> set (resolved (input_of ?req) v)"
    using rs removed(3) assms(6) by blast
  then obtain a v' where send: "SendMessage validate cfg schedule ?req v = (Inr a, v')"
    using send_succeeds[of _ v validate ?req, OF assms(8,9,15)] by (metis empty_iff empty_set)
  have "createMessage (in_process status_text (SendMessage validate cfg schedule)) pctx payload v = (writeJSON 200 (sent_json a), v')"
    using send by (simp add: createMessage_def assms(11,14) forward_def in_process_def)
  moreover from send_arrives[OF assms(8,10) send assms(16,17), of render] obtain msg where
    "msg \<in> set (messages (wdb v'))" "m_sender_phone msg = p" "m_body_encrypted msg = sm_body body"
    "arrived render subs h v v' (event_message msg (resolved (input_of ?req) v)) (resolved (input_of ?req) v)"
    using assms(5) by auto
  ultimately show ?thesis
    using removed(2) rs user by blast
qed

text \<open>
  C27. While the replica lags behind the removal, the removed member still gets what is written to the
  group (calls being served and nobody else writing): on its sockets if it is online, in its offline
  list otherwise.
\<close>

theorem lagging_replica_tells_removed:
  assumes "calm w" and "signed_in ctx user" and "user \<noteq> p" and "serve_group ctx (request_of (Remove p) g) w = (resp, w1)"
    and "resp_code resp = 200" and "trim_space p = p" and "roles_in w g p \<noteq> None"
    and "wdb v = wdb w1" and "shown v = wdb w" and "steady (hub_keys h) v" and "fair_schedule schedule"
    and "SendMessage validate cfg schedule req v = (Inr a, v')" and "trim_space (sm_group_id req) = g" and "g \<noteq> []"
    and "trim_space (sm_sender_phone req) \<noteq> p" and "p \<noteq> []"
    and "\<forall>c\<in>set subs. cn_id c \<in> h_subscribed h" and "distinct (map cn_id subs)"
  shows "role_of (wdb v) g p = None \<and> (\<exists>m. c_message_id m = sr_message_id a \<and>
    (if p \<in> h_online h then
       \<forall>c\<in>set subs. cn_phone c = p \<longrightarrow>
         sent_of (cn_id c) (relay render subs (drop (length (pubsub_log v)) (pubsub_log v')) h) =
         sent_of (cn_id c) h @ [render (sent_payload m p)]
     else redis_lists v' (offlineKey p) = sent_payload m p # redis_lists v (offlineKey p)))"
proof -
  have "p \<in> set (resolved (input_of req) v)"
    using resolved_roles[of "input_of req" v] assms(6,7,9,13-16)
    by (simp add: roles_in_def) (metis domI image_eqI not_None_eq)
  moreover obtain msg where "m_id msg = sr_message_id a"
    "arrived render subs h v v' (event_message msg (resolved (input_of req) v)) (resolved (input_of req) v)"
    using send_arrives[OF assms(10-12,17,18)] by blast
  moreover have "role_of (wdb v) g p = None"
    using removed_roles(2)[OF assms(1-5)] assms(8) by (simp add: roles_in_def)
  ultimately show ?thesis
    by (intro conjI exI[of _ "event_message msg (resolved (input_of req) v)"])
      (auto simp: arrived_def Let_def event_message_def)
qed

section \<open>Ann removes Bob\<close>

definition bob_removed :: world where
  "bob_removed = snd (serve_group (signed ''ann'') (request_of (Remove ''bob'') ''g'') (calm_world (ann_and_bob ''member'')))"

lemma ann_signed [simp]: "signed_in (signed ''ann'') ''ann''"
  by (simp add: signed_in_def)

lemma names_trim [simp]:
  "trim_space ''ann'' = ''ann''" "trim_space ''bob'' = ''bob''" "trim_space ''g'' = ''g''" "trim_space [] = []"
  by (simp_all add: trim_space_printable printable_def)

lemma removal_spec:
  "spec_serve (Remove ''bob'') ''g'' ''ann'' (role_of (ann_and_bob ''member'')) =
    (200, (role_of (ann_and_bob ''member''))(''g'' := [''ann'' \<mapsto> ''admin'']))"
  by (auto simp: spec_serve_def abs_expel_def fun_eq_iff)

lemma bob_is_removed:
  "\<exists>resp. serve_group (signed ''ann'') (request_of (Remove ''bob'') ''g'') (calm_world (ann_and_bob ''member'')) = (resp, bob_removed) \<and>
    resp_code resp = 200"
  "roles_in bob_removed ''g'' = [''ann'' \<mapsto> ''admin'']"
  using membership_step[of "calm_world (ann_and_bob ''member'')" "signed ''ann''" "''ann''" "Remove ''bob''" "''g''"]
  by (simp_all add: bob_removed_def removal_spec prod_eq_iff)

lemma no_messages_yet: "messages (wdb bob_removed) = []"
  by (simp add: bob_removed_def removeGroupMember_def guard_simps exec_simps row_simps del_member_def touch_group_def upd_group_where_def)
    (simp add: ann_and_bob_def no_rows_def)

text \<open>Bob, and Ann, write to the group while nobody is connected.\<close>

definition group_payload :: "json option" where
  "group_payload = Some (JObj [(''group_id'', JStr ''g''), (''body'', JStr ''hi'')])"

definition group_post :: sendMessageRequest where
  "group_post = \<lparr>sm_sender_phone = [], sm_recipient_phones = [], sm_group_id = ''g'', sm_body = ''hi''\<rparr>"

lemma group_payload_body: "decode_body message_fields no_message group_payload = Some group_post"
  by (simp add: group_payload_def decode_body_def message_fields_def field_for_def decode_string_def no_message_def group_post_def)

lemma fresh_chat_of: "messages d = [] \<Longrightarrow> fresh_uuids (chat_of d keys)"
  by (simp add: fresh_uuids_def)

lemma nobody_there: "h_online NewHub = {}" "redis_lists (chat_of d keys) k = []" "sent_of i NewHub = []"
  by (simp_all add: NewHub_def chat_of_def sent_of_def)

theorem removed_member_still_posts_witness:
  "\<exists>v' answer. createMessage (in_process (\<lambda>_. []) (SendMessage (\<lambda>_. None) plain_cfg concat)) (signed ''bob'') group_payload
       (chat_of (wdb bob_removed) (hub_keys NewHub)) = (writeJSON 200 answer, v') \<and>
     length (redis_lists v' (offlineKey ''ann'')) = 1 \<and> redis_lists v' (offlineKey ''bob'') = []"
proof -
  obtain resp where resp: "serve_group (signed ''ann'') (request_of (Remove ''bob'') ''g'') (calm_world (ann_and_bob ''member'')) = (resp, bob_removed)"
    "resp_code resp = 200"
    using bob_is_removed(1) by blast
  obtain v' answer msg rs where
    "createMessage (in_process (\<lambda>_. []) (SendMessage (\<lambda>_. None) plain_cfg concat)) (signed ''bob'') group_payload
       (chat_of (wdb bob_removed) (hub_keys NewHub)) = (writeJSON 200 answer, v')"
    "arrived (\<lambda>_. []) [] NewHub (chat_of (wdb bob_removed) (hub_keys NewHub)) v' (event_message msg rs) rs" "set rs = {''ann''}"
    using removed_member_still_posts[OF _ ann_signed resp, where v = "chat_of (wdb bob_removed) (hub_keys NewHub)" and h = NewHub
        and schedule = concat and payload = group_payload and body = group_post and pctx = "signed ''bob''" and subs = "[]"
        and validate = "\<lambda>_. None" and cfg = plain_cfg and status_text = "\<lambda>_. []" and render = "\<lambda>_. []"]
    by (auto simp: fresh_chat_of no_messages_yet fair_concat group_payload_body group_post_def context_claims_def signed_def
        bob_is_removed(2))
  then show ?thesis
    by (auto simp: arrived_def Let_def nobody_there)
qed

theorem group_send_follows_roles_witness:
  "\<exists>a v'. SendMessage (\<lambda>_. None) plain_cfg concat (group_post\<lparr>sm_sender_phone := ''cid''\<rparr>)
       (chat_of (wdb bob_removed) (hub_keys NewHub)) = (Inr a, v') \<and>
     length (redis_lists v' (offlineKey ''ann'')) = 1 \<and> redis_lists v' (offlineKey ''bob'') = []"
proof -
  let ?v = "chat_of (wdb bob_removed) (hub_keys NewHub)" and ?req = "group_post\<lparr>sm_sender_phone := ''cid''\<rparr>"
  have cid: "trim_space ''cid'' = ''cid''"
    by (simp add: trim_space_printable printable_def)
  obtain resp where resp: "serve_group (signed ''ann'') (request_of (Remove ''bob'') ''g'') (calm_world (ann_and_bob ''member'')) = (resp, bob_removed)"
    using bob_is_removed(1) by blast
  have "''ann'' \<in> set (resolved (input_of ?req) ?v)"
    using resolved_roles[of "input_of ?req" ?v] bob_is_removed(2) by (simp add: group_post_def cid roles_in_def)
  then obtain a v' where send: "SendMessage (\<lambda>_. None) plain_cfg concat ?req ?v = (Inr a, v')"
    using send_succeeds[of "hub_keys NewHub" ?v "\<lambda>_. None" ?req] fresh_chat_of[OF no_messages_yet] by fastforce
  obtain msg rs where "arrived (\<lambda>_. []) [] NewHub ?v v' (event_message msg rs) rs" "set rs = {''ann''}"
    using group_send_follows_roles[OF _ ann_signed resp _ chat_of_simps(2) fair_concat send, where subs = "[]" and render = "\<lambda>_. []"]
    by (auto simp: group_post_def removal_spec cid)
  with send show ?thesis
    by (auto simp: arrived_def Let_def nobody_there)
qed

text \<open>The tables after the removal on the primary, before it on the replica.\<close>

definition lagging :: chat_world where
  "lagging = (chat_of (wdb bob_removed) (hub_keys NewHub))\<lparr>replica_view := \<lambda>_ _. ann_and_bob ''member''\<rparr>"

lemma lagging_simps:
  "wdb lagging = wdb bob_removed" "shown lagging = ann_and_bob ''member''" "steady (hub_keys NewHub) lagging" "fresh_uuids lagging"
  "redis_lists lagging k = []"
  using chat_of_simps(2)[of "hub_keys NewHub" "wdb bob_removed"]
  by (simp_all add: lagging_def shown_def fresh_uuids_def no_messages_yet nobody_there steady_def undisturbed_def)

theorem lagging_replica_tells_removed_witness:
  "\<exists>a v'. SendMessage (\<lambda>_. None) plain_cfg concat (group_post\<lparr>sm_sender_phone := ''ann''\<rparr>) lagging = (Inr a, v') \<and>
     role_of (wdb lagging) ''g'' ''bob'' = None \<and> length (redis_lists v' (offlineKey ''bob'')) = 1"
proof -
  let ?req = "group_post\<lparr>sm_sender_phone := ''ann''\<rparr>"
  obtain resp where resp: "serve_group (signed ''ann'') (request_of (Remove ''bob'') ''g'') (calm_world (ann_and_bob ''member'')) = (resp, bob_removed)"
    "resp_code resp = 200"
    using bob_is_removed(1) by blast
  have "''bob'' \<in> set (resolved (input_of ?req) lagging)"
    using resolved_roles[of "input_of ?req" lagging] by (simp add: group_post_def lagging_simps)
  then obtain a v' where send: "SendMessage (\<lambda>_. None) plain_cfg concat ?req lagging = (Inr a, v')"
    using send_succeeds[OF lagging_simps(3,4), of "\<lambda>_. None" ?req] by fastforce
  have "role_of (wdb lagging) ''g'' ''bob'' = None \<and> length (redis_lists v' (offlineKey ''bob'')) = 1"
    using lagging_replica_tells_removed[OF _ ann_signed _ resp _ _ lagging_simps(1) _ lagging_simps(3) fair_concat send, where subs = "[]" and render = "\<lambda>_. []"]
    by (auto simp: group_post_def lagging_simps nobody_there)
  with send show ?thesis
    by blast
qed

end
