(* ===== verification/Privacy.thy ===== *)
theory Privacy
  imports EndToEnd ChatHistory
begin

text \<open>
  Who can read a conversation. \<^verbatim>\<open>GET /messages/{id}\<close> passes its path parameter on as a conversation, the
  identifiers of conversations are put together from phones or from the group's id, and neither the
  gateway nor the chat service asks who wants to know.
\<close>

section \<open>The newest message\<close>

text \<open>The clock of the database is past all that is stored.\<close>

definition clock_ahead :: "chat_world \<Rightarrow> bool" where
  "clock_ahead v \<longleftrightarrow> (\<forall>n. \<forall>m\<in>set (messages (wdb v)). m_created_at m < pg_now (wpg v n))"

lemma insort_key_before: "f x < f m \<Longrightarrow> insort_key f x (ys @ [m]) = insort_key f x ys @ [m]"
  by (induction ys) auto

lemma sort_key_latest: "\<forall>x\<in>set xs. f x < f m \<Longrightarrow> sort_key f (xs @ [m]) = sort_key f xs @ [m]"
  by (induction xs) (auto simp: insort_key_before)

lemma newest_first_latest:
  "\<forall>x\<in>set ms. m_created_at x < m_created_at m \<Longrightarrow> newest_first coll (ms @ [m]) = m # newest_first coll ms"
  by (simp add: newest_first_def sort_key_latest)

lemma send_appends:
  assumes "steady keys v" and "fair_schedule schedule" and "SendMessage validate cfg schedule req v = (Inr a, w)"
    and "rs = resolved (input_of req) v"
  shows "\<exists>msg n. messages (wdb w) = messages (wdb v) @ [msg] \<and> m_created_at msg = pg_now (wpg v n) \<and> m_id msg = sr_message_id a \<and>
    m_body_encrypted msg = sm_body req \<and>
    m_conversation_id msg = buildConversationID (trim_space (sm_sender_phone req)) rs (trim_space (sm_group_id req))"
proof -
  let ?inp = "input_of req"
  define v1 where "v1 = (if in_group ?inp \<noteq> [] then next_call (wdb v) v else v)"
  have v1: "steady keys v1" "messages (wdb v1) = messages (wdb v)" "wpg v1 = wpg v"
    using assms(1) by (simp_all add: v1_def)
  obtain msg v2 where store: "store_message cfg ?inp rs v1 = (Inr msg, v2)"
    and a: "sr_message_id a = m_id msg" "w = announce schedule ?inp rs msg v2"
    using assms(3) by (auto simp: SendMessage_def Let_def steady_resolve[OF assms(1)] v1_def[symmetric] assms(4)[symmetric]
        split: option.splits if_splits prod.splits sum.splits)
  note stored = store_effect[OF v1(1) store]
  have "distinct rs"
    by (simp add: assms(4) resolved_def recipients.dd_distinct)
  from announce_effect(2)[OF stored(1) assms(2) this stored(2) a(2) refl]
    store_appends[OF steady_undisturbed[OF v1(1)] store] a(1) stored(4-6) v1(2,3)
  show ?thesis
    by (auto simp: input_of_def)
qed

section \<open>One conversation for several recipients\<close>

text \<open>
  A direct message goes into the conversation of its sender and the first recipient only: for any other
  recipient, the conversation with the sender has the messages it had before, whoever reads it.
\<close>

lemma second_recipient_has_no_history:
  assumes "steady keys v" and "fair_schedule schedule" and "SendMessage validate cfg schedule req v = (Inr a, v')"
    and "resolved (input_of req) v = r # rs" and "q \<in> set rs" and "trim_space (sm_group_id req) = []"
    and "CHR '':'' \<notin> set (trim_space (sm_sender_phone req))" and "CHR '':'' \<notin> set r" and "CHR '':'' \<notin> set q"
  shows "conversation_rows (buildConversationID q [trim_space (sm_sender_phone req)] []) (wdb v') =
    conversation_rows (buildConversationID q [trim_space (sm_sender_phone req)] []) (wdb v)"
proof -
  let ?s = "trim_space (sm_sender_phone req)"
  obtain msg where msg: "messages (wdb v') = messages (wdb v) @ [msg]"
    "m_conversation_id msg = buildConversationID ?s (r # rs) []"
    using send_appends[OF assms(1-3) refl] assms(4,6) by auto
  have "set (r # rs) = trim_space ` set (sm_recipient_phones req) - {[], ?s}" and "distinct (r # rs)"
    using recipients.dd_set[of "sm_recipient_phones req" ?s] recipients.dd_distinct[of "sm_recipient_phones req" ?s]
      assms(4,6) by (auto simp: resolved_def input_of_def)
  then have "r \<noteq> q" "r \<noteq> ?s"
    using assms(5) by auto
  then have "buildConversationID ?s [r] [] \<noteq> buildConversationID q [?s] []"
    using conversation_identity[OF assms(7,8,9,7)] by (auto simp: doubleton_eq_iff)
  moreover have "buildConversationID ?s (r # rs) [] = buildConversationID ?s [r] []"
    by (simp add: buildConversationID_def)
  ultimately show ?thesis
    using msg by (simp add: conversation_rows_def)
qed

section \<open>Anybody reads it\<close>

lemma build_nonempty: "buildConversationID s rs g \<noteq> []"
  by (simp add: buildConversationID_def Let_def split: list.split)

lemma one_newest:
  assumes "undisturbed u" and "trim_space i = m_conversation_id msg" and "trim_space i \<noteq> []"
    and "messages (shown u) = ms @ [msg]" and "\<forall>m\<in>set ms. m_created_at m < m_created_at msg"
  shows "fst (getMessage (in_process status_text (GetHistory cfg)) i u) =
    writeJSON 200 (history_json \<lparr>hs_messages = [history_message msg], hs_next_cursor = m_id msg\<rparr>)"
proof -
  have "newest_first (cfg_collation cfg) (filter (\<lambda>m. m_conversation_id m = trim_space i \<and> before_cursor [] (messages (shown u)) m)
      (messages (shown u))) = msg # newest_first (cfg_collation cfg) (filter (\<lambda>m. m_conversation_id m = trim_space i) ms)"
    using assms(2,4,5) newest_first_latest[of "filter (\<lambda>m. m_conversation_id m = trim_space i) ms" msg]
    by (simp add: before_cursor_def)
  then show ?thesis
    using assms(1,3)
    by (simp add: getMessage_def forward_def in_process_def GetHistory_def exec_replica_def undisturbed_advance
        GetMessageHistory_def effective_limit_def maxHistoryLimit_def shown_def Let_def)
qed

text \<open>
  C13. Whoever asks, with whatever token or none, gets the newest message of a conversation: after a send,
  \<^verbatim>\<open>GET /messages/{id}\<close> with the identifier made of the two phones, or of the group's id, answers with
  the text that was sent, once the replica shows it, calls being served and nobody else writing.
\<close>

theorem anybody_reads_newest:
  assumes "steady keys v" and "fair_schedule schedule" and "clock_ahead v"
    and "SendMessage validate cfg schedule req v = (Inr a, v')"
    and "trim_space i = buildConversationID (trim_space (sm_sender_phone req)) (resolved (input_of req) v) (trim_space (sm_group_id req))"
    and "undisturbed u" and "shown u = wdb v'"
  shows "\<exists>msg. m_id msg = sr_message_id a \<and> m_body_encrypted msg = sm_body req \<and>
    fst (fst (AuthMiddleware lib unmarshal fetch now later secret url
        (\<lambda>ctx. getMessage (in_process status_text (GetHistory cfg)) i u) hdr cache)) =
      writeJSON 200 (history_json \<lparr>hs_messages = [history_message msg], hs_next_cursor = m_id msg\<rparr>) \<and>
    c_body (history_message msg) = sm_body req"
proof -
  obtain msg n where msg: "messages (wdb v') = messages (wdb v) @ [msg]" "m_created_at msg = pg_now (wpg v n)"
    "m_id msg = sr_message_id a" "m_body_encrypted msg = sm_body req"
    "m_conversation_id msg = trim_space i"
    using send_appends[OF assms(1,2,4) refl] assms(5) by auto
  have "\<forall>m\<in>set (messages (wdb v)). m_created_at m < m_created_at msg"
    using assms(3) msg(2) by (simp add: clock_ahead_def)
  from one_newest[OF assms(6) msg(5)[symmetric] _ _ this] msg(1) assms(5,7) build_nonempty
  have "fst (getMessage (in_process status_text (GetHistory cfg)) i u) =
      writeJSON 200 (history_json \<lparr>hs_messages = [history_message msg], hs_next_cursor = m_id msg\<rparr>)"
    by simp
  with msg(3,4) show ?thesis
    by (intro exI[of _ msg]) (simp add: AuthMiddleware_def Let_def history_message_def split: prod.split)
qed

theorem anybody_reads_newest_witness:
  "\<exists>w' msg. SendMessage (\<lambda>_. None) plain_cfg concat hello (chat_of no_rows Map.empty) = (Inr \<lparr>sr_message_id = ''1'', sr_server_ts = 1\<rparr>, w') \<and>
     fst (fst (AuthMiddleware refusing_jwt one_payload (\<lambda>_. Fetch_failed) 0 0 ''secret'' ''https://x''
       (\<lambda>ctx. getMessage (in_process (\<lambda>_. []) (GetHistory plain_cfg)) ''dm:1:2'' (chat_of (wdb w') Map.empty)) [] Map.empty)) =
     writeJSON 200 (history_json \<lparr>hs_messages = [history_message msg], hs_next_cursor = ''1''\<rparr>) \<and>
     c_body (history_message msg) = ''hi''"
proof -
  obtain w' where w': "SendMessage (\<lambda>_. None) plain_cfg concat hello (chat_of no_rows Map.empty) =
      (Inr \<lparr>sr_message_id = ''1'', sr_server_ts = 1\<rparr>, w')"
    using hello_sent by blast
  have ahead: "clock_ahead (chat_of no_rows Map.empty)"
    by (simp add: clock_ahead_def no_rows_def)
  have "trim_space ''dm:1:2'' = ''dm:1:2''"
    by (simp add: trim_space_printable printable_def)
  moreover have "buildConversationID ''1'' [''2''] [] = ''dm:1:2''"
    by code_simp
  ultimately have name: "trim_space ''dm:1:2'' = buildConversationID (trim_space (sm_sender_phone hello))
      (resolved (input_of hello) (chat_of no_rows Map.empty)) (trim_space (sm_group_id hello))"
    by (simp add: hello_resolved) (simp add: hello_def)
  have after: "undisturbed (chat_of (wdb w') Map.empty)" "shown (chat_of (wdb w') Map.empty) = wdb w'"
    by simp_all
  from anybody_reads_newest[OF chat_of_simps(2) fair_concat ahead w' name after, where lib = refusing_jwt and unmarshal = one_payload and fetch = "\<lambda>_. Fetch_failed"
      and now = 0 and later = 0 and secret = "''secret''" and url = "''https://x''" and status_text = "\<lambda>_. []"
      and hdr = "[]" and cache = Map.empty] w'
  show ?thesis
    by (auto simp: hello_def)
qed

end
