(* ===== verification/ChatStatus.thy ===== *)
theory ChatStatus
  imports ChatProps
begin

text \<open>
  What becomes of the status of a message under a run of \<^verbatim>\<open>MarkDelivered\<close> and \<^verbatim>\<open>MarkRead\<close>. A message
  is sent, then delivered, then read: the states have this order, and a status that keeps what was
  reached is the maximum of those reported. The service stores the last one reported instead.
\<close>

section \<open>States in their order\<close>

datatype delivery_state = State_sent | State_delivered | State_read

fun state_text :: "delivery_state \<Rightarrow> string" where
  "state_text State_sent = ''sent''"
| "state_text State_delivered = ''delivered''"
| "state_text State_read = ''read''"

fun state_rank :: "delivery_state \<Rightarrow> nat" where
  "state_rank State_sent = 0"
| "state_rank State_delivered = 1"
| "state_rank State_read = 2"

lemma state_rank_inj [simp]: "state_rank a = state_rank b \<longleftrightarrow> a = b"
  by (cases a; cases b) simp_all

lemma state_text_inj [simp]: "state_text a = state_text b \<longleftrightarrow> a = b"
  by (cases a; cases b) simp_all

lemma state_texts: "state_text s \<in> set status_values"
  by (cases s) (simp_all add: status_values_def)

instantiation delivery_state :: linorder
begin

definition less_eq_delivery_state :: "delivery_state \<Rightarrow> delivery_state \<Rightarrow> bool" where
  "less_eq_delivery_state a b \<longleftrightarrow> state_rank a \<le> state_rank b"

definition less_delivery_state :: "delivery_state \<Rightarrow> delivery_state \<Rightarrow> bool" where
  "less_delivery_state a b \<longleftrightarrow> state_rank a < state_rank b"

instance
  by standard (auto simp: less_eq_delivery_state_def less_delivery_state_def)

end

section \<open>Runs of updates\<close>

text \<open>A request to mark a message, with the handler it goes to.\<close>

datatype mark = Mark_delivered markStatusRequest | Mark_read markStatusRequest

fun serve_mark :: "chat_cfg \<Rightarrow> mark \<Rightarrow> chat_world \<Rightarrow> (rpc_error + bool) \<times> chat_world" where
  "serve_mark cfg (Mark_delivered req) = MarkDelivered cfg req"
| "serve_mark cfg (Mark_read req) = MarkRead cfg req"

fun mark_state :: "mark \<Rightarrow> delivery_state" where
  "mark_state (Mark_delivered _) = State_delivered"
| "mark_state (Mark_read _) = State_read"

fun mark_of :: "mark \<Rightarrow> markStatusRequest" where
  "mark_of (Mark_delivered req) = req"
| "mark_of (Mark_read req) = req"

text \<open>What is reported of a message and a user, oldest first.\<close>

definition reported :: "string \<Rightarrow> string \<Rightarrow> mark list \<Rightarrow> delivery_state list" where
  "reported mid p ms = map mark_state
     (filter (\<lambda>m. trim_space (mk_message_id (mark_of m)) = mid \<and> trim_space (mk_user_phone (mark_of m)) = p) ms)"

definition serve_marks :: "chat_cfg \<Rightarrow> mark list \<Rightarrow> chat_world \<Rightarrow> chat_world" where
  "serve_marks cfg = fold (\<lambda>m w. snd (serve_mark cfg m w))"

lemma serve_mark_is: "\<exists>stream. serve_mark cfg m w = markStatus cfg (mark_of m) (state_text (mark_state m)) stream w"
  by (cases m) (auto simp: MarkDelivered_def MarkRead_def)

lemma serve_mark_effect:
  assumes "undisturbed w" and "mid \<in> m_id ` set (messages (wdb w))" and "mid \<noteq> []" and "p \<noteq> []"
    and "w' = snd (serve_mark cfg m w)"
  shows "undisturbed w'" and "messages (wdb w') = messages (wdb w)"
    and "status_of (wdb w') mid p = (if trim_space (mk_message_id (mark_of m)) = mid \<and> trim_space (mk_user_phone (mark_of m)) = p
      then Some (state_text (mark_state m)) else status_of (wdb w) mid p)"
proof -
  let ?i = "trim_space (mk_message_id (mark_of m))" and ?q = "trim_space (mk_user_phone (mark_of m))"
  obtain stream where w': "w' = snd (markStatus cfg (mark_of m) (state_text (mark_state m)) stream w)"
    using serve_mark_is[of cfg m w] assms(5) by metis
  have "undisturbed w' \<and> messages (wdb w') = messages (wdb w) \<and>
    status_of (wdb w') mid p = (if ?i = mid \<and> ?q = p then Some (state_text (mark_state m)) else status_of (wdb w) mid p)"
  proof (cases "?i = [] \<or> ?q = []")
    case True
    then show ?thesis
      using assms(1,3,4) by (auto simp: w' markStatus_def Let_def)
  next
    case False
    then have some: "?i \<noteq> []" "?q \<noteq> []"
      by simp_all
    note effect = mark_effect[OF assms(1) state_texts refl some(1) refl some(2), where cfg = cfg and stream = stream and m = mid and q = p]
    show ?thesis
    proof (cases "?i \<in> m_id ` set (messages (wdb w))")
      case True
      then show ?thesis
        using effect by (auto simp: w')
    next
      case missing: False
      have "undisturbed w'"
        using missing some assms(1) by (simp add: w' markStatus_def Let_def exec_undisturbed UpsertMessageStatus_def)
      with missing show ?thesis
        using effect assms(2) by (auto simp: w')
    qed
  qed
  then show "undisturbed w'" and "messages (wdb w') = messages (wdb w)"
    and "status_of (wdb w') mid p = (if ?i = mid \<and> ?q = p then Some (state_text (mark_state m)) else status_of (wdb w) mid p)"
    by blast+
qed

lemma marks_keep_last:
  assumes "undisturbed w" and "mid \<in> m_id ` set (messages (wdb w))" and "mid \<noteq> []" and "p \<noteq> []"
  shows "status_of (wdb (serve_marks cfg ms w)) mid p =
    (if reported mid p ms = [] then status_of (wdb w) mid p else Some (state_text (last (reported mid p ms))))"
  using assms(1,2)
proof (induction ms arbitrary: w)
  case (Cons m ms)
  let ?w = "snd (serve_mark cfg m w)"
  note one = serve_mark_effect[OF Cons.prems assms(3,4) refl, of cfg m]
  have "mid \<in> m_id ` set (messages (wdb ?w))"
    using one(2) Cons.prems(2) by simp
  with Cons.IH[OF one(1) this] one(3) show ?case
    by (auto simp: serve_marks_def reported_def)
qed (simp add: serve_marks_def reported_def)

lemma last_is_Max:
  assumes "xs \<noteq> []" and "sorted xs"
  shows "last xs = Max (set xs)"
proof -
  have "x \<le> last xs" if "x \<in> set xs" for x
    using that assms append_butlast_last_id[OF assms(1)]
    by (metis Un_iff empty_iff insert_iff list.set(1,2) order_refl set_append sorted_append)
  then show ?thesis
    using assms(1) by (intro Max_eqI[symmetric]) auto
qed

text \<open>
  C23. The status kept for a message and a user is the last one reported, whatever came in between. If
  the reports come in the order of the states it is the furthest one reached; if the last report
  is behind an earlier one, the status goes back.
\<close>

theorem status_is_last_reported:
  assumes "undisturbed w" and "mid \<in> m_id ` set (messages (wdb w))" and "mid \<noteq> []" and "p \<noteq> []"
    and "rs = reported mid p ms" and "rs \<noteq> []"
  shows "status_of (wdb (serve_marks cfg ms w)) mid p = Some (state_text (last rs)) \<and>
    (sorted rs \<longrightarrow> last rs = Max (set rs)) \<and>
    (last rs < Max (set rs) \<longrightarrow> status_of (wdb (serve_marks cfg ms w)) mid p \<noteq> Some (state_text (Max (set rs))))"
  using marks_keep_last[OF assms(1-4), of cfg ms] last_is_Max[of rs] assms(5,6)
  by (auto intro!: Max_ge last_in_set)

theorem status_is_last_reported_witness:
  "status_of (wdb (serve_marks plain_cfg [Mark_read mark_two, Mark_delivered mark_two] (chat_of one_message Map.empty))) ''1'' ''2''
     = Some ''delivered''"
proof -
  have "reported ''1'' ''2'' [Mark_read mark_two, Mark_delivered mark_two] = [State_read, State_delivered]"
    by (simp add: reported_def mark_two_def)
  with status_is_last_reported[of "chat_of one_message Map.empty" "''1''" "''2''" _ "[Mark_read mark_two, Mark_delivered mark_two]" plain_cfg]
  show ?thesis
    by (simp add: one_message_def)
qed

end
