(* ===== verification/ChatLimits.thy ===== *)
theory ChatLimits
  imports ChatProps
begin

text \<open>
  The limits on a message: what the tags of \<^verbatim>\<open>sendMessageInput\<close> ask for, and how much a send that was
  accepted can put out. The struct validator is a library; \<open>checks_tags\<close> is what its documentation says
  of these tags, for a validator that takes no more than they allow. Lengths of texts are in runes.
\<close>

section \<open>The tags\<close>



section \<open>How much is put out\<close>

















end
