(* ===== verification/ChatFaults.thy ===== *)
theory ChatFaults
  imports ChatProps
begin

text \<open>
  What the chat service says when the calls after the insert fail: \<^verbatim>\<open>SendMessage\<close> logs the error of every
  publish, push and status update, and answers with the id all the same.
\<close>

section \<open>Calls that are cut off\<close>

text \<open>The first \<open>k\<close> calls from now on are served, every later one is lost on its way.\<close>

definition cut_after :: "nat \<Rightarrow> chat_world \<Rightarrow> chat_world" where
  "cut_after k w = w\<lparr>wfault := \<lambda>n. if n < wtick w + k then Served else Request_lost\<rparr>"

definition cut_off :: "chat_world \<Rightarrow> bool" where
  "cut_off w \<longleftrightarrow> (\<forall>n d. wenv w n d = d) \<and> (\<forall>n \<ge> wtick w. wfault w n = Request_lost)"

definition silent :: "chat_world \<Rightarrow> chat_world \<Rightarrow> bool" where
  "silent w w' \<longleftrightarrow> cut_off w' \<and> wdb w' = wdb w \<and> sent_out w' = sent_out w"

lemma silent_refl: "cut_off w \<Longrightarrow> silent w w"
  by (simp add: silent_def)

lemma silent_trans: "silent w w1 \<Longrightarrow> silent w1 w2 \<Longrightarrow> silent w w2"
  by (simp add: silent_def)

lemma silent_advance: "cut_off w \<Longrightarrow> silent w (advance w)"
  by (simp add: silent_def cut_off_def)

lemma lost_calls [simp]:
  assumes "cut_off w"
  shows "exec s w = (Inl Connection_lost, advance w)" "call_out f w = (False, advance w)"
    "isOnline p w = (False, advance w)"
  using assms by (simp_all add: cut_off_def exec_def call_out_def isOnline_def redis_get_def Let_def)

lemma lost_delivery: "cut_off w \<Longrightarrow> silent w (deliverToRecipient p m w)"
  using silent_advance[of w] silent_advance[of "advance w"] silent_trans[of w "advance w"]
  by (simp add: deliverToRecipient_def redis_push_def silent_def Let_def)

lemma lost_deliveries: "cut_off w \<Longrightarrow> silent w (deliver_all ps m w)"
proof (induction ps arbitrary: w)
  case (Cons p ps)
  have "silent w (deliverToRecipient p m w)"
    by (rule lost_delivery[OF Cons.prems])
  moreover from this have "silent (deliverToRecipient p m w) (deliver_all ps m (deliverToRecipient p m w))"
    by (intro Cons.IH) (simp add: silent_def)
  ultimately show ?case
    by (simp add: silent_trans)
qed (simp add: silent_refl)

lemma lost_announcement:
  assumes "cut_off w"
  shows "silent w (announce schedule inp rs msg w)"
proof -
  have "silent w (advance (advance w))"
    using silent_advance[OF assms] silent_advance[of "advance w"] silent_trans by (auto simp: silent_def)
  moreover have "silent (advance (advance w)) (deliver_all ps m (advance (advance w)))" for ps m
    using calculation by (intro lost_deliveries) (simp add: silent_def)
  ultimately show ?thesis
    using assms silent_advance[OF assms]
    by (simp add: announce_def Let_def groupFanout_def bus_publish_def silent_def)
qed

text \<open>Calls that are answered alike are served alike.\<close>

lemma exec_faults:
  "f (wtick w) = wfault w (wtick w) \<Longrightarrow>
   exec s (w\<lparr>wfault := f\<rparr>) = (case exec s w of (r, w') \<Rightarrow> (r, w'\<lparr>wfault := f\<rparr>)) \<and> wtick (snd (exec s w)) = Suc (wtick w)"
  by (simp add: exec_def advance_def Let_def split: fault.split sum.split prod.split)

lemma exec_replica_faults:
  "f (wtick w) = wfault w (wtick w) \<Longrightarrow>
   exec_replica s (w\<lparr>wfault := f\<rparr>) = (case exec_replica s w of (r, w') \<Rightarrow> (r, w'\<lparr>wfault := f\<rparr>))
     \<and> wtick (snd (exec_replica s w)) = Suc (wtick w)"
  by (simp add: exec_replica_def advance_def Let_def split: sum.split prod.split)

lemma resolve_faults:
  assumes "resolve_recipients cfg inp w = (Inr rs, w1)" and "f (wtick w) = wfault w (wtick w)"
  shows "resolve_recipients cfg inp (w\<lparr>wfault := f\<rparr>) = (Inr rs, w1\<lparr>wfault := f\<rparr>)"
    and "wtick w1 = wtick w + (if in_group inp \<noteq> [] then 1 else 0)" and "wfault w1 = wfault w" and "wenv w1 = wenv w"
    and "wdb w1 = (if in_group inp \<noteq> [] then wenv w (wtick w) (wdb w) else wdb w)"
  using assms exec_replica_faults[of f w "GetGroupMembers (in_group inp)", OF assms(2)]
  by (auto simp: resolve_recipients_def exec_replica_def Let_def split: if_splits prod.splits sum.splits)

lemma exec_same_world: "exec s w = (r, w') \<Longrightarrow> wfault w' = wfault w \<and> wenv w' = wenv w"
  by (auto simp: exec_def Let_def split: fault.splits sum.splits)

lemma store_faults:
  assumes "store_message cfg inp rs w = (Inr msg, w2)"
    and "f (wtick w) = wfault w (wtick w)" and "f (Suc (wtick w)) = wfault w (Suc (wtick w))"
  shows "store_message cfg inp rs (w\<lparr>wfault := f\<rparr>) = (Inr msg, w2\<lparr>wfault := f\<rparr>)" and "wtick w2 = wtick w + 2"
    and "wenv w2 = wenv w"
proof -
  let ?cid = "buildConversationID (in_sender inp) rs (in_group inp)"
  let ?ensure = "EnsureConversation ?cid (if in_group inp \<noteq> [] then ''group'' else ''direct'')"
  let ?insert = "InsertMessage (insert_params inp rs ?cid)"
  obtain u w1 where first: "exec ?ensure w = (Inr u, w1)" and second: "exec ?insert w1 = (Inr msg, w2)"
    using assms(1) by (auto simp: store_message_def Let_def split: prod.splits sum.splits)
  have w1: "exec ?ensure (w\<lparr>wfault := f\<rparr>) = (Inr u, w1\<lparr>wfault := f\<rparr>)" "wtick w1 = Suc (wtick w)"
    using exec_faults[of f w ?ensure, OF assms(2)] first by simp_all
  have w2: "exec ?insert (w1\<lparr>wfault := f\<rparr>) = (Inr msg, w2\<lparr>wfault := f\<rparr>)" "wtick w2 = Suc (wtick w1)"
    using exec_faults[of f w1 ?insert] assms(3) second w1(2) exec_same_world[OF first] by simp_all
  show "store_message cfg inp rs (w\<lparr>wfault := f\<rparr>) = (Inr msg, w2\<lparr>wfault := f\<rparr>)" "wtick w2 = wtick w + 2" "wenv w2 = wenv w"
    using w1 w2 exec_same_world[OF first] exec_same_world[OF second] by (simp_all add: store_message_def Let_def)
qed

section \<open>Lost, and reported as sent\<close>

text \<open>
  C9. A message can be lost although it is reported as sent: when nobody else writes, the calls up
  to the insert are served and every later one is lost, the sender gets the very answer of a send that
  went well, the message is stored, and nothing was published or put aside for anybody.
\<close>

theorem lost_deliveries_are_silent:
  assumes "undisturbed w" and "SendMessage validate cfg schedule req w = (Inr a, w1)"
    and "v = cut_after (if trim_space (sm_group_id req) \<noteq> [] then 3 else 2) w"
  shows "\<exists>v'. SendMessage validate cfg schedule req v = (Inr a, v') \<and>
    (\<exists>msg\<in>set (messages (wdb v')). m_id msg = sr_message_id a \<and> m_body_encrypted msg = sm_body req) \<and>
    bus_log v' = bus_log w \<and> pubsub_log v' = pubsub_log w \<and> redis_lists v' = redis_lists w"
proof -
  let ?inp = "input_of req" and ?f = "wfault v"
  have v: "v = w\<lparr>wfault := ?f\<rparr>" and f: "?f n = (if n < wtick w + (if in_group ?inp \<noteq> [] then 3 else 2) then Served else Request_lost)" for n
    by (simp_all add: assms(3) cut_after_def input_of_def)
  obtain rs msg u1 u2 where valid: "validate ?inp = None" "rs \<noteq> []" and resolve: "resolve_recipients cfg ?inp w = (Inr rs, u1)"
    and store: "store_message cfg ?inp rs u1 = (Inr msg, u2)"
    and a: "a = \<lparr>sr_message_id = m_id msg, sr_server_ts = m_server_ts msg\<rparr>"
    using assms(2) by (auto simp: SendMessage_def Let_def split: option.splits if_splits prod.splits sum.splits)
  have u1: "resolve_recipients cfg ?inp v = (Inr rs, u1\<lparr>wfault := ?f\<rparr>)"
    "wtick u1 = wtick w + (if in_group ?inp \<noteq> [] then 1 else 0)" "undisturbed u1"
    using resolve_faults[OF resolve, of ?f] assms(1) f v by (simp_all add: undisturbed_def)
  have u2: "store_message cfg ?inp rs (u1\<lparr>wfault := ?f\<rparr>) = (Inr msg, u2\<lparr>wfault := ?f\<rparr>)" "wtick u2 = wtick u1 + 2" "wenv u2 = wenv u1"
    using store_faults[OF store, of ?f] u1(2,3) f by (simp_all add: undisturbed_def)
  have "cut_off (u2\<lparr>wfault := ?f\<rparr>)"
    using u1(2,3) u2(2,3) f by (simp add: cut_off_def undisturbed_def)
  from lost_announcement[OF this]
  have "silent (u2\<lparr>wfault := ?f\<rparr>) (announce schedule ?inp rs msg (u2\<lparr>wfault := ?f\<rparr>))" .
  moreover have "msg \<in> set (messages (wdb u2))" "m_body_encrypted msg = sm_body req"
    using store_appends[OF u1(3) store] stored_fields[OF store] by (simp_all add: input_of_def)
  moreover have "sent_out u2 = sent_out w"
    using sent_out_resolve[OF resolve] sent_out_store[OF store] by simp
  ultimately show ?thesis
    using valid u1(1) u2(1) a by (auto simp: SendMessage_def Let_def silent_def sent_out_def)
qed

theorem lost_deliveries_are_silent_witness:
  "\<exists>v'. SendMessage (\<lambda>_. None) plain_cfg concat hello (cut_after 2 (chat_of no_rows (\<lambda>_. None))) =
       (Inr \<lparr>sr_message_id = ''1'', sr_server_ts = 1\<rparr>, v') \<and>
     m_id ` set (messages (wdb v')) \<noteq> {} \<and> pubsub_log v' = [] \<and> redis_lists v' (offlineKey ''2'') = []"
proof -
  obtain w' where w': "SendMessage (\<lambda>_. None) plain_cfg concat hello (chat_of no_rows (\<lambda>_. None)) =
      (Inr \<lparr>sr_message_id = ''1'', sr_server_ts = 1\<rparr>, w')"
    using hello_sent by blast
  from lost_deliveries_are_silent[OF chat_of_simps(3) w' refl] show ?thesis
    by (auto simp: hello_def chat_of_def)
qed

section \<open>Not published, and recorded as delivered\<close>

text \<open>
  C10. A message that never left the service is recorded as delivered: when the recipient is online and,
  of the three calls of a delivery, only the publish on their channel is lost, nothing is published,
  nothing is put aside for later, and the status of the message for the recipient becomes delivered
  (nobody else writing).
\<close>

theorem failed_publish_counts_as_delivered:
  assumes "\<And>n d. wenv w n d = d" and "redis_keys w (wtick w) (presenceKey p) = Some s" and "equal_fold s ''online''"
    and "wfault w (wtick w) = Served" and "wfault w (Suc (wtick w)) = Request_lost" and "wfault w (Suc (Suc (wtick w))) = Served"
    and "c_message_id m \<in> m_id ` set (messages (wdb w))" and "w' = deliverToRecipient p m w"
  shows "pubsub_log w' = pubsub_log w \<and> redis_lists w' = redis_lists w \<and>
    status_of (wdb w') (c_message_id m) p = Some ''delivered''"
proof -
  have on: "isOnline p w = (True, advance w)"
    using assms(2-4) by (simp add: isOnline_def redis_get_def)
  have lost: "redis_publish (senderChannel p) (sent_payload m p) (advance w) = (False, advance (advance w))"
    using assms(5) by (simp add: redis_publish_def call_out_def)
  obtain d where d: "UpsertMessageStatus (c_message_id m) p ''delivered'' (wpg w (Suc (Suc (wtick w)))) (wdb w) = Inr ((), d)"
    "status_of d (c_message_id m) p = Some ''delivered''"
    using status_of_upsert[OF assms(7), of "''delivered''" p "wpg w (Suc (Suc (wtick w)))" "c_message_id m" p]
    by (auto simp: status_values_def)
  have "w' = (advance (advance (advance w)))\<lparr>wdb := d\<rparr>"
    using assms(1,6) d(1) by (simp add: assms(8) deliverToRecipient_def Let_def on lost exec_def)
  then show ?thesis
    using d(2) by (simp add: advance_def)
qed

definition note_two :: chatMessage where
  "note_two = \<lparr>c_message_id = ''1'', c_sender_phone = ''1'', c_recipient_phones = [''2''], c_body = ''hi'', c_status = ''sent'', c_created_at = 1\<rparr>"

definition one_lost :: chat_world where
  "one_lost = (chat_of one_message (\<lambda>_. Some ''online''))\<lparr>wfault := \<lambda>n. if n = 1 then Request_lost else Served\<rparr>"

theorem failed_publish_counts_as_delivered_witness:
  "pubsub_log (deliverToRecipient ''2'' note_two one_lost) = [] \<and>
   status_of (wdb (deliverToRecipient ''2'' note_two one_lost)) ''1'' ''2'' = Some ''delivered''"
  using failed_publish_counts_as_delivered[of one_lost "''2''" "''online''" note_two]
  by (simp add: one_lost_def note_two_def chat_of_def one_message_def equal_fold_def)

end
