(* ===== verification/RedisClient.thy ===== *)
theory RedisClient
  imports Main
begin

text \<open>
  pkg/redis/client.go: the client the gateway uses. Every method passes one command on to the driver
  and, if there is a logger, leaves a line with its name and the time it took; \<^verbatim>\<open>Incr\<close>, \<^verbatim>\<open>Expire\<close> and
  \<^verbatim>\<open>Cmdable\<close> go to the driver without one. The driver is a parameter: what it answers to a command, in
  a state of its own. (Connecting is in Startup.)
\<close>

section \<open>Commands\<close>

text \<open>The arguments of \<^verbatim>\<open>XReadGroup\<close>: group, consumer, streams with their positions, count and block.\<close>

datatype redis_command =
    Cmd_Get string
  | Cmd_Set string string int
  | Cmd_HSet string "string list"
  | Cmd_HGet string string
  | Cmd_LPush string "string list"
  | Cmd_LRange string int int
  | Cmd_Publish string string
  | Cmd_Subscribe "string list"
  | Cmd_XAdd string "(string \<times> string) list"
  | Cmd_XReadGroup string string "string list" int int
  | Cmd_XAck string string "string list"
  | Cmd_Incr string
  | Cmd_Expire string int

datatype redis_reply =
    Reply_none
  | Reply_string string
  | Reply_strings "string list"
  | Reply_int int
  | Reply_bool bool
  | Reply_streams "(string \<times> (string \<times> (string \<times> string) list) list) list"
  | Reply_pubsub "string list"

type_synonym 'd driver = "redis_command \<Rightarrow> 'd \<Rightarrow> (string + redis_reply) \<times> 'd"

section \<open>The client\<close>

text \<open>
  The state behind a client: the driver's, and the lines logged, each with the milliseconds. \<open>clock\<close> gives
  the time, in nanoseconds, when the method starts and when its deferred log call runs.
\<close>

record redis_client =
  rc_has_logger :: bool

type_synonym 'd client_state = "'d \<times> (string \<times> int) list"

definition log_line :: "redis_client \<Rightarrow> string \<Rightarrow> int \<times> int \<Rightarrow> (string \<times> int) list \<Rightarrow> (string \<times> int) list" where
  "log_line c op clock lines =
     (if \<not> rc_has_logger c then lines
      else lines @ [(op, (snd clock - fst clock) div 1000000)])"

definition passed ::
  "redis_client \<Rightarrow> string \<Rightarrow> int \<times> int \<Rightarrow> 'd driver \<Rightarrow> redis_command \<Rightarrow> 'd client_state
     \<Rightarrow> (string + redis_reply) \<times> 'd client_state" where
  "passed c op clock drv cmd s =
     (case drv cmd (fst s) of (r, d) \<Rightarrow> (r, (d, log_line c op clock (snd s))))"

text \<open>The methods that return only an error drop the reply.\<close>

definition no_value :: "(string + redis_reply) \<times> 's \<Rightarrow> (string + redis_reply) \<times> 's" where
  "no_value = (\<lambda>(r, s). (case r of Inl e \<Rightarrow> Inl e | Inr _ \<Rightarrow> Inr Reply_none, s))"

definition client_Get where
  "client_Get c clock drv key = passed c ''get'' clock drv (Cmd_Get key)"

definition client_Set where
  "client_Set c clock drv key v ttl s = no_value (passed c ''set'' clock drv (Cmd_Set key v ttl) s)"

definition client_HSet where
  "client_HSet c clock drv key vs s = no_value (passed c ''hset'' clock drv (Cmd_HSet key vs) s)"

definition client_HGet where
  "client_HGet c clock drv key field = passed c ''hget'' clock drv (Cmd_HGet key field)"

definition client_LPush where
  "client_LPush c clock drv key vs s = no_value (passed c ''lpush'' clock drv (Cmd_LPush key vs) s)"

definition client_LRange where
  "client_LRange c clock drv key start stop = passed c ''lrange'' clock drv (Cmd_LRange key start stop)"

definition client_Publish where
  "client_Publish c clock drv channel msg s = no_value (passed c ''publish'' clock drv (Cmd_Publish channel msg) s)"

text \<open>\<^verbatim>\<open>Subscribe\<close> returns the subscription and no error.\<close>

definition client_Subscribe where
  "client_Subscribe c clock drv channels s =
     (case passed c ''subscribe'' clock drv (Cmd_Subscribe channels) s of
        (_, s) \<Rightarrow> (Inr (Reply_pubsub channels), s))"

definition client_XAdd where
  "client_XAdd c clock drv stream vs = passed c ''xadd'' clock drv (Cmd_XAdd stream vs)"

definition client_XReadGroup where
  "client_XReadGroup c clock drv grp consumer streams count block =
     passed c ''xreadgroup'' clock drv (Cmd_XReadGroup grp consumer streams count block)"

definition client_XAck where
  "client_XAck c clock drv stream grp ids s = no_value (passed c ''xack'' clock drv (Cmd_XAck stream grp ids) s)"

definition client_Incr where
  "client_Incr drv key s = (case drv (Cmd_Incr key) (fst s) of (r, d) \<Rightarrow> (r, (d, snd s)))"

definition client_Expire where
  "client_Expire drv key ttl s = (case drv (Cmd_Expire key ttl) (fst s) of (r, d) \<Rightarrow> (r, (d, snd s)))"

section \<open>Transparency\<close>

text \<open>A command asked through the client.\<close>

fun through_client ::
  "redis_client \<Rightarrow> int \<times> int \<Rightarrow> 'd driver \<Rightarrow> redis_command \<Rightarrow> 'd client_state \<Rightarrow> (string + redis_reply) \<times> 'd client_state" where
  "through_client c clock drv (Cmd_Get k) = client_Get c clock drv k"
| "through_client c clock drv (Cmd_Set k v ttl) = client_Set c clock drv k v ttl"
| "through_client c clock drv (Cmd_HSet k vs) = client_HSet c clock drv k vs"
| "through_client c clock drv (Cmd_HGet k f) = client_HGet c clock drv k f"
| "through_client c clock drv (Cmd_LPush k vs) = client_LPush c clock drv k vs"
| "through_client c clock drv (Cmd_LRange k i j) = client_LRange c clock drv k i j"
| "through_client c clock drv (Cmd_Publish ch m) = client_Publish c clock drv ch m"
| "through_client c clock drv (Cmd_Subscribe chs) = client_Subscribe c clock drv chs"
| "through_client c clock drv (Cmd_XAdd st vs) = client_XAdd c clock drv st vs"
| "through_client c clock drv (Cmd_XReadGroup g n sts k b) = client_XReadGroup c clock drv g n sts k b"
| "through_client c clock drv (Cmd_XAck st g ids) = client_XAck c clock drv st g ids"
| "through_client c clock drv (Cmd_Incr k) = client_Incr drv k"
| "through_client c clock drv (Cmd_Expire k ttl) = client_Expire drv k ttl"

lemmas client_defs =
  client_Get_def client_Set_def client_HSet_def client_HGet_def client_LPush_def client_LRange_def client_Publish_def
  client_Subscribe_def client_XAdd_def client_XReadGroup_def client_XAck_def client_Incr_def client_Expire_def

text \<open>
  The client changes the driver as the command itself does, fails where it fails (but for a
  subscription), and without a logger leaves no line.
\<close>

lemma client_transparent:
  "fst (snd (through_client c clock drv cmd s)) = snd (drv cmd (fst s))"
  "(\<forall>chs. cmd \<noteq> Cmd_Subscribe chs) \<Longrightarrow>
     (case fst (through_client c clock drv cmd s) of Inl e \<Rightarrow> fst (drv cmd (fst s)) = Inl e | Inr _ \<Rightarrow> \<exists>v. fst (drv cmd (fst s)) = Inr v)"
  "\<not> rc_has_logger c \<Longrightarrow> snd (snd (through_client c clock drv cmd s)) = snd s"
  by (cases cmd; cases "drv cmd (fst s)"; cases "fst (drv cmd (fst s))";
      simp add: client_defs passed_def no_value_def log_line_def)+

end
