(* ===== verification/OldChat.thy ===== *)
theory OldChat
  imports Queries Presence WsHub "HOL-Library.List_Lexorder" "HOL-Library.Char_ord"
begin

text \<open>
  internal/chat/service.go: the chat service that came before services/chat-service, with the hub of
  pkg/ws in the same process. Nothing imports it, and at this commit it does not compile: \<^verbatim>\<open>pgtype\<close> is
  not imported, the two results of \<^verbatim>\<open>UpsertReceipt\<close> are assigned to one blank, and the user of a frame is
  called \<^verbatim>\<open>UserPhone\<close> where \<^verbatim>\<open>ws.Frame\<close> has \<^verbatim>\<open>UserID\<close>. The model is what the text says once these are
  read as meant: both results dropped, the frame's user.

  The world of Database is extended by what the service touches: presence keys, the bus, the inboxes
  (Redis lists of encoded frames, the newest first) with their expiry, and what the hub was asked to
  send. Every call may be lost, before or after it took effect.
\<close>

section \<open>World\<close>

text \<open>What goes on the bus: a message with its sender, recipients and text, or a status.\<close>

datatype old_event =
    Old_message string string "string list" string
  | Old_status string string string

record old_world = world +
  ow_keys :: "nat \<Rightarrow> string \<Rightarrow> string option"
  ow_bus :: "(string \<times> old_event) list"
  ow_inbox :: "string \<Rightarrow> string list"
  ow_ttl :: "string \<Rightarrow> int option"
  ow_sent :: "(string list \<times> string) list"

text \<open>
  The fields of the service that may be nil, and the libraries: the encoder of frames, the hash as bytes,
  the clock's nanoseconds at the one place that reads it.
\<close>

record old_service =
  os_presence :: bool
  os_redis :: bool
  os_marshal :: "json \<Rightarrow> string option"
  os_unmarshal :: "string \<Rightarrow> json option"
  os_sha256 :: "string \<Rightarrow> 8 word list"
  os_err :: "sql_error \<Rightarrow> string"

definition redis_call :: "('v \<Rightarrow> old_world \<Rightarrow> old_world) \<Rightarrow> 'v \<Rightarrow> old_world \<Rightarrow> bool \<times> old_world" where
  "redis_call f v w =
     (let w1 = advance w in
      case wfault w (wtick w) of
        Served \<Rightarrow> (True, f v w1)
      | Request_lost \<Rightarrow> (False, w1)
      | Reply_lost \<Rightarrow> (False, f v w1))"

definition old_LPush :: "string \<Rightarrow> string \<Rightarrow> old_world \<Rightarrow> bool \<times> old_world" where
  "old_LPush key = redis_call (\<lambda>v w. w\<lparr>ow_inbox := (ow_inbox w)(key := v # ow_inbox w key)\<rparr>)"

definition old_Expire :: "string \<Rightarrow> int \<Rightarrow> old_world \<Rightarrow> bool \<times> old_world" where
  "old_Expire key = redis_call (\<lambda>ttl w. w\<lparr>ow_ttl := (ow_ttl w)(key := (if ow_inbox w key = [] then None else Some ttl))\<rparr>)"

text \<open>\<^verbatim>\<open>RPOP\<close>: the oldest entry, \<^verbatim>\<open>Nil\<close> for an empty list, or an error.\<close>

definition old_RPop :: "string \<Rightarrow> old_world \<Rightarrow> (get_error + string) \<times> old_world" where
  "old_RPop key w =
     (let w1 = advance w; popped = w1\<lparr>ow_inbox := (ow_inbox w1)(key := butlast (ow_inbox w1 key))\<rparr> in
      case wfault w (wtick w) of
        Served \<Rightarrow> (if ow_inbox w1 key = [] then (Inl Redis_nil, w1) else (Inr (last (ow_inbox w1 key)), popped))
      | Request_lost \<Rightarrow> (Inl (Redis_error ''connection lost''), w1)
      | Reply_lost \<Rightarrow> (Inl (Redis_error ''connection lost''), popped))"

text \<open>\<^verbatim>\<open>Tracker.IsOnline\<close> with its error dropped: the model of Presence on a key that is read at this call.\<close>

definition old_isOnline :: "string \<Rightarrow> old_world \<Rightarrow> bool \<times> old_world" where
  "old_isOnline p w =
     (wfault w (wtick w) = Served \<and> ow_keys w (wtick w) (prefix_key p) = Some ''online'', advance w)"

definition old_Publish :: "string \<times> old_event \<Rightarrow> old_world \<Rightarrow> bool \<times> old_world" where
  "old_Publish = redis_call (\<lambda>e w. w\<lparr>ow_bus := ow_bus w @ [e]\<rparr>)"

text \<open>The hub is in the process: its channel takes what it is given.\<close>

definition hub_Broadcast :: "string list \<Rightarrow> string \<Rightarrow> old_world \<Rightarrow> old_world" where
  "hub_Broadcast targets data w = w\<lparr>ow_sent := ow_sent w @ [(targets, data)]\<rparr>"

section \<open>Names\<close>

definition directConversationID :: "(string \<Rightarrow> 8 word list) \<Rightarrow> string \<Rightarrow> string \<Rightarrow> string" where
  "directConversationID sha256 a b =
     (let users = sort [a, b]; sum = sha256 (users ! 0 @ '':'' @ users ! 1)
      in ''dm_'' @ take 24 (hex_encode sum))"

definition old_newID :: "string \<Rightarrow> int \<Rightarrow> string" where
  "old_newID pre now = pre @ ''_'' @ decimal now"

definition inboxKey :: "string \<Rightarrow> string" where
  "inboxKey userPhone = ''inbox:'' @ userPhone"

section \<open>Operations\<close>

text \<open>An index out of range is a panic; an error is a value.\<close>

datatype old_failure = Old_panic string | Old_error string

record old_SendRequest =
  or_ConversationID :: string
  or_RecipientPhones :: "string list"
  or_SenderPhone :: string
  or_Body :: string
  or_TraceID :: string

definition message_frame :: "string \<Rightarrow> message \<Rightarrow> string \<Rightarrow> frame" where
  "message_frame target msg traceID =
     \<lparr>f_type = ''message.delivered'', f_trace_id = traceID, f_user_id = target,
      f_payload = [(''body'', JStr (m_body msg)), (''conversation_id'', JStr (m_conversation_id msg)),
        (''message_id'', JStr (m_id msg)), (''sender_phone'', JStr (m_sender_phone msg))]\<rparr>"

definition old_deliver :: "old_service \<Rightarrow> string \<Rightarrow> message \<Rightarrow> string \<Rightarrow> old_world \<Rightarrow> old_world" where
  "old_deliver sv target msg traceID w =
     (case (if os_presence sv then old_isOnline target w else (False, w)) of (online, w) \<Rightarrow>
      (case MarshalFrame (os_marshal sv) (message_frame target msg traceID) of
         None \<Rightarrow> w
       | Some frame \<Rightarrow>
           if online then
             snd (exec (UpsertReceipt (m_id msg) target ''delivered'') (hub_Broadcast [target] frame w))
           else if os_redis sv then
             snd (old_Expire (inboxKey target) (24 * 3600 * 1000000000) (snd (old_LPush (inboxKey target) frame w)))
           else w))"

definition ack_frame :: "string \<Rightarrow> message \<Rightarrow> string \<Rightarrow> frame" where
  "ack_frame sender msg traceID =
     \<lparr>f_type = ''message.sent'', f_trace_id = traceID, f_user_id = sender,
      f_payload = [(''body'', JStr (m_body msg)), (''conversation_id'', JStr (m_conversation_id msg)),
        (''message_id'', JStr (m_id msg)), (''status'', JStr ''sent'')]\<rparr>"

text \<open>The recipients, or without any the other members of the conversation.\<close>

definition old_targets :: "old_SendRequest \<Rightarrow> string \<Rightarrow> old_world \<Rightarrow> string list \<times> old_world" where
  "old_targets req conversationID w =
     (if or_RecipientPhones req = [] then
        (case exec (ListConversationMembers conversationID) w of
           (Inl _, w) \<Rightarrow> ([], w)
         | (Inr ms, w) \<Rightarrow> (filter (\<lambda>p. p \<noteq> or_SenderPhone req) (map cm_user_phone ms), w))
      else (or_RecipientPhones req, w))"

definition old_SendMessage ::
  "old_service \<Rightarrow> int \<Rightarrow> old_SendRequest \<Rightarrow> old_world \<Rightarrow> (old_failure + message) \<times> old_world" where
  "old_SendMessage sv now req w =
     (let rs = or_RecipientPhones req;
          conversationID = (if or_ConversationID req = [] then
              (if length rs = 1 then directConversationID (os_sha256 sv) (or_SenderPhone req) (rs ! 0)
               else old_newID ''group'' now)
            else or_ConversationID req);
          kind = (if length rs = 1 then ''direct'' else ''group'') in
      case exec (EnsureConversation conversationID kind) w of
        (Inl e, w) \<Rightarrow> (Inl (Old_error (''chat.SendMessage ensure conversation: '' @ os_err sv e)), w)
      | (Inr _, w) \<Rightarrow>
      if rs = [] then (Inl (Old_panic ''index out of range [0] with length 0''), w)
      else
     (case exec (InsertMessage
             \<lparr>i_sender_phone = or_SenderPhone req, i_recipient_phone = (if length rs = 1 then Some (rs ! 0) else None),
              i_group_id = None, i_body_encrypted = or_Body req, i_body_type = ''text'', i_body = or_Body req,
              i_conversation_id = conversationID\<rparr>) w of
        (Inl e, w) \<Rightarrow> (Inl (Old_error (''chat.SendMessage insert: '' @ os_err sv e)), w)
      | (Inr msg, w) \<Rightarrow>
      (let w = fold (\<lambda>p w. snd (exec (AddConversationMember conversationID p) w)) (rs @ [or_SenderPhone req]) w;
           w = snd (exec (UpsertReceipt (m_id msg) (or_SenderPhone req) ''sent'') w) in
       case MarshalFrame (os_marshal sv) (ack_frame (or_SenderPhone req) msg (or_TraceID req)) of
         None \<Rightarrow> (Inl (Old_error ''chat.SendMessage marshal''), w)
       | Some data \<Rightarrow>
      (case old_targets req conversationID (hub_Broadcast [or_SenderPhone req] data w) of
         (targets, w) \<Rightarrow>
           (if targets = [] then (Inr msg, w)
            else (Inr msg,
              fold (\<lambda>t. old_deliver sv t msg (or_TraceID req)) targets
                (snd (old_Publish (''events.chat'', Old_message (m_id msg) (or_SenderPhone req) targets (m_body msg)) w))))))))"

definition old_MarkRead :: "string \<Rightarrow> string \<Rightarrow> old_world \<Rightarrow> old_world" where
  "old_MarkRead messageID userPhone w =
     snd (old_Publish (''events.chat'', Old_status messageID userPhone ''read'')
       (snd (exec (UpsertReceipt messageID userPhone ''read'') w)))"

section \<open>Draining an inbox\<close>

text \<open>What becomes of one entry that was popped.\<close>

definition handle_pending :: "old_service \<Rightarrow> string \<Rightarrow> string \<Rightarrow> old_world \<Rightarrow> old_world" where
  "handle_pending sv userPhone data w =
     (let w = hub_Broadcast [userPhone] data w in
      case UnmarshalFrame (os_unmarshal sv) data of
        None \<Rightarrow> w
      | Some f \<Rightarrow>
          (case map_of (f_payload f) ''message_id'' of
             Some (JStr messageID) \<Rightarrow> snd (exec (UpsertReceipt messageID userPhone ''delivered'') w)
           | _ \<Rightarrow> w))"

lemma exec_keeps_inbox: "ow_inbox (snd (exec s w)) = ow_inbox w" "ow_sent (snd (exec s w)) = ow_sent w"
  by (auto simp: exec_def advance_def Let_def split: fault.split sum.split)

lemma handle_pending_inbox: "ow_inbox (handle_pending sv p data w) = ow_inbox w"
  by (auto simp: handle_pending_def Let_def hub_Broadcast_def exec_keeps_inbox split: option.split json.split)

lemma popped_shorter: "old_RPop key w = (Inr data, w') \<Longrightarrow> length (ow_inbox w' key) < length (ow_inbox w key)"
  by (auto simp: old_RPop_def Let_def advance_def split: fault.splits if_splits)

function drain_loop :: "old_service \<Rightarrow> string \<Rightarrow> old_world \<Rightarrow> (old_failure + unit) \<times> old_world" where
  "drain_loop sv userPhone w =
     (case old_RPop (inboxKey userPhone) w of
        (Inl Redis_nil, w) \<Rightarrow> (Inr (), w)
      | (Inl (Redis_error e), w) \<Rightarrow> (Inl (Old_error (''chat.DrainPending: '' @ e)), w)
      | (Inr data, w) \<Rightarrow> drain_loop sv userPhone (handle_pending sv userPhone data w))"
  by auto
termination
  by (relation "measure (\<lambda>(sv, p, w). length (ow_inbox w (inboxKey p)))")
    (auto simp: handle_pending_inbox dest: popped_shorter[OF sym])

declare drain_loop.simps [simp del]

definition DrainPending :: "old_service \<Rightarrow> string \<Rightarrow> old_world \<Rightarrow> (old_failure + unit) \<times> old_world" where
  "DrainPending sv userPhone w = (if \<not> os_redis sv then (Inr (), w) else drain_loop sv userPhone w)"

section \<open>What holds\<close>

lemma directConversationID_commute: "directConversationID sha256 a b = directConversationID sha256 b a"
  by (cases "a \<le> b"; cases "b \<le> a") (auto simp: directConversationID_def Let_def)

text \<open>
  A message without recipients never gets through: where the code means to read the members of the
  conversation, it has already indexed the empty list. The conversation's row is written by then.
\<close>

lemma no_recipients_panics:
  assumes "or_RecipientPhones req = []" and "old_SendMessage sv now req w = (r, w')"
  shows "\<not> is_ok r \<and> messages (wdb w') = messages (wenv w (wtick w) (wdb w)) \<and> ow_sent w' = ow_sent w \<and>
    (wfault w (wtick w) = Served \<longrightarrow> r = Inl (Old_panic ''index out of range [0] with length 0''))"
  using assms
  by (auto simp: old_SendMessage_def Let_def exec_def EnsureConversation_def writing_def advance_def
      split: fault.splits)

lemma old_next_call [simp]:
  "ow_inbox (next_call d w) = ow_inbox w" "ow_sent (next_call d w) = ow_sent w" "ow_keys (next_call d w) = ow_keys w"
  by (simp_all add: next_call_def)

lemma undisturbed_old [simp]:
  "undisturbed (ow_inbox_update f w) = undisturbed w" "undisturbed (ow_sent_update g w) = undisturbed w"
  "undisturbed (ow_ttl_update h w) = undisturbed w" "undisturbed (ow_bus_update i w) = undisturbed w"
  by (simp_all add: undisturbed_def)

lemma RPop_undisturbed:
  "undisturbed w \<Longrightarrow> old_RPop key w =
    (if ow_inbox w key = [] then (Inl Redis_nil, next_call (wdb w) w)
     else (Inr (last (ow_inbox w key)),
       (next_call (wdb w) w)\<lparr>ow_inbox := (ow_inbox w)(key := butlast (ow_inbox w key))\<rparr>))"
  by (simp add: old_RPop_def Let_def undisturbed_advance)

lemma exec_undisturbed_keeps: "undisturbed w \<Longrightarrow> undisturbed (snd (exec s w))"
  by (simp add: exec_undisturbed split: sum.split)

lemma handle_pending_effect:
  assumes "undisturbed w"
  shows "undisturbed (handle_pending sv p data w)" and "ow_sent (handle_pending sv p data w) = ow_sent w @ [([p], data)]"
  using assms
  by (auto simp: handle_pending_def Let_def hub_Broadcast_def exec_keeps_inbox exec_undisturbed_keeps
      split: option.split json.split)

text \<open>
  Draining an inbox ends, empties it and broadcasts to the user what was in it, the oldest first: the
  lists are pushed on the left and popped on the right.
\<close>

lemma drain_broadcasts:
  assumes "undisturbed w" and "os_redis sv" and "DrainPending sv p w = (r, w')"
  shows "r = Inr () \<and> ow_inbox w' (inboxKey p) = [] \<and>
    ow_sent w' = ow_sent w @ map (\<lambda>d. ([p], d)) (rev (ow_inbox w (inboxKey p)))"
proof -
  have "drain_loop sv p w = (r, w')"
    using assms(2,3) by (simp add: DrainPending_def)
  with assms(1) show ?thesis
  proof (induction "length (ow_inbox w (inboxKey p))" arbitrary: w rule: less_induct)
    case less
    let ?box = "ow_inbox w (inboxKey p)"
    show ?case
    proof (cases "?box = []")
      case True
      then show ?thesis
        using less.prems by (auto simp: drain_loop.simps[of sv p w] RPop_undisturbed)
    next
      case False
      define v where "v = (next_call (wdb w) w)\<lparr>ow_inbox := (ow_inbox w)(inboxKey p := butlast ?box)\<rparr>"
      let ?v = "handle_pending sv p (last ?box) v"
      have v: "undisturbed v" "ow_inbox v (inboxKey p) = butlast ?box" "ow_sent v = ow_sent w"
        using less.prems(1) by (simp_all add: v_def)
      have next_loop: "drain_loop sv p ?v = (r, w')"
        using less.prems False by (simp add: drain_loop.simps[of sv p w] RPop_undisturbed v_def)
      have "length (ow_inbox ?v (inboxKey p)) < length ?box"
        using False v(2) by (simp add: handle_pending_inbox)
      from less.hyps[OF this handle_pending_effect(1)[OF v(1)] next_loop]
      have "r = Inr () \<and> ow_inbox w' (inboxKey p) = [] \<and>
          ow_sent w' = ow_sent w @ map (\<lambda>d. ([p], d)) (last ?box # rev (butlast ?box))"
        by (simp add: handle_pending_effect(2)[OF v(1)] handle_pending_inbox v(2,3))
      moreover have "last ?box # rev (butlast ?box) = rev ?box"
        using False by (metis append_butlast_last_id rev_eq_Cons_iff rev_rev_ident)
      ultimately show ?thesis
        by simp
    qed
  qed
qed

text \<open>The presence key of the user never says online, where presence is asked for at all.\<close>

definition absent :: "old_service \<Rightarrow> string \<Rightarrow> old_world \<Rightarrow> bool" where
  "absent sv p w \<longleftrightarrow> (os_presence sv \<longrightarrow> (\<forall>n. ow_keys w n (prefix_key p) \<noteq> Some ''online''))"

lemma deliver_offline_pushes:
  assumes "undisturbed w" and "os_redis sv" and "absent sv p w"
    and "MarshalFrame (os_marshal sv) (message_frame p msg tr) = Some data"
  shows "undisturbed (old_deliver sv p msg tr w)" and "ow_sent (old_deliver sv p msg tr w) = ow_sent w"
    and "ow_inbox (old_deliver sv p msg tr w) (inboxKey p) = data # ow_inbox w (inboxKey p)"
    and "absent sv p (old_deliver sv p msg tr w)"
  using assms
  by (simp_all add: old_deliver_def old_isOnline_def absent_def old_LPush_def old_Expire_def redis_call_def undisturbed_advance Let_def)

text \<open>
  C33. While the calls of the service are served, what is delivered to a user whose presence key does not
  say online is not lost: draining the inbox afterwards ends without an error, leaves it empty and
  broadcasts to the user what was in it before and then the new frames, in the order of the messages.
\<close>

theorem deliver_then_drain:
  assumes "undisturbed w" and "os_redis sv" and "os_presence sv \<longrightarrow> (\<forall>n. ow_keys w n (prefix_key p) \<noteq> Some ''online'')"
    and "those (map (\<lambda>m. MarshalFrame (os_marshal sv) (message_frame p m tr)) msgs) = Some frames"
    and "DrainPending sv p (fold (\<lambda>m. old_deliver sv p m tr) msgs w) = (r, w')"
  shows "r = Inr () \<and> ow_inbox w' (inboxKey p) = [] \<and>
    ow_sent w' = ow_sent w @ map (\<lambda>d. ([p], d)) (rev (ow_inbox w (inboxKey p)) @ frames)"
proof -
  have "absent sv p w"
    using assms(3) by (simp add: absent_def)
  with assms(1,4) have "undisturbed (fold (\<lambda>m. old_deliver sv p m tr) msgs w) \<and> ow_sent (fold (\<lambda>m. old_deliver sv p m tr) msgs w) = ow_sent w \<and>
      ow_inbox (fold (\<lambda>m. old_deliver sv p m tr) msgs w) (inboxKey p) = rev frames @ ow_inbox w (inboxKey p)"
  proof (induction msgs arbitrary: w frames)
    case (Cons m msgs)
    then obtain d ds where d: "MarshalFrame (os_marshal sv) (message_frame p m tr) = Some d" "frames = d # ds"
      "those (map (\<lambda>m. MarshalFrame (os_marshal sv) (message_frame p m tr)) msgs) = Some ds"
      by (auto split: option.splits)
    note one = deliver_offline_pushes[OF Cons.prems(1) assms(2) Cons.prems(3) d(1)]
    from Cons.IH[OF one(1) d(3) one(4)] one d(2) show ?case
      by simp
  qed simp
  with drain_broadcasts[OF _ assms(2,5)] show ?thesis
    by simp
qed

definition old_calm :: old_world where
  "old_calm = \<lparr>wdb = no_rows, wtick = 0, wfault = (\<lambda>_. Served), wenv = (\<lambda>_ d. d),
     wpg = (\<lambda>n. \<lparr>pg_now = int n, pg_uuid = []\<rparr>), ow_keys = (\<lambda>_ _. None), ow_bus = [], ow_inbox = (\<lambda>_. []),
     ow_ttl = Map.empty, ow_sent = []\<rparr>"

text \<open>An encoder that keeps the message id only.\<close>

definition id_marshal :: "json \<Rightarrow> string option" where
  "id_marshal j = (case j of JObj ((_, JObj ms) # _) \<Rightarrow>
      (case map_of ms ''message_id'' of Some (JStr i) \<Rightarrow> Some i | _ \<Rightarrow> None) | _ \<Rightarrow> None)"

definition old_plain :: old_service where
  "old_plain = \<lparr>os_presence = True, os_redis = True, os_marshal = id_marshal, os_unmarshal = (\<lambda>_. None),
     os_sha256 = (\<lambda>_. []), os_err = (\<lambda>_. [])\<rparr>"

definition numbered :: "string \<Rightarrow> message" where
  "numbered i = new_message \<lparr>i_sender_phone = ''1'', i_recipient_phone = Some ''2'', i_group_id = None,
     i_body_encrypted = [], i_body_type = ''text'', i_body = [], i_conversation_id = []\<rparr> \<lparr>pg_now = 0, pg_uuid = i\<rparr>"

text \<open>A user who went offline, with one frame that waits already.\<close>

definition gone_offline :: old_world where
  "gone_offline = old_calm\<lparr>ow_keys := \<lambda>_. [prefix_key ''2'' \<mapsto> ''offline''], ow_inbox := (\<lambda>_. [])(inboxKey ''2'' := [''z''])\<rparr>"

theorem deliver_then_drain_witness:
  "ow_sent (snd (DrainPending old_plain ''2''
      (fold (\<lambda>m. old_deliver old_plain ''2'' m []) [numbered ''a'', numbered ''b''] gone_offline))) =
    [([''2''], ''z''), ([''2''], ''a''), ([''2''], ''b'')] \<and> os_presence old_plain"
proof -
  have frames: "those (map (\<lambda>m. MarshalFrame (os_marshal old_plain) (message_frame ''2'' m [])) [numbered ''a'', numbered ''b''])
      = Some [''a'', ''b'']"
    by (simp add: old_plain_def MarshalFrame_def envelope_def message_frame_def id_marshal_def numbered_def new_message_def)
  have calm: "undisturbed gone_offline" "os_redis old_plain" "os_presence old_plain"
    "os_presence old_plain \<longrightarrow> (\<forall>n. ow_keys gone_offline n (prefix_key ''2'') \<noteq> Some ''online'')"
    by (simp_all add: gone_offline_def old_calm_def old_plain_def undisturbed_def)
  show ?thesis
    using deliver_then_drain[OF calm(1,2,4) frames prod.collapse[symmetric]] calm(3) by (simp add: gone_offline_def old_calm_def)
qed

end
