(* ===== verification/Spec2Isabelle.thy ===== *)
theory Spec2Isabelle
  imports GroupGuards ChatHistory FanOut GatewayHub Pumps GatewayApi Routing
    EventBus Presence Calls Media Users Notification InternalAuth Config Logging
    GatewayMain Membership Privacy ChatStatus ChatLimits ChatFaults RedisClient OldChat
begin

text \<open>
  Wire-server: a chat backend in Go. An HTTP and WebSocket gateway (services/api-gateway) sits in
  front of gRPC services for chat, calls, media, presence and users, which keep their rows in
  PostgreSQL and their short-lived state in Redis, and tell each other of events over a bus. This
  development models the code of these parts and proves what makes them correct, and where they
  are not, what exactly goes wrong.

  \<^bold>\<open>How code becomes definitions.\<close> A struct is a record, a Go string a list of bytes, a pair of a
  value and an error a sum with the error on the left, a pointer or nullable column an option. A
  handler is a function from its inputs and the world to its response and the world after it. The
  world of Database holds the tables, a counter of the calls made so far, and for each call whether
  it is served, lost on the way there or lost on the way back, and what other sessions commit
  before it; so a theorem about all worlds covers every failure and every interleaving with other
  writers. \<open>undisturbed\<close> (and \<open>calm\<close>, \<open>steady\<close>) name the worlds in which calls are served and
  nobody else writes. Goroutines that share state are step relations (\<open>hub_step\<close>, \<open>run_step\<close> with
  \<open>env_step\<close>, \<open>pool_step\<close>, \<open>pool_move\<close>); their theorems are about every reachable state. Loops
  are structural recursion, recursion with a measure, or, where a loop need not end, a partial
  function into options (the wait for Kafka) or a function of everything it will meet (consumers,
  pumps). The only fuel is the number of pages a reader of the history asks for; the theorem says
  that one page more than there are messages is enough.

  \<^bold>\<open>The theories and the code.\<close>

  \<^item> Prelude, GoStrings, GoUrl, Base64, Http: results, state machines (the locales \<open>safe_system\<close>
    and \<open>terminating_system\<close>), and the parts of Go's library the code uses: white space, fields,
    splitting, case folding, numbers, hex, base64, URL escapes, paths, times, JSON bodies. Http
    holds \<^verbatim>\<open>writeJSON\<close>, \<^verbatim>\<open>writeError\<close> and \<^verbatim>\<open>copyHeader\<close> of the gateway.
  \<^item> Database, Queries: pkg/db/sqlc. Rows, statements, calls, transactions; every generated query;
    the keys, references and checks of infra/migrations (\<open>db_ok\<close>), kept by every query.
  \<^item> Middleware: pkg/middleware. Tokens, the key cache, the rate limiter, the metrics' status,
    hijacking, spans. RedisClient: pkg/redis, every method as the command it passes on.
  \<^item> Routing: \<^verbatim>\<open>Routes\<close>, the table of the gateway's endpoints behind limiter and authentication.
  \<^item> Dedupe, GroupHandlers: the group handlers of the gateway's server.go with their inline SQL.
    GroupRoles abstracts the tables to who has which role (locale \<open>role_store\<close>), GroupRefinement
    and GroupInvariant state what the requests should do to the roles and prove that the handlers
    do it, that every group keeps an admin and that creation is all or nothing; GroupProps says who
    each handler lets in and that the constraints of the tables outlive any requests and faults; GroupGuards
    what the guards are worth, and where they fail (interleaved demotions, failed reads, a list that was
    cut off). A loop over the rows of a query meets a \<open>rows_end\<close>: all rows, a broken connection in the
    middle, or a row that does not scan.
  \<^item> ChatService, ChatProps, ChatHistory: services/chat-service/cmd/server.go. Sending, delivery to
    online and offline recipients, status updates, and reading the history page by page. ChatStatus
    is about runs of status updates (the states in their order as a \<open>linorder\<close>), ChatLimits about
    what the tags of the input bound and how much a send can put out, under any faults, ChatFaults about
    the sends that are answered as if all had gone well although nothing was put out. The theorems that
    a message arrives are about \<open>steady\<close> worlds, and say so.
  \<^item> FanOut: the worker pool of \<^verbatim>\<open>groupFanout\<close>: it ends, and serves every recipient exactly once.
  \<^item> GatewayHub: internal/gateway/hub.go, the event loop with its channels and blocking sends,
    the sockets it holds open and the goroutines of the subscriptions.
  \<^item> WsHub, Pumps: pkg/ws, the hub, the connections' two goroutines, the frames.
  \<^item> GatewayApi: the other handlers of server.go, which call the services. A gRPC client is a
    parameter; \<open>in_process\<close> makes one of a service's handler, and the theorems here are about the
    composition: token, gateway, chat service, tables.
  \<^item> EndToEnd, Membership, Privacy: theorems across services. EndToEnd joins the hub to the chat
    service through Redis (\<open>hub_keys\<close> are the presence keys a hub has written, \<open>relay\<close> hands what was
    published to the connections) and follows a message from the request to the sockets; Membership
    joins the gateway's group handlers to the sends that come after them, with a replica that may
    lag; Privacy says who can read a conversation.
  \<^item> EventBus: pkg/eventbus. Both drivers keep the contract \<open>in_order_consumer\<close>.
  \<^item> Presence, Calls, Media, Users: the services of that name with internal/presence, internal/call
    and internal/media. Notification: the push workers of internal/notification. InternalAuth:
    internal/auth. Config: pkg/config and the address readers of the mains. Logging: pkg/logger.
  \<^item> OldChat: internal/chat/service.go, which nothing imports and which does not compile; what it
    means to do, with the three errors read as meant.
  \<^item> Startup, GatewayMain: how the services come up and go down (the \<^verbatim>\<open>main\<close> of every service,
    pkg/db's pools and migrations, internal/clients, the connecting of pkg/redis). A process is what
    it holds open and the log of its calls to the outside. The lemmas go through a \<^verbatim>\<open>main\<close> step by
    step (\<open>main_rules\<close> for the calls, \<open>clean_rules\<close> for what is closed); the theorems are that the
    chat service serves last, that services close what they opened, with the exceptions, that a
    dial's breaker never opens, and that a gateway whose hub froze does not end.

  \<^bold>\<open>What is a parameter.\<close> The JWT library, the JSON parser on bytes and the protobuf codec, HMAC and
  SHA, the struct validator, viper, the random source, the clocks, the collation, the texts of
  database errors, the circuit breaker and the retry loop of the dials, the certificate parser, zap, the
  Redis commands where they are not part of a modelled state, the router's
  matching, the upstream of the token refresh. What a theorem needs of one is a hypothesis named
  after what is documented (\<open>exact_counter\<close>, \<open>expiring\<close>, \<open>documented\<close>, \<open>trips_on_condition\<close>,
  \<open>retries_at_most\<close>), with an instance in its witness.

  \<^bold>\<open>Not modelled.\<close> The health handlers of the mains answer a constant. The protobuf packages are
  generated; the message types the handlers use are records of their components. The counters and
  histograms of the metrics library, deadlines of writes, epoll, log lines and
  the rate that \<^verbatim>\<open>MetricsSnapshot\<close> divides out are observation or belong to the operating system.
\<close>

section \<open>From the chat service to a socket\<close>

text \<open>
  What the chat service publishes to a user is what that user's socket is sent, in order, while the
  gateway's subscription lives.
\<close>

lemma published_is_sent:
  "subscribeUser (map Received (map f (filter (\<lambda>(ch, _). ch = subscribed_channel phone) (pubsub_log w)))) =
   map f (filter (\<lambda>(ch, _). ch = senderChannel phone) (pubsub_log w))"
proof -
  have "subscribeUser (map Received ps) = ps" for ps
    by (induction ps) auto
  then show ?thesis
    by (simp add: shared_names comp_def flip: map_map)
qed

end
